theory Spec2Isabelle
  imports Main "HOL-Library.Word" "HOL-Library.Multiset" "HOL-Library.AList"
begin

section \<open>Package server: the sorted method table\<close>

text \<open>
  \<^verbatim>\<open>capnp.Method\<close> identifies a method by a 64-bit interface id and a 16-bit method id;
  \<^verbatim>\<open>server.Method\<close> embeds it and adds the implementing function and the size of the
  results struct.  The implementation is kept abstract (type \<open>'f\<close>).
\<close>

record capnp_Method =
  InterfaceID :: "64 word"
  MethodID :: "16 word"

record 'f Method = capnp_Method +
  Impl :: 'f
  ResultsSize :: nat

type_synonym 'f sortedMethods = "'f Method list"

text \<open>\<^verbatim>\<open>sortedMethods.Less(i, j)\<close>, on the two elements it compares.\<close>

definition Less :: "'f Method \<Rightarrow> 'f Method \<Rightarrow> bool" where
  "Less a b =
     (if InterfaceID a \<noteq> InterfaceID b then InterfaceID a < InterfaceID b
      else MethodID a < MethodID b)"

text \<open>
  \<^verbatim>\<open>sort.Search(n, f)\<close> of the Go standard library: binary search for the smallest
  index in \<open>[0, n)\<close> at which \<open>f\<close> holds, \<open>n\<close> if there is none.  The midpoint is
  \<^verbatim>\<open>int(uint(i+j) >> 1)\<close>; a slice length fits an \<^verbatim>\<open>int\<close>, so \<open>i + j\<close> fits a
  \<^verbatim>\<open>uint\<close> and the midpoint is \<open>(i + j) div 2\<close>.
\<close>

function Search_loop :: "(nat \<Rightarrow> bool) \<Rightarrow> nat \<Rightarrow> nat \<Rightarrow> nat" where
  "Search_loop f i j =
     (if i < j then
        (let h = (i + j) div 2 in
         if \<not> f h then Search_loop f (h + 1) j else Search_loop f i h)
      else i)"
  by pat_completeness auto
termination
  by (relation "measure (\<lambda>(f, i, j). j - i)") auto

declare Search_loop.simps [simp del]

definition Search :: "nat \<Rightarrow> (nat \<Rightarrow> bool) \<Rightarrow> nat" where
  "Search n f = Search_loop f 0 n"

text \<open>
  \<^verbatim>\<open>sortedMethods.find\<close>: the predicate handed to \<^verbatim>\<open>sort.Search\<close> reads \<open>sm[i]\<close>, which
  the search only asks for at indices below \<open>len(sm)\<close> (lemma \<open>Search_loop_cong\<close>).
  The returned pointer is \<open>Some\<close> of the element, \<^verbatim>\<open>nil\<close> is \<open>None\<close>.
\<close>

definition find_pred :: "'f sortedMethods \<Rightarrow> capnp_Method \<Rightarrow> nat \<Rightarrow> bool" where
  "find_pred sm mid i =
     (let m = sm ! i in
      if InterfaceID m \<noteq> InterfaceID mid then InterfaceID m \<ge> InterfaceID mid
      else MethodID m \<ge> MethodID mid)"

definition sortedMethods_find :: "'f sortedMethods \<Rightarrow> capnp_Method \<Rightarrow> 'f Method option" where
  "sortedMethods_find sm mid =
     (let i = Search (length sm) (find_pred sm mid) in
      if i = length sm then None
      else
        (let m = sm ! i in
         if InterfaceID m \<noteq> InterfaceID mid \<or> MethodID m \<noteq> MethodID mid then None
         else Some m))"

text \<open>
  \<^verbatim>\<open>New\<close> copies the methods and calls \<^verbatim>\<open>sort.Sort\<close> of the standard library, which
  leaves a permutation in which no element is \<open>Less\<close> than an earlier one (it is not
  stable).  \<open>sort_Sort\<close> is one such sort, by insertion; \<open>Sorted\<close> is the contract,
  and the theorem about \<open>find\<close> is stated for every list that meets it.
\<close>

fun insert_Less :: "'f Method \<Rightarrow> 'f Method list \<Rightarrow> 'f Method list" where
  "insert_Less x [] = [x]"
| "insert_Less x (y # ys) = (if Less y x then y # insert_Less x ys else x # y # ys)"

fun sort_Sort :: "'f Method list \<Rightarrow> 'f Method list" where
  "sort_Sort [] = []"
| "sort_Sort (x # xs) = insert_Less x (sort_Sort xs)"

definition Sorted :: "'f Method list \<Rightarrow> 'f Method list \<Rightarrow> bool" where
  "Sorted methods sm \<longleftrightarrow> mset sm = mset methods \<and> sorted_wrt (\<lambda>a b. \<not> Less b a) sm"

definition New :: "'f Method list \<Rightarrow> 'f sortedMethods" where
  "New methods = sort_Sort methods"

section \<open>Package rpc: the connection core\<close>

subsection \<open>Identifiers and errors\<close>

type_synonym u32 = "32 word"
type_synonym questionID = u32
type_synonym answerID = u32
type_synonym exportID = u32
type_synonym importID = u32
type_synonym embargoID = u32

text \<open>A \<^verbatim>\<open>*Conn\<close> is told apart from the others by a number.\<close>

type_synonym connID = nat

text \<open>
  Errors are kept symbolic.  \<open>Exc\<close> is an \<^verbatim>\<open>exc.Exception\<close> (type, text, cause);
  \<open>Errorf\<close> is \<^verbatim>\<open>fmt.Errorf\<close> with the error its \<^verbatim>\<open>%w\<close> wraps.  The text is the format
  string of the source, its arguments are not rendered.  \<open>Sentinel\<close> is one of the
  package's error variables, \<open>External\<close> an error that the serialization layer or the
  transport returned.
\<close>

datatype exc_Type = Failed | Overloaded | Disconnected | Unimplemented

datatype error =
    Canceled
  | Sentinel string
  | External nat
  | Errorf string "error option"
  | Exc exc_Type string "error option"

abbreviation ErrConnClosed :: error where "ErrConnClosed \<equiv> Sentinel ''ErrConnClosed''"
abbreviation ErrNotACapability :: error where "ErrNotACapability \<equiv> Sentinel ''ErrNotACapability''"
abbreviation ErrCapTablePopulated :: error where
  "ErrCapTablePopulated \<equiv> Sentinel ''ErrCapTablePopulated''"
abbreviation ExcClosed :: error where "ExcClosed \<equiv> Sentinel ''ExcClosed''"

fun exc_TypeOf :: "error \<Rightarrow> exc_Type" where
  "exc_TypeOf (Exc t _ _) = t"
| "exc_TypeOf _ = Failed"

text \<open>
  Modelled from the spec: the \<^verbatim>\<open>rpcerr\<close> annotator is declared outside src/.  Section 7
  of the spec: each error carries a kind and a reason string and is annotated with a
  source trail as it propagates.  \<open>Failedf\<close> makes a \<open>failed\<close> error (with the wrapped
  cause, if the format has one), \<open>Annotate\<close> keeps the kind and records the cause.
\<close>

definition Failedf :: "string \<Rightarrow> error option \<Rightarrow> error" where
  "Failedf fmt cause = Exc Failed fmt cause"

definition Unimplementedf :: "string \<Rightarrow> error" where
  "Unimplementedf fmt = Exc Unimplemented fmt None"

definition Annotate :: "error \<Rightarrow> string \<Rightarrow> error" where
  "Annotate e msg = Exc (exc_TypeOf e) msg (Some e)"

text \<open>\<^verbatim>\<open>errors.Is(err, context.Canceled)\<close>: the chain of wrapped errors is searched.\<close>

fun is_Canceled :: "error \<Rightarrow> bool" where
  "is_Canceled Canceled = True"
| "is_Canceled (Errorf _ (Some e)) = is_Canceled e"
| "is_Canceled (Exc _ _ (Some e)) = is_Canceled e"
| "is_Canceled _ = False"

subsection \<open>Pointers and clients\<close>

text \<open>
  What the connection reads of a \<^verbatim>\<open>capnp.Ptr\<close>: whether it is an interface pointer and,
  if so, the index into the capability table that it carries.  \<open>Interface p\<close> is
  \<^verbatim>\<open>p.Interface()\<close>: \<open>Some i\<close> when the result \<^verbatim>\<open>IsValid()\<close>, with \<open>i\<close> its
  \<^verbatim>\<open>Capability()\<close>.
\<close>

type_synonym pipelineOp = "16 word"

datatype ptr = NullPtr | StructPtr "ptr list" | ListPtr | InterfacePtr u32

fun Interface :: "ptr \<Rightarrow> u32 option" where
  "Interface (InterfacePtr i) = Some i"
| "Interface _ = None"

text \<open>
  A \<^verbatim>\<open>capnp.Client\<close> by the dynamic type of its brand, which is all that the connection
  asks of it: the zero client, an \<^verbatim>\<open>*importClient\<close> (its connection and import id), a
  \<^verbatim>\<open>capnp.PipelineClient\<close> (with the question that \<^verbatim>\<open>getAnswerQuestion\<close> finds for its
  answer, if it finds one, and the path), an error client, a client of any other brand
  (a local server, say), and the wrapper that \<^verbatim>\<open>Conn.embargo\<close> returns.
\<close>

datatype client =
    NullClient
  | ImportClient connID importID
  | PipelineClient "(connID \<times> questionID) option" "pipelineOp list"
  | ErrorClient error
  | LocalClient nat
  | EmbargoClient embargoID client

subsection \<open>Messages\<close>

text \<open>
  The structs of the RPC schema.  An accessor that can fail (\<^verbatim>\<open>recv.Call()\<close>,
  \<^verbatim>\<open>payload.Content()\<close>, ...) is a field of type \<open>error + _\<close>: \<open>Inl\<close> is the error that
  reading it returns.
\<close>

datatype Op = Op_noop | Op_getPointerField "16 word" | Op_other "16 word"

record PromisedAnswer =
  pa_questionId :: u32
  pa_transform :: "error + Op list"

datatype MessageTarget =
    MT_importedCap u32
  | MT_promisedAnswer "error + PromisedAnswer"
  | MT_other "16 word"

datatype CapDescriptor =
    CD_none
  | CD_senderHosted u32
  | CD_senderPromise u32
  | CD_receiverHosted u32
  | CD_receiverAnswer "error + PromisedAnswer"
  | CD_other "16 word"

text \<open>
  \<open>NullPayload\<close> is a payload that is not \<^verbatim>\<open>IsValid()\<close>; the others give what
  \<^verbatim>\<open>Content()\<close> and \<^verbatim>\<open>CapTable()\<close> return.
\<close>

datatype Payload =
    NullPayload
  | Payload "error + ptr" "error + CapDescriptor list"

record Exception =
  exc_type :: exc_Type
  exc_reason :: "error + string"

datatype SendResultsTo = SRT_caller | SRT_yourself | SRT_thirdParty

text \<open>
  \<open>Message_CapTable\<close> is \<^verbatim>\<open>Message().CapTable\<close> of the message that holds the struct:
  \<open>None\<close> is the \<^verbatim>\<open>nil\<close> slice that \<^verbatim>\<open>RecvMessage\<close> leaves.
\<close>

record Call =
  call_questionId :: u32
  call_target :: "error + MessageTarget"
  call_interfaceId :: "64 word"
  call_methodId :: "16 word"
  call_params :: "error + Payload"
  call_sendResultsTo :: SendResultsTo
  call_Message_CapTable :: "client list option"

datatype Return_union =
    Ret_results "error + Payload"
  | Ret_exception "error + Exception"
  | Ret_other "16 word"

record Return =
  ret_answerId :: u32
  ret_which :: Return_union
  ret_Message_CapTable :: "client list option"

record Finish =
  fin_questionId :: u32
  fin_releaseResultCaps :: bool

record Release =
  rel_id :: u32
  rel_referenceCount :: u32

datatype Disembargo_context =
    DC_senderLoopback u32
  | DC_receiverLoopback u32
  | DC_other "16 word"

record Disembargo =
  d_target :: "error + MessageTarget"
  d_context :: Disembargo_context

datatype message =
    M_unimplemented "error + message"
  | M_abort "error + Exception"
  | M_bootstrap "error + u32"
  | M_call "error + Call"
  | M_return "error + Return"
  | M_finish "error + Finish"
  | M_release "error + Release"
  | M_disembargo "error + Disembargo"
  | M_other "16 word"

text \<open>
  What the modelled functions write into an outbound message.  An abort carries the
  type of the error and the error whose text is its reason.
\<close>

datatype outMessage =
    Out_unimplemented message
  | Out_abort exc_Type error
  | Out_finish Finish
  | Out_disembargo Disembargo

text \<open>What \<^verbatim>\<open>Transport.RecvMessage\<close> returns; the release function is a number.\<close>

record incomingMessage =
  im_Message :: message
  im_Release :: nat
  im_err :: "error option"

subsection \<open>Table entries\<close>

datatype questionFlag = finished | finishSent

text \<open>
  A \<^verbatim>\<open>*question\<close>.  \<open>finishMsgSend\<close> is the channel of that name: \<open>True\<close> once it
  has been closed.  \<open>q_resolved\<close> is what \<^verbatim>\<open>q.p\<close> has been resolved with, if it has;
  \<open>q_release\<close> the release function of the Return message that the question keeps.
\<close>

record question =
  q_c :: connID
  q_id :: questionID
  q_flags :: "questionFlag set"
  called :: "pipelineOp list list"
  bootstrapPromise :: bool
  q_release :: "nat option"
  finishMsgSend :: bool
  q_resolved :: "(ptr \<times> client list option \<times> error option) option"

datatype answerFlag = returnSent | finishReceived | resultsReady | releaseResultCapsFlag

record results =
  r_content :: "error + ptr"
  r_CapTable :: "client list"

text \<open>
  An \<^verbatim>\<open>*answer\<close>: \<open>ans_cancel\<close>, \<open>ans_promise\<close> and \<open>ans_msgReleaser\<close> say whether the
  field of that name is non-nil.
\<close>

record answer =
  ans_flags :: "answerFlag set"
  ans_cancel :: bool
  ans_promise :: bool
  ans_msgReleaser :: bool
  ans_err :: "error option"
  ans_results :: results

record expent =
  exp_client :: client
  wireRefs :: nat

record impent =
  imp_wireRefs :: nat

record embargo =
  emb_client :: client

text \<open>
  Modelled from the spec: \<^verbatim>\<open>idgen\<close> is declared outside src/.  Section 2 of the spec:
  monotonic id assignment with free-list reuse.  A freed id is handed out again before
  the counter advances.
\<close>

record idgen =
  gen_i :: u32
  free :: "u32 list"

definition idgen_next :: "idgen \<Rightarrow> u32 \<times> idgen" where
  "idgen_next g =
     (if free g \<noteq> [] then (last (free g), g\<lparr>free := butlast (free g)\<rparr>)
      else (gen_i g, g\<lparr>gen_i := gen_i g + 1\<rparr>))"

definition idgen_remove :: "idgen \<Rightarrow> u32 \<Rightarrow> idgen" where
  "idgen_remove g i = g\<lparr>free := free g @ [i]\<rparr>"

subsection \<open>Effects\<close>

text \<open>
  What a step does beyond changing the tables is appended to the connection's trace, in
  the order of the calls.  A release function of an inbound message is told apart by the
  number of the message.
\<close>

datatype event =
    ReportError error
  | BgCancel
  | CancelAnswer answerID
  | ReleaseMsg nat
  | ReleaseOutMsg nat
  | ClientRelease client
  | ClearExportID client
  | Lift embargo
  | MsgReleaserDecr answerID
  | QuestionReject "nat option" error
  | Resolve nat ptr "error option"
  | BootstrapFulfill nat
  | ReleaseClients nat
  | TransportSend outMessage
  | TransportClose
  | CloseDone

subsection \<open>The send queue\<close>

text \<open>
  An \<^verbatim>\<open>asyncSend\<close>.  Its \<^verbatim>\<open>send\<close> closure either fails with the error of the allocation
  or of the builder, or hands the message to the transport; \<open>as_release\<close> is the number
  of the outbound message to release (\<open>None\<close> for the empty function).  The \<^verbatim>\<open>onSent\<close>
  closures of the source, each with what it captures:
\<close>

datatype onSent =
    OnSent_callUnimplemented
  | OnSent_sendDisembargo
  | OnSent_finish nat questionID
  | OnSent_receiverLoopback nat client
  | OnSent_disembargoUnimplemented nat

datatype send_fn = SendFail error | SendMsg outMessage

record asyncSend =
  as_send :: send_fn
  as_onSent :: "onSent option"
  as_release :: "nat option"

text \<open>
  What \<^verbatim>\<open>parseReturn\<close> returns, and the goroutines that \<^verbatim>\<open>handleReturn\<close> starts: one waits
  for \<^verbatim>\<open>finishMsgSend\<close>, the other resolves the promise and sends the Disembargoes and
  the Finish.
\<close>

record senderLoopback =
  sl_id :: embargoID
  sl_question :: questionID
  sl_transform :: "pipelineOp list"

record parsedReturn =
  pr_result :: ptr
  pr_CapTable :: "client list option"
  pr_disembargoes :: "senderLoopback list"
  pr_err :: "error option"
  parseFailed :: bool
  pr_unimplemented :: bool

datatype task =
    AwaitFinish nat questionID
  | ResolveReturn nat questionID parsedReturn nat

subsection \<open>The connection\<close>

text \<open>
  The fields of \<^verbatim>\<open>Conn\<close> and of \<^verbatim>\<open>Conn.lk\<close> that the modelled functions touch
  (\<open>c_imports\<close> is \<^verbatim>\<open>lk.imports\<close>).  The questions table holds pointers: \<open>qheap\<close> maps
  an address to the question stored there, so that a question taken out of the table
  can still be changed by the goroutines that hold it.  \<open>answers\<close> is an association
  list (Go does not fix the order in which a map is traversed; the model traverses in
  list order).  \<open>bgcanceled\<close> says that \<^verbatim>\<open>bgctx\<close> has been canceled, \<open>closed\<close> that the
  channel \<^verbatim>\<open>c.closed\<close> has been closed, \<open>allocs\<close> counts the calls of
  \<^verbatim>\<open>transport.NewMessage\<close>, \<open>spawned\<close> holds the goroutines that handlers have started.
\<close>

record conn =
  self :: connID
  bootstrap :: client
  closing :: bool
  bgcanceled :: bool
  questions :: "nat option list"
  qheap :: "nat \<Rightarrow> question"
  questionID :: idgen
  answers :: "(answerID \<times> answer) list"
  exports :: "expent option list"
  exportID :: idgen
  c_imports :: "importID \<Rightarrow> impent option"
  embargoes :: "embargo option list"
  embargoID :: idgen
  sendq :: "asyncSend list"
  spawned :: "task list"
  allocs :: nat
  transport_closed :: bool
  closed :: bool
  trace :: "event list"

definition emit :: "event list \<Rightarrow> conn \<Rightarrow> conn" where
  "emit es c = c\<lparr>trace := trace c @ es\<rparr>"

text \<open>
  What the modelled functions take from outside src/.  \<open>Transform\<close> is
  \<^verbatim>\<open>capnp.Transform\<close> of the serialization layer, with its two results.  \<open>NewMessage n\<close>
  is the error of the \<open>n\<close>-th call of \<^verbatim>\<open>transport.NewMessage\<close> on this connection,
  \<open>BuildErr n\<close> the error that filling that message runs into, and \<open>SendErr n\<close> the
  error of sending it (each \<open>None\<close> when the call succeeds); \<open>Close_err\<close> is the error
  of \<^verbatim>\<open>transport.Close\<close>; \<open>abortTimedOut\<close> says that the abort timeout of \<^verbatim>\<open>shutdown\<close>
  fires before the tables are released.  \<open>Release_returns k cl\<close> says whether
  \<^verbatim>\<open>cl.Release()\<close> returns to a goroutine that holds the mutex \<^verbatim>\<open>lk\<close> of connection
  \<open>k\<close>: the release of the last reference to a client shuts the client down, and a
  shutdown that takes that mutex waits for it forever.  The others are the handlers and
  helpers whose bodies are not under src/, or, for \<open>handleCall_dispatch\<close>, the part of
  \<^verbatim>\<open>handleCall\<close> after the check of the results destination.
\<close>

record ext =
  Transform :: "ptr \<Rightarrow> pipelineOp list \<Rightarrow> ptr \<times> error option"
  NewMessage :: "nat \<Rightarrow> error option"
  BuildErr :: "nat \<Rightarrow> error option"
  SendErr :: "nat \<Rightarrow> error option"
  Close_err :: "error option"
  abortTimedOut :: bool
  Release_returns :: "connID \<Rightarrow> client \<Rightarrow> bool"
  handleBootstrap :: "conn \<Rightarrow> answerID \<Rightarrow> error option \<times> conn"
  handleCall_dispatch :: "conn \<Rightarrow> Call \<Rightarrow> nat \<Rightarrow> error option \<times> conn"
  handleRelease :: "conn \<Rightarrow> exportID \<Rightarrow> u32 \<Rightarrow> error option \<times> conn"
  destroy :: "conn \<Rightarrow> answerID \<Rightarrow> error option \<times> conn"

subsection \<open>Sending\<close>

text \<open>
  \<^verbatim>\<open>c.er.ReportError(err)\<close> ignores a nil error (the comment in \<^verbatim>\<open>NewConn\<close> says so).
\<close>

definition report :: "error option \<Rightarrow> conn \<Rightarrow> conn" where
  "report err c = (case err of None \<Rightarrow> c | Some e \<Rightarrow> emit [ReportError e] c)"

text \<open>
  \<^verbatim>\<open>sendMessage\<close>.  A builder is given by the effects it has when it runs (a deferred
  release of the inbound message) and the message it writes when no call of the
  serialization layer fails.  The \<^verbatim>\<open>send\<close> closure checks the context when it runs, which
  is in \<^verbatim>\<open>asyncSend.Send\<close>, not here.
\<close>

definition sendMessage :: "ext \<Rightarrow> conn \<Rightarrow> event list \<times> outMessage \<Rightarrow> onSent option \<Rightarrow> conn" where
  "sendMessage X c build onSent =
     (let n = allocs c; c1 = c\<lparr>allocs := n + 1\<rparr> in
      case NewMessage X n of
        Some err \<Rightarrow>
          c1\<lparr>sendq := sendq c1 @
             [\<lparr>as_send = SendFail (Failedf ''create message: %w'' (Some err)),
               as_onSent = onSent, as_release = None\<rparr>]\<rparr>
      | None \<Rightarrow>
          (let c2 = emit (fst build) c1;
               send = (case BuildErr X n of
                         Some err \<Rightarrow> SendFail (Failedf ''build message: %w'' (Some err))
                       | None \<Rightarrow> SendMsg (snd build))
           in c2\<lparr>sendq := sendq c2 @
                [\<lparr>as_send = send, as_onSent = onSent, as_release = Some n\<rparr>]\<rparr>))"

text \<open>
  The \<^verbatim>\<open>onSent\<close> closures.  \<^verbatim>\<open>rpcerr.Annotate\<close> of a nil error is taken to be nil, so
  that a send without error reports nothing.
\<close>

fun run_onSent :: "conn \<Rightarrow> onSent \<Rightarrow> error option \<Rightarrow> conn" where
  "run_onSent c OnSent_callUnimplemented err =
     report (map_option (\<lambda>e. Annotate e ''incoming call: send unimplemented'') err) c"
| "run_onSent c OnSent_sendDisembargo err =
     report (map_option (\<lambda>e. Errorf ''incoming return: send disembargo: %w'' (Some e)) err) c"
| "run_onSent c (OnSent_finish a qid) err =
     (let c1 = (case err of
                  Some e \<Rightarrow>
                    emit [ReportError
                      (Errorf ''incoming return: send finish: build message: %w'' (Some e))] c
                | None \<Rightarrow>
                    c\<lparr>qheap := (qheap c)
                         (a := (qheap c a)\<lparr>q_flags := insert finishSent (q_flags (qheap c a))\<rparr>),
                      questionID := idgen_remove (questionID c) qid\<rparr>)
      in c1\<lparr>qheap := (qheap c1)(a := (qheap c1 a)\<lparr>finishMsgSend := True\<rparr>)\<rparr>)"
| "run_onSent c (OnSent_receiverLoopback rel cl) err =
     emit [ClientRelease cl, ReleaseMsg rel]
       (report (map_option (\<lambda>e. Annotate e ''incoming disembargo: send receiver loopback'') err) c)"
| "run_onSent c (OnSent_disembargoUnimplemented rel) err =
     emit [ReleaseMsg rel]
       (report (map_option (\<lambda>e. Annotate e ''incoming disembargo: send unimplemented'') err) c)"

text \<open>\<^verbatim>\<open>asyncSend.Abort\<close>: the callback gets \<^verbatim>\<open>rpcerr.Disconnected(err)\<close>.\<close>

definition asyncSend_Abort :: "conn \<Rightarrow> asyncSend \<Rightarrow> error \<Rightarrow> conn" where
  "asyncSend_Abort c as err =
     (let c1 = (case as_onSent as of
                  None \<Rightarrow> c
                | Some f \<Rightarrow> run_onSent c f (Some (Exc Disconnected '''' (Some err))))
      in case as_release as of None \<Rightarrow> c1 | Some n \<Rightarrow> emit [ReleaseOutMsg n] c1)"

text \<open>
  \<^verbatim>\<open>asyncSend.Send\<close>, which the send goroutine calls on each job: the \<^verbatim>\<open>send\<close> closure
  returns the error of the context if it has been canceled (the handlers pass \<^verbatim>\<open>bgctx\<close>),
  else the error it was built with, else it hands the message to the transport.
\<close>

definition asyncSend_Send :: "ext \<Rightarrow> conn \<Rightarrow> asyncSend \<Rightarrow> conn" where
  "asyncSend_Send X c as =
     (let (err, c1) =
            (if bgcanceled c then (Some Canceled, c)
             else case as_send as of
                    SendFail e \<Rightarrow> (Some e, c)
                  | SendMsg m \<Rightarrow>
                      (case as_release as of None \<Rightarrow> None | Some n \<Rightarrow> SendErr X n,
                       emit [TransportSend m] c));
          c2 = (case as_onSent as of
                  None \<Rightarrow> c1
                | Some f \<Rightarrow>
                    run_onSent c1 f (map_option (\<lambda>e. Failedf ''send message: %w'' (Some e)) err))
      in case as_release as of None \<Rightarrow> c2 | Some n \<Rightarrow> emit [ReleaseOutMsg n] c2)"

lemma sendq_emit [simp]: "sendq (emit es c) = sendq c"
  by (simp add: emit_def)

lemma sendq_report [simp]: "sendq (report e c) = sendq c"
  by (simp add: report_def split: option.splits)

lemma sendq_run_onSent [simp]: "sendq (run_onSent c f err) = sendq c"
  by (cases f) (simp_all add: Let_def split: option.splits)

lemma sendq_asyncSend_Abort [simp]: "sendq (asyncSend_Abort c as err) = sendq c"
  by (simp add: asyncSend_Abort_def Let_def split: option.splits)

text \<open>\<^verbatim>\<open>drainQueue\<close>: \<^verbatim>\<open>TryRecv\<close> takes the jobs off the queue one by one, oldest first.\<close>

function drainQueue :: "conn \<Rightarrow> conn" where
  "drainQueue c =
     (case sendq c of
        [] \<Rightarrow> c
      | pending # rest \<Rightarrow> drainQueue (asyncSend_Abort (c\<lparr>sendq := rest\<rparr>) pending ErrConnClosed))"
  by pat_completeness auto
termination
  by (relation "measure (\<lambda>c. length (sendq c))") auto

declare drainQueue.simps [simp del]

subsection \<open>Shutdown\<close>

text \<open>The events that hand an abort message to the transport.\<close>

fun is_abort_sent :: "event \<Rightarrow> bool" where
  "is_abort_sent (TransportSend (Out_abort t e)) = True"
| "is_abort_sent _ = False"


text \<open>\<^verbatim>\<open>cancelTasks\<close>: every answer with a cancel function has it called.\<close>

definition cancelTasks :: "conn \<Rightarrow> conn" where
  "cancelTasks c =
     emit (map (\<lambda>(i, a). CancelAnswer i) (filter (\<lambda>(i, a). ans_cancel a) (answers c))) c"

text \<open>
  The four loops of \<^verbatim>\<open>release\<close>; each gives what it adds to the release list.
  \<^verbatim>\<open>releaseExports\<close> clears the export id in the client's metadata at once; this is
  \<open>clearExportIDs\<close>.
\<close>

definition clearExportIDs :: "expent option list \<Rightarrow> event list" where
  "clearExportIDs es = concat (map (\<lambda>e. case e of None \<Rightarrow> [] | Some x \<Rightarrow> [ClearExportID (exp_client x)]) es)"

definition releaseExports :: "expent option list \<Rightarrow> event list" where
  "releaseExports es = concat (map (\<lambda>e. case e of None \<Rightarrow> [] | Some x \<Rightarrow> [ClientRelease (exp_client x)]) es)"

definition liftEmbargoes :: "embargo option list \<Rightarrow> event list" where
  "liftEmbargoes es = concat (map (\<lambda>e. case e of None \<Rightarrow> [] | Some x \<Rightarrow> [Lift x]) es)"

definition releaseAnswers :: "(answerID \<times> answer) list \<Rightarrow> event list" where
  "releaseAnswers as = map (\<lambda>(i, a). MsgReleaserDecr i) (filter (\<lambda>(i, a). ans_msgReleaser a) as)"

definition releaseQuestions :: "(nat \<Rightarrow> question) \<Rightarrow> nat option list \<Rightarrow> event list" where
  "releaseQuestions h qs =
     concat (map (\<lambda>q.
       let canceled = (case q of None \<Rightarrow> False | Some a \<Rightarrow> finished \<in> q_flags (h a))
       in if \<not> canceled then [QuestionReject q ExcClosed] else []) qs)"

text \<open>
  \<^verbatim>\<open>release\<close>, with the \<^verbatim>\<open>rl.Release()\<close> that follows it in \<^verbatim>\<open>shutdown\<close>: the five tables
  become nil, and the release list runs in the order in which it was filled.
\<close>

definition release :: "conn \<Rightarrow> conn" where
  "release c =
     (let exports0 = exports c; embargoes0 = embargoes c;
          answers0 = answers c; questions0 = questions c;
          c1 = c\<lparr>c_imports := (\<lambda>_. None), exports := [], embargoes := [],
                 questions := [], answers := []\<rparr>;
          rl1 = [ClientRelease (bootstrap c1)];
          c2 = c1\<lparr>bootstrap := NullClient\<rparr>;
          c3 = emit (clearExportIDs exports0) c2;
          rl = rl1 @ releaseExports exports0 @ liftEmbargoes embargoes0
               @ releaseAnswers answers0 @ releaseQuestions (qheap c3) questions0
      in emit rl c3)"

text \<open>\<^verbatim>\<open>abort\<close>: allocation and build errors are ignored; the message is released.\<close>

definition abort :: "ext \<Rightarrow> conn \<Rightarrow> error option \<Rightarrow> conn" where
  "abort X c abortErr =
     (case abortErr of
        None \<Rightarrow> c
      | Some e \<Rightarrow>
          (let n = allocs c; c1 = c\<lparr>allocs := n + 1\<rparr> in
           case NewMessage X n of
             Some _ \<Rightarrow> c1
           | None \<Rightarrow>
               (case BuildErr X n of
                  Some _ \<Rightarrow> emit [ReleaseOutMsg n] c1
                | None \<Rightarrow> emit [TransportSend (Out_abort (exc_TypeOf e) e), ReleaseOutMsg n] c1)))"

text \<open>
  The goroutine of \<^verbatim>\<open>shutdown\<close> closes the transport and then \<^verbatim>\<open>c.closed\<close>.  It runs
  when \<^verbatim>\<open>readyForClose\<close> is closed or, if the timeout fires first, at some earlier
  point, which the model takes to be right after the locked section.
\<close>

definition closeTransport :: "conn \<Rightarrow> conn" where
  "closeTransport c = emit [TransportClose, CloseDone] (c\<lparr>transport_closed := True, closed := True\<rparr>)"

text \<open>
  \<^verbatim>\<open>shutdown\<close>.  The result is \<open>None\<close> when the call blocks in \<^verbatim>\<open><-c.closed\<close> because
  nothing has closed the channel.  \<^verbatim>\<open>c.tasks.Wait()\<close> is a wait for goroutines outside
  this model and leaves the state as it is.
\<close>

definition shutdown :: "ext \<Rightarrow> conn \<Rightarrow> error option \<Rightarrow> (error option \<times> conn) option" where
  "shutdown X c abortErr =
     (let alreadyClosing = closing c;
          c1 = (if \<not> alreadyClosing
                then cancelTasks (emit [BgCancel] (c\<lparr>closing := True, bgcanceled := True\<rparr>))
                else c)
      in if \<not> alreadyClosing then
           (let c2 = (if abortTimedOut X then closeTransport c1 else c1);
                c3 = drainQueue c2;
                c4 = release c3;
                c5 = abort X c4 abortErr;
                c6 = (if abortTimedOut X then c5 else closeTransport c5);
                err = map_option (\<lambda>e. Failedf ''close transport: %w'' (Some e)) (Close_err X)
            in if closed c6 then Some (err, c6) else None)
         else if closed c1 then Some (None, c1) else None)"

definition Close :: "ext \<Rightarrow> conn \<Rightarrow> (error option \<times> conn) option" where
  "Close X c = shutdown X c (Some (Exc Failed '''' (Some ErrConnClosed)))"

text \<open>
  The goroutine of \<^verbatim>\<open>NewConn\<close> that waits for the background tasks: \<open>err\<close> is what
  \<^verbatim>\<open>g.Wait()\<close> returns, the first error that a task returned.  \<^verbatim>\<open>backgroundTask\<close> turns
  a nil result of the task into \<^verbatim>\<open>context.Canceled\<close>.
\<close>

definition backgroundTask :: "error option \<Rightarrow> error" where
  "backgroundTask r = (case r of None \<Rightarrow> Canceled | Some e \<Rightarrow> e)"

definition monitor :: "ext \<Rightarrow> conn \<Rightarrow> error \<Rightarrow> conn option" where
  "monitor X c err0 =
     (let err = (if is_Canceled err0 then None else Some err0);
          c1 = report err c
      in case shutdown X c1 err of
           None \<Rightarrow> None
         | Some (e, c2) \<Rightarrow> Some (report e c2))"

subsection \<open>Receiving capabilities\<close>

text \<open>\<^verbatim>\<open>parseTransform\<close>: the loop appends to \<open>ops\<close> and returns at the first unknown element.\<close>

fun parseTransform_loop :: "pipelineOp list \<Rightarrow> Op list \<Rightarrow> error + pipelineOp list" where
  "parseTransform_loop ops [] = Inr ops"
| "parseTransform_loop ops (Op_noop # l) = parseTransform_loop ops l"
| "parseTransform_loop ops (Op_getPointerField f # l) = parseTransform_loop (ops @ [f]) l"
| "parseTransform_loop ops (Op_other w # l) =
     Inl (Failedf ''transform element %d: unknown type %v'' None)"

definition parseTransform :: "Op list \<Rightarrow> error + pipelineOp list" where
  "parseTransform l = parseTransform_loop [] l"

datatype Which = W_importedCap | W_promisedAnswer | W_other "16 word"

record parsedMessageTarget =
  pt_which :: Which
  pt_importedCap :: exportID
  pt_promisedAnswer :: answerID
  pt_transform :: "pipelineOp list"

definition parseMessageTarget :: "MessageTarget \<Rightarrow> error + parsedMessageTarget" where
  "parseMessageTarget tgt =
     (case tgt of
        MT_importedCap i \<Rightarrow>
          Inr \<lparr>pt_which = W_importedCap, pt_importedCap = i, pt_promisedAnswer = 0, pt_transform = []\<rparr>
      | MT_promisedAnswer r \<Rightarrow>
          (case r of
             Inl err \<Rightarrow> Inl (Failedf ''read target answer: %w'' (Some err))
           | Inr pa \<Rightarrow>
               (case pa_transform pa of
                  Inl err \<Rightarrow> Inl (Failedf ''read target transform: %w'' (Some err))
                | Inr opList \<Rightarrow>
                    (case parseTransform opList of
                       Inl err \<Rightarrow> Inl (Annotate err ''read target transform'')
                     | Inr tr \<Rightarrow>
                         Inr \<lparr>pt_which = W_promisedAnswer, pt_importedCap = 0,
                              pt_promisedAnswer = pa_questionId pa, pt_transform = tr\<rparr>)))
      | MT_other w \<Rightarrow> Inl (Unimplementedf ''unknown message target %v''))"

text \<open>
  Modelled from the spec: \<^verbatim>\<open>findExport\<close> and \<^verbatim>\<open>findEmbargo\<close> are declared outside
  src/.  Sections 4.8 and 4.9 of the spec: look up the export by id; find the embargo
  entry by id.  An id beyond the table, or a slot that has been cleared, finds nothing.
\<close>

definition findExport :: "conn \<Rightarrow> exportID \<Rightarrow> expent option" where
  "findExport c i = (if unat i < length (exports c) then exports c ! unat i else None)"

definition findEmbargo :: "conn \<Rightarrow> embargoID \<Rightarrow> embargo option" where
  "findEmbargo c i = (if unat i < length (embargoes c) then embargoes c ! unat i else None)"

text \<open>
  Modelled from the spec: \<^verbatim>\<open>addImport\<close> is declared outside src/.  Sections 3 and 4.9 of
  the spec: materialize (or refcount-bump) an import by id; both yield a proxy client
  backed by the import entry of this connection.
\<close>

definition addImport :: "conn \<Rightarrow> importID \<Rightarrow> client \<times> conn" where
  "addImport c i =
     (ImportClient (self c) i,
      c\<lparr>c_imports := (c_imports c)
           (i := Some (case c_imports c i of
                         None \<Rightarrow> \<lparr>imp_wireRefs = 1\<rparr>
                       | Some e \<Rightarrow> e\<lparr>imp_wireRefs := imp_wireRefs e + 1\<rparr>))\<rparr>)"

text \<open>
  Modelled from the spec: \<^verbatim>\<open>Conn.embargo\<close> is declared outside src/.  Sections 3 and
  4.6 of the spec: allocate a new embargo id, enter the embargo in the table under it,
  and return a wrapping client that queues outbound calls until the embargo is lifted.
\<close>

definition embargo :: "conn \<Rightarrow> client \<Rightarrow> embargoID \<times> client \<times> conn" where
  "embargo c cl =
     (let (i, g) = idgen_next (embargoID c);
          e = \<lparr>emb_client = cl\<rparr>;
          tab = (if unat i < length (embargoes c) then (embargoes c)[unat i := Some e]
                 else embargoes c @ [Some e])
      in (i, EmbargoClient i cl, c\<lparr>embargoID := g, embargoes := tab\<rparr>))"

text \<open>
  \<^verbatim>\<open>iface.Client()\<close> of the serialization layer: the entry of the message's capability
  table at the pointer's index, the zero client beyond the table (\<^verbatim>\<open>handleCall\<close> spells
  the same lookup out for the target of a pipelined call).
\<close>

definition Interface_Client :: "client list \<Rightarrow> u32 \<Rightarrow> client" where
  "Interface_Client tab i = (if unat i < length tab then tab ! unat i else NullClient)"

text \<open>
  \<^verbatim>\<open>recvCapReceiverAnswer\<close>.  The client of a future of \<^verbatim>\<open>ans.promise\<close> is a pipeline client
  whose answer is no question.
\<close>

definition recvCapReceiverAnswer :: "ext \<Rightarrow> answer \<Rightarrow> pipelineOp list \<Rightarrow> client" where
  "recvCapReceiverAnswer X ans transform =
     (if ans_promise ans then PipelineClient None transform
      else case ans_err ans of
        Some e \<Rightarrow> ErrorClient e
      | None \<Rightarrow>
          (case r_content (ans_results ans) of
             Inl err \<Rightarrow> ErrorClient (Failedf ''except.Failed reading results: %v'' None)
           | Inr p \<Rightarrow>
               (case Transform X p transform of
                  (_, Some err) \<Rightarrow> ErrorClient (Failedf ''Applying transform to results: %v'' None)
                | (p', None) \<Rightarrow>
                    (case Interface p' of
                       None \<Rightarrow> ErrorClient (Failedf ''Result is not a capability'' None)
                     | Some i \<Rightarrow> Interface_Client (r_CapTable (ans_results ans)) i))))"

text \<open>\<^verbatim>\<open>recvCap\<close>: the client, the error and the connection after it.\<close>

definition recvCap :: "ext \<Rightarrow> conn \<Rightarrow> CapDescriptor \<Rightarrow> client \<times> error option \<times> conn" where
  "recvCap X c d =
     (case d of
        CD_none \<Rightarrow> (NullClient, None, c)
      | CD_senderHosted i \<Rightarrow> (let (cl, c') = addImport c i in (cl, None, c'))
      | CD_senderPromise i \<Rightarrow> (let (cl, c') = addImport c i in (cl, None, c'))
      | CD_receiverHosted i \<Rightarrow>
          (case findExport c i of
             None \<Rightarrow> (NullClient, Some (Failedf ''receive capability: invalid export %d'' None), c)
           | Some ent \<Rightarrow> (exp_client ent, None, c))
      | CD_receiverAnswer r \<Rightarrow>
          (case r of
             Inl err \<Rightarrow>
               (NullClient,
                Some (Failedf ''receive capability: reading promised answer: %v'' None), c)
           | Inr promisedAnswer \<Rightarrow>
               (case pa_transform promisedAnswer of
                  Inl err \<Rightarrow>
                    (NullClient,
                     Some (Failedf ''receive capability: reading promised answer transform: %v'' None),
                     c)
                | Inr rawTransform \<Rightarrow>
                    (case parseTransform rawTransform of
                       Inl err \<Rightarrow> (NullClient, Some (Failedf ''read target transform: %v'' None), c)
                     | Inr transform \<Rightarrow>
                         (case map_of (answers c) (pa_questionId promisedAnswer) of
                            None \<Rightarrow>
                              (NullClient,
                               Some (Failedf ''receive capability: no such question id: %v'' None), c)
                          | Some ans \<Rightarrow> (recvCapReceiverAnswer X ans transform, None, c)))))
      | CD_other w \<Rightarrow> (ErrorClient (Failedf ''unknown CapDescriptor type %v'' None), None, c))"

text \<open>
  \<^verbatim>\<open>isLocalClient\<close>: the zero client first, then the type switch on the brand, in the
  order of the source.  A pipeline client whose answer has no question falls through
  to the last line.
\<close>

fun isLocalClient :: "conn \<Rightarrow> client \<Rightarrow> bool" where
  "isLocalClient c NullClient = False"
| "isLocalClient c (ImportClient k i) = (k \<noteq> self c)"
| "isLocalClient c (PipelineClient (Some (k, q)) tr) = (k \<noteq> self c)"
| "isLocalClient c (ErrorClient e) = False"
| "isLocalClient c _ = True"

text \<open>
  The loop of \<^verbatim>\<open>recvPayload\<close> over the descriptors that are left; \<open>mtab\<close> holds the
  clients made so far, so the index of the next one is its length.  On an error these
  clients are released, with \<^verbatim>\<open>c.lk\<close> held: the result is \<open>None\<close> when one of these calls
  of \<^verbatim>\<open>Release\<close> does not return, and then the loop does not return either.
\<close>

fun recvCaps ::
  "ext \<Rightarrow> conn \<Rightarrow> CapDescriptor list \<Rightarrow> client list \<Rightarrow> nat set
     \<Rightarrow> ((error + client list \<times> nat set) \<times> conn) option" where
  "recvCaps X c [] mtab locals = Some (Inr (mtab, locals), c)"
| "recvCaps X c (d # ds) mtab locals =
     (case recvCap X c d of
        (cl, Some err, c') \<Rightarrow>
          if list_all (Release_returns X (self c')) mtab
          then Some (Inl (Annotate err ''read payload: capability %d''),
                     emit (map ClientRelease mtab) c')
          else None
      | (cl, None, c') \<Rightarrow>
          recvCaps X c' ds (mtab @ [cl])
            (if isLocalClient c' cl then insert (length mtab) locals else locals))"

text \<open>
  \<^verbatim>\<open>recvPayload\<close>: the content, the set of local indices, the error, the capability
  table of the message and the connection after it; \<open>None\<close> when the function does not
  return.
\<close>

definition recvPayload ::
  "ext \<Rightarrow> conn \<Rightarrow> Payload \<Rightarrow> client list option
     \<Rightarrow> (ptr \<times> nat set \<times> error option \<times> client list option \<times> conn) option" where
  "recvPayload X c payload tab =
     (case payload of
        NullPayload \<Rightarrow> Some (NullPtr, {}, None, tab, c)
      | Payload cont ptab \<Rightarrow>
          if tab \<noteq> None then
            Some (NullPtr, {}, Some (Failedf ''read payload: %w'' (Some ErrCapTablePopulated)), tab, c)
          else
            (case cont of
               Inl err \<Rightarrow> Some (NullPtr, {}, Some (Failedf ''read payload: %w'' (Some err)), tab, c)
             | Inr p \<Rightarrow>
                 (case ptab of
                    Inl err \<Rightarrow>
                      Some (p, {}, None, tab,
                            emit [ReportError (Errorf ''read payload: capability table: %w'' (Some err))] c)
                  | Inr ds \<Rightarrow>
                      (case recvCaps X c ds [] {} of
                         None \<Rightarrow> None
                       | Some (Inl err, c') \<Rightarrow> Some (NullPtr, {}, Some err, tab, c')
                       | Some (Inr (mtab, locals), c') \<Rightarrow> Some (p, locals, None, Some mtab, c')))))"

subsection \<open>Incoming Return\<close>

text \<open>
  The loop of \<^verbatim>\<open>parseReturn\<close> over the \<open>called\<close> paths.  Its state is the connection,
  the capability table \<open>mtab\<close> of the message, \<open>embargoCaps\<close> and \<open>disembargoes\<close>.  The
  error of \<^verbatim>\<open>capnp.Transform\<close> is dropped, as in the source.
\<close>

fun parseReturn_loop ::
  "ext \<Rightarrow> ptr \<Rightarrow> nat set \<Rightarrow> questionID \<Rightarrow> pipelineOp list list
     \<Rightarrow> conn \<times> client list \<times> nat set \<times> senderLoopback list
     \<Rightarrow> conn \<times> client list \<times> nat set \<times> senderLoopback list" where
  "parseReturn_loop X content locals qid [] st = st"
| "parseReturn_loop X content locals qid (xform # rest) (c, mtab, embargoCaps, disembargoes) =
     (case Interface (fst (Transform X content xform)) of
        None \<Rightarrow> parseReturn_loop X content locals qid rest (c, mtab, embargoCaps, disembargoes)
      | Some i \<Rightarrow>
          if unat i \<ge> length mtab \<or> unat i \<notin> locals \<or> unat i \<in> embargoCaps
          then parseReturn_loop X content locals qid rest (c, mtab, embargoCaps, disembargoes)
          else
            (let (eid, cl, c') = embargo c (mtab ! unat i)
             in parseReturn_loop X content locals qid rest
                  (c', mtab[unat i := cl], insert (unat i) embargoCaps,
                   disembargoes @ [\<lparr>sl_id = eid, sl_question = qid, sl_transform = xform\<rparr>])))"

definition parseReturn_failed :: "error \<Rightarrow> bool \<Rightarrow> client list option \<Rightarrow> parsedReturn" where
  "parseReturn_failed err unimpl tab =
     \<lparr>pr_result = NullPtr, pr_CapTable = tab, pr_disembargoes = [], pr_err = Some err,
      parseFailed = True, pr_unimplemented = unimpl\<rparr>"

text \<open>
  \<^verbatim>\<open>parseReturn\<close>.  \<open>pr_CapTable\<close> is the capability table of the Return's message
  when the function returns; a nil table has length 0 and stays nil.  The result is
  \<open>None\<close> when \<^verbatim>\<open>recvPayload\<close> does not return.
\<close>

definition parseReturn ::
  "ext \<Rightarrow> conn \<Rightarrow> Return \<Rightarrow> pipelineOp list list \<Rightarrow> (parsedReturn \<times> conn) option" where
  "parseReturn X c ret called_paths =
     (case ret_which ret of
        Ret_results r \<Rightarrow>
          (case r of
             Inl err \<Rightarrow>
               Some (parseReturn_failed (Failedf ''parse return: %w'' (Some err)) False
                       (ret_Message_CapTable ret), c)
           | Inr payload \<Rightarrow>
               (case recvPayload X c payload (ret_Message_CapTable ret) of
                  None \<Rightarrow> None
                | Some (content, locals, Some err, tab, c1) \<Rightarrow>
                    Some (parseReturn_failed (Failedf ''parse return: %w'' (Some err)) False tab, c1)
                | Some (content, locals, None, tab, c1) \<Rightarrow>
                    (let (c2, mtab, embargoCaps, disembargoes) =
                           parseReturn_loop X content locals (ret_answerId ret) called_paths
                             (c1, case tab of None \<Rightarrow> [] | Some t \<Rightarrow> t, {}, [])
                     in Some (\<lparr>pr_result = content,
                               pr_CapTable = (case tab of None \<Rightarrow> None | Some t \<Rightarrow> Some mtab),
                               pr_disembargoes = disembargoes, pr_err = None,
                               parseFailed = False, pr_unimplemented = False\<rparr>, c2))))
      | Ret_exception r \<Rightarrow>
          (case r of
             Inl err \<Rightarrow>
               Some (parseReturn_failed (Failedf ''parse return: %w'' (Some err)) False
                       (ret_Message_CapTable ret), c)
           | Inr e \<Rightarrow>
               (case exc_reason e of
                  Inl err \<Rightarrow>
                    Some (parseReturn_failed (Failedf ''parse return: %w'' (Some err)) False
                            (ret_Message_CapTable ret), c)
                | Inr reason \<Rightarrow>
                    Some (\<lparr>pr_result = NullPtr, pr_CapTable = ret_Message_CapTable ret,
                           pr_disembargoes = [], pr_err = Some (Exc (exc_type e) reason None),
                           parseFailed = False, pr_unimplemented = False\<rparr>, c)))
      | Ret_other w \<Rightarrow>
          Some (parseReturn_failed (Failedf ''parse return: unhandled type %v'' None) True
                  (ret_Message_CapTable ret), c))"

text \<open>
  \<^verbatim>\<open>handleReturn\<close>.  \<open>rel\<close> is the release function of the message; the length
  of the table is compared as a \<^verbatim>\<open>uint32\<close>.  The two
  goroutines that the function starts are entered in \<open>spawned\<close>; \<open>run_task\<close> below is
  what they do.  The result is \<open>None\<close> when \<^verbatim>\<open>parseReturn\<close>, which is called with
  \<^verbatim>\<open>c.lk\<close> held, does not return.
\<close>

definition handleReturn :: "ext \<Rightarrow> conn \<Rightarrow> Return \<Rightarrow> nat \<Rightarrow> (error option \<times> conn) option" where
  "handleReturn X c ret rel =
     (let qid = ret_answerId ret in
      if unat qid \<ge> length (questions c) mod 2 ^ 32 then
        Some (Some (Failedf ''incoming return: question %d does not exist'' None),
              emit [ReleaseMsg rel] c)
      else
        (let q0 = questions c ! unat qid;
             c1 = c\<lparr>questions := (questions c)[unat qid := None]\<rparr>
         in case q0 of
              None \<Rightarrow>
                Some (Some (Failedf ''incoming return: question %d does not exist'' None),
                      emit [ReleaseMsg rel] c1)
            | Some a \<Rightarrow>
                (let q = qheap c1 a;
                     canceled = (finished \<in> q_flags q);
                     c2 = c1\<lparr>qheap := (qheap c1)(a := q\<lparr>q_flags := insert finished (q_flags q)\<rparr>)\<rparr>
                 in if canceled then
                      (if finishMsgSend q then
                         Some (None,
                               emit [ReleaseMsg rel]
                                 (if finishSent \<in> q_flags q
                                  then c2\<lparr>questionID := idgen_remove (questionID c2) qid\<rparr>
                                  else c2))
                       else
                         Some (None,
                               (emit [ReleaseMsg rel] c2)\<lparr>spawned := spawned c2 @ [AwaitFinish a qid]\<rparr>))
                    else
                      (case parseReturn X c2 ret (called q) of
                         None \<Rightarrow> None
                       | Some (pr, c3) \<Rightarrow>
                           (let c4 = (if parseFailed pr
                                      then report (map_option (\<lambda>e. Annotate e ''incoming return'') (pr_err pr)) c3
                                      else c3);
                                c5 = (if \<not> bootstrapPromise q \<and> pr_err pr = None
                                      then c4\<lparr>qheap := (qheap c4)(a := (qheap c4 a)\<lparr>q_release := Some rel\<rparr>)\<rparr>
                                      else c4)
                            in Some (None, c5\<lparr>spawned := spawned c5 @ [ResolveReturn a qid pr rel]\<rparr>))))))"

text \<open>
  Modelled from the spec: \<^verbatim>\<open>senderLoopback.buildDisembargo\<close> is declared outside src/.
  Section 4.6 of the spec: a senderLoopback Disembargo referencing the (question,
  transform).
\<close>

definition buildDisembargo :: "senderLoopback \<Rightarrow> event list \<times> outMessage" where
  "buildDisembargo s =
     ([], Out_disembargo
        \<lparr>d_target = Inr (MT_promisedAnswer (Inr
            \<lparr>pa_questionId = sl_question s,
             pa_transform = Inr (map Op_getPointerField (sl_transform s))\<rparr>)),
         d_context = DC_senderLoopback (sl_id s)\<rparr>)"

text \<open>
  The goroutines of \<^verbatim>\<open>handleReturn\<close>.  The one that waits for \<^verbatim>\<open>finishMsgSend\<close> cannot
  run (\<open>None\<close>) before the channel is closed.
\<close>

fun run_task :: "ext \<Rightarrow> conn \<Rightarrow> task \<Rightarrow> conn option" where
  "run_task X c (AwaitFinish a qid) =
     (if finishMsgSend (qheap c a) then
        Some (if finishSent \<in> q_flags (qheap c a)
              then c\<lparr>questionID := idgen_remove (questionID c) qid\<rparr> else c)
      else None)"
| "run_task X c (ResolveReturn a qid pr rel) =
     (let q = qheap c a;
          c1 = emit [Resolve a (pr_result pr) (pr_err pr)]
                 (c\<lparr>qheap := (qheap c)
                      (a := q\<lparr>q_resolved := Some (pr_result pr, pr_CapTable pr, pr_err pr)\<rparr>)\<rparr>);
          c2 = (if bootstrapPromise q then emit [BootstrapFulfill a, ReleaseClients a, ReleaseMsg rel] c1
                else if pr_err pr \<noteq> None then emit [ReleaseMsg rel] c1
                else c1);
          c3 = foldl (\<lambda>c s. sendMessage X c (buildDisembargo s) (Some OnSent_sendDisembargo))
                 c2 (pr_disembargoes pr)
      in Some (sendMessage X c3
                 ([], Out_finish \<lparr>fin_questionId = qid, fin_releaseResultCaps = False\<rparr>)
                 (Some (OnSent_finish a qid))))"

subsection \<open>Incoming Finish, Disembargo and Call\<close>

text \<open>\<^verbatim>\<open>handleFinish\<close>; \<^verbatim>\<open>ans.destroy\<close> is not under src/ and comes with \<open>X\<close>.\<close>

definition handleFinish :: "ext \<Rightarrow> conn \<Rightarrow> answerID \<Rightarrow> bool \<Rightarrow> error option \<times> conn" where
  "handleFinish X c i releaseResultCaps =
     (case map_of (answers c) i of
        None \<Rightarrow> (Some (Failedf ''incoming finish: unknown answer ID %d'' None), c)
      | Some ans \<Rightarrow>
          if finishReceived \<in> ans_flags ans then
            (Some (Failedf ''incoming finish: answer ID %d already received finish'' None), c)
          else
            (let ans1 = ans\<lparr>ans_flags := insert finishReceived (ans_flags ans)\<rparr>;
                 ans2 = (if releaseResultCaps
                         then ans1\<lparr>ans_flags := insert releaseResultCapsFlag (ans_flags ans1)\<rparr>
                         else ans1);
                 c1 = c\<lparr>answers := AList.update i ans2 (answers c)\<rparr>;
                 c2 = (if ans_cancel ans2 then emit [CancelAnswer i] c1 else c1)
             in if returnSent \<notin> ans_flags ans2 then (None, c2)
                else
                  (case destroy X c2 i of
                     (Some err, c3) \<Rightarrow>
                       (Some (Annotate err ''incoming finish: release result caps''), c3)
                   | (None, c3) \<Rightarrow> (None, c3))))"

text \<open>
  The locked section of the \<^verbatim>\<open>senderLoopback\<close> case of \<^verbatim>\<open>handleDisembargo\<close>: the error
  it sets, or the client it finds.
\<close>

definition senderLoopback_client :: "ext \<Rightarrow> conn \<Rightarrow> parsedMessageTarget \<Rightarrow> error + client" where
  "senderLoopback_client X c tgt =
     (if pt_which tgt \<noteq> W_promisedAnswer then
        Inl (Failedf ''incoming disembargo: sender loopback: target is not a promised answer'' None)
      else
        (case map_of (answers c) (pt_promisedAnswer tgt) of
           None \<Rightarrow> Inl (Failedf ''incoming disembargo: unknown answer ID %d'' None)
         | Some ans \<Rightarrow>
             if returnSent \<notin> ans_flags ans then
               Inl (Failedf ''incoming disembargo: answer ID %d has not sent return'' None)
             else if ans_err ans \<noteq> None then
               Inl (Failedf ''incoming disembargo: answer ID %d returned exception'' None)
             else
               (case r_content (ans_results ans) of
                  Inl err \<Rightarrow> Inl (Failedf ''incoming disembargo: read answer ID %d: %v'' None)
                | Inr content \<Rightarrow>
                    (case Transform X content (pt_transform tgt) of
                       (p, Some err) \<Rightarrow>
                         Inl (Failedf ''incoming disembargo: read answer ID %d: %v'' None)
                     | (p, None) \<Rightarrow>
                         (case Interface p of
                            None \<Rightarrow>
                              Inl (Failedf ''incoming disembargo: sender loopback requested on a capability that is not an import'' None)
                          | Some i \<Rightarrow>
                              if unat i \<ge> length (r_CapTable (ans_results ans)) then
                                Inl (Failedf ''incoming disembargo: sender loopback requested on a capability that is not an import'' None)
                              else Inr (Interface_Client (r_CapTable (ans_results ans)) i))))))"

definition handleDisembargo :: "ext \<Rightarrow> conn \<Rightarrow> Disembargo \<Rightarrow> nat \<Rightarrow> error option \<times> conn" where
  "handleDisembargo X c d rel =
     (case d_target d of
        Inl err \<Rightarrow>
          (Some (Failedf ''incoming disembargo: read target: %w'' (Some err)), emit [ReleaseMsg rel] c)
      | Inr dtarget \<Rightarrow>
          (case parseMessageTarget dtarget of
             Inl err \<Rightarrow> (Some (Annotate err ''incoming disembargo''), emit [ReleaseMsg rel] c)
           | Inr tgt \<Rightarrow>
               (case d_context d of
                  DC_receiverLoopback i \<Rightarrow>
                    (case findEmbargo c i of
                       None \<Rightarrow>
                         (Some (Failedf ''incoming disembargo: received sender loopback for unknown ID %d'' None),
                          emit [ReleaseMsg rel] c)
                     | Some e \<Rightarrow>
                         (None,
                          emit [Lift e, ReleaseMsg rel]
                            (c\<lparr>embargoes := (embargoes c)[unat i := None],
                               embargoID := idgen_remove (embargoID c) i\<rparr>)))
                | DC_senderLoopback i \<Rightarrow>
                    (case senderLoopback_client X c tgt of
                       Inl err \<Rightarrow> (Some err, emit [ReleaseMsg rel] c)
                     | Inr cl \<Rightarrow>
                         (case cl of
                            ImportClient k imp_id \<Rightarrow>
                              if k \<noteq> self c then
                                (Some (Failedf ''incoming disembargo: sender loopback requested on a capability that is not an import'' None),
                                 emit [ClientRelease cl] c)
                              else
                                (None,
                                 sendMessage X c
                                   ([], Out_disembargo
                                          \<lparr>d_target = Inr (MT_importedCap imp_id),
                                           d_context = DC_receiverLoopback i\<rparr>)
                                   (Some (OnSent_receiverLoopback rel cl)))
                          | _ \<Rightarrow>
                              (Some (Failedf ''incoming disembargo: sender loopback requested on a capability that is not an import'' None),
                               emit [ClientRelease cl] c)))
                | DC_other w \<Rightarrow>
                    (None,
                     sendMessage X
                       (emit [ReportError (Errorf ''incoming disembargo: context %v not implemented'' None)] c)
                       ([], Out_unimplemented (M_disembargo (Inr d)))
                       (Some (OnSent_disembargoUnimplemented rel))))))"

text \<open>
  \<^verbatim>\<open>handleCall\<close>: the check of the results destination; what follows it in the source
  is \<open>handleCall_dispatch X\<close>.
\<close>

definition handleCall :: "ext \<Rightarrow> conn \<Rightarrow> Call \<Rightarrow> nat \<Rightarrow> error option \<times> conn" where
  "handleCall X c call releaseCall =
     (if call_sendResultsTo call \<noteq> SRT_caller then
        (None,
         sendMessage X
           (emit [ReportError (Errorf ''incoming call: results destination is not caller'' None)] c)
           ([ReleaseMsg releaseCall], Out_unimplemented (M_call (Inr call)))
           (Some OnSent_callUnimplemented))
      else handleCall_dispatch X c call releaseCall)"

subsection \<open>The receive loop\<close>

text \<open>
  One element per turn of the loop of \<^verbatim>\<open>receive\<close>: what its \<^verbatim>\<open>select\<close> yields, the end of
  the context or the next result of \<^verbatim>\<open>RecvMessage\<close>.  The loop returns (\<open>Returned\<close>, with
  the error), or is left waiting in the \<^verbatim>\<open>select\<close> when the list is used up, or is
  \<open>Blocked\<close> in a handler that does not return; the connection that comes with \<open>Blocked\<close>
  is the one that the message found.
\<close>

datatype select_result = CtxDone | Incoming incomingMessage

datatype receive_result = Returned "error option" | Waiting | Blocked

fun receive :: "ext \<Rightarrow> conn \<Rightarrow> select_result list \<Rightarrow> receive_result \<times> conn" where
  "receive X c [] = (Waiting, c)"
| "receive X c (CtxDone # rest) = (Returned (Some Canceled), c)"
| "receive X c (Incoming im # rest) =
     (let rel = im_Release im in
      case im_err im of
        Some err \<Rightarrow> (Returned (Some err), c)
      | None \<Rightarrow>
          (case im_Message im of
             M_unimplemented _ \<Rightarrow> receive X c rest
           | M_abort r \<Rightarrow>
               (case r of
                  Inl err \<Rightarrow>
                    (Returned None,
                     emit [ReportError (Errorf ''read abort: %w'' (Some err)), ReleaseMsg rel] c)
                | Inr e \<Rightarrow>
                    (case exc_reason e of
                       Inl err \<Rightarrow>
                         (Returned None,
                          emit [ReportError (Errorf ''read abort: reason: %w'' (Some err)),
                                ReleaseMsg rel] c)
                     | Inr reason \<Rightarrow>
                         (Returned None,
                          emit [ReportError (Exc (exc_type e) (''remote abort: '' @ reason) None),
                                ReleaseMsg rel] c)))
           | M_bootstrap r \<Rightarrow>
               (case r of
                  Inl err \<Rightarrow>
                    receive X (emit [ReleaseMsg rel, ReportError (Errorf ''read bootstrap: %w'' (Some err))] c) rest
                | Inr qid \<Rightarrow>
                    (case handleBootstrap X (emit [ReleaseMsg rel] c) qid of
                       (Some err, c') \<Rightarrow> (Returned (Some err), c')
                     | (None, c') \<Rightarrow> receive X c' rest))
           | M_call r \<Rightarrow>
               (case r of
                  Inl err \<Rightarrow>
                    receive X (emit [ReleaseMsg rel, ReportError (Errorf ''read call: %w'' (Some err))] c) rest
                | Inr call \<Rightarrow>
                    (case handleCall X c call rel of
                       (Some err, c') \<Rightarrow> (Returned (Some err), c')
                     | (None, c') \<Rightarrow> receive X c' rest))
           | M_return r \<Rightarrow>
               (case r of
                  Inl err \<Rightarrow>
                    receive X (emit [ReleaseMsg rel, ReportError (Errorf ''read return: %w'' (Some err))] c) rest
                | Inr ret \<Rightarrow>
                    (case handleReturn X c ret rel of
                       None \<Rightarrow> (Blocked, c)
                     | Some (Some err, c') \<Rightarrow> (Returned (Some err), c')
                     | Some (None, c') \<Rightarrow> receive X c' rest))
           | M_finish r \<Rightarrow>
               (case r of
                  Inl err \<Rightarrow>
                    receive X (emit [ReleaseMsg rel, ReportError (Errorf ''read finish: %w'' (Some err))] c) rest
                | Inr fin \<Rightarrow>
                    (case handleFinish X (emit [ReleaseMsg rel] c) (fin_questionId fin)
                            (fin_releaseResultCaps fin) of
                       (Some err, c') \<Rightarrow> (Returned (Some err), c')
                     | (None, c') \<Rightarrow> receive X c' rest))
           | M_release r \<Rightarrow>
               (case r of
                  Inl err \<Rightarrow>
                    receive X (emit [ReleaseMsg rel, ReportError (Errorf ''read release: %w'' (Some err))] c) rest
                | Inr rl \<Rightarrow>
                    (case handleRelease X (emit [ReleaseMsg rel] c) (rel_id rl) (rel_referenceCount rl) of
                       (Some err, c') \<Rightarrow> (Returned (Some err), c')
                     | (None, c') \<Rightarrow> receive X c' rest))
           | M_disembargo r \<Rightarrow>
               (case r of
                  Inl err \<Rightarrow>
                    receive X (emit [ReleaseMsg rel, ReportError (Errorf ''read disembargo: %w'' (Some err))] c) rest
                | Inr d \<Rightarrow>
                    (case handleDisembargo X c d rel of
                       (Some err, c') \<Rightarrow> (Returned (Some err), c')
                     | (None, c') \<Rightarrow> receive X c' rest))
           | M_other w \<Rightarrow>
               receive X
                 (sendMessage X
                    (emit [ReportError (Errorf ''unknown message type %v from remote'' None)] c)
                    ([ReleaseMsg rel], Out_unimplemented (im_Message im)) None)
                 rest))"

subsection \<open>A new connection\<close>

text \<open>
  The tables as \<^verbatim>\<open>NewConn\<close> leaves them.  An address at which no question has been
  stored reads as \<open>no_question\<close>.
\<close>

definition no_question :: question where
  "no_question =
     \<lparr>q_c = 0, q_id = 0, q_flags = {}, called = [], bootstrapPromise = False,
      q_release = None, finishMsgSend = False, q_resolved = None\<rparr>"

definition NewConn :: "connID \<Rightarrow> client \<Rightarrow> conn" where
  "NewConn k boot =
     \<lparr>self = k, bootstrap = boot, closing = False, bgcanceled = False,
      questions = [], qheap = (\<lambda>_. no_question), questionID = \<lparr>gen_i = 0, free = []\<rparr>,
      answers = [], exports = [], exportID = \<lparr>gen_i = 0, free = []\<rparr>,
      c_imports = (\<lambda>_. None), embargoes = [], embargoID = \<lparr>gen_i = 0, free = []\<rparr>,
      sendq = [], spawned = [], allocs = 0, transport_closed = False, closed = False,
      trace = []\<rparr>"

subsection \<open>The conditions that the properties speak of\<close>

text \<open>
  Section 4.3 of the spec names three kinds of client that are not local: an import on
  this connection, a pipeline client for a question on this connection, an error
  client.
\<close>

fun is_import_of :: "conn \<Rightarrow> client \<Rightarrow> bool" where
  "is_import_of c (ImportClient k i) = (k = self c)"
| "is_import_of c _ = False"

fun is_pipeline_of :: "conn \<Rightarrow> client \<Rightarrow> bool" where
  "is_pipeline_of c (PipelineClient (Some (k, q)) tr) = (k = self c)"
| "is_pipeline_of c _ = False"

fun is_error_client :: "client \<Rightarrow> bool" where
  "is_error_client (ErrorClient e) = True"
| "is_error_client _ = False"

text \<open>
  Section 4.8 of the spec, on a Disembargo with \<open>senderLoopback\<close> context: the target
  must be a promisedAnswer whose answer has sent its Return without an error, the
  transform must reach an interface slot of the capability table, and that slot must
  be an import on this connection.  \<open>senderLoopback_echoes X c d imp\<close> says that \<open>d\<close>
  meets this on connection \<open>c\<close>, with \<open>imp\<close> the id of the import.
\<close>

definition senderLoopback_echoes :: "ext \<Rightarrow> conn \<Rightarrow> Disembargo \<Rightarrow> importID \<Rightarrow> bool" where
  "senderLoopback_echoes X c d imp \<longleftrightarrow>
     (\<exists>pa ops tr ans cont p k.
        d_target d = Inr (MT_promisedAnswer (Inr pa))
        \<and> pa_transform pa = Inr ops \<and> parseTransform ops = Inr tr
        \<and> map_of (answers c) (pa_questionId pa) = Some ans
        \<and> returnSent \<in> ans_flags ans \<and> ans_err ans = None
        \<and> r_content (ans_results ans) = Inr cont
        \<and> Transform X cont tr = (p, None) \<and> Interface p = Some k
        \<and> unat k < length (r_CapTable (ans_results ans))
        \<and> r_CapTable (ans_results ans) ! unat k = ImportClient (self c) imp)"

text \<open>
  The capability that a path reaches in the content of a Return: \<^verbatim>\<open>capnp.Transform\<close>, then
  \<^verbatim>\<open>Interface()\<close>; \<open>None\<close> when the result is not a valid interface.
\<close>

definition reaches :: "ext \<Rightarrow> ptr \<Rightarrow> pipelineOp list \<Rightarrow> u32 option" where
  "reaches X cont xform = Interface (fst (Transform X cont xform))"

text \<open>
  An id generator and its table agree when the counter is the length of the table and
  the free list holds distinct ids of empty slots.
\<close>

definition idgen_ok :: "idgen \<Rightarrow> 'a option list \<Rightarrow> bool" where
  "idgen_ok g tab \<longleftrightarrow>
     unat (gen_i g) = length tab \<and> distinct (free g)
     \<and> (\<forall>i\<in>set (free g). unat i < length tab \<and> tab ! unat i = None)"

subsection \<open>Connections and messages for the examples\<close>

text \<open>
  An environment for the examples: \<open>follow\<close> walks the pointer fields of structs, the
  transport always has a message, and the handlers that are not modelled do nothing.
  No import of the examples has another holder, so that its release shuts it down,
  which takes the mutex of its connection.
\<close>

fun follow :: "ptr \<Rightarrow> pipelineOp list \<Rightarrow> ptr \<times> error option" where
  "follow p [] = (p, None)"
| "follow (StructPtr fs) (f # ops) =
     (if unat f < length fs then follow (fs ! unat f) ops else (NullPtr, None))"
| "follow p (f # ops) = (NullPtr, Some (External 0))"

definition ext0 :: ext where
  "ext0 =
     \<lparr>Transform = follow, NewMessage = (\<lambda>_. None), BuildErr = (\<lambda>_. None),
      SendErr = (\<lambda>_. None), Close_err = None,
      abortTimedOut = False,
      Release_returns = (\<lambda>k cl. case cl of ImportClient k' i \<Rightarrow> k' \<noteq> k | _ \<Rightarrow> True),
      handleBootstrap = (\<lambda>c i. (None, c)),
      handleCall_dispatch = (\<lambda>c call rel. (None, c)),
      handleRelease = (\<lambda>c i n. (None, c)),
      destroy = (\<lambda>c i. (None, c\<lparr>answers := AList.delete i (answers c)\<rparr>))\<rparr>"

text \<open>
  A connection with question 0 outstanding, against which the path \<open>[0]\<close> has been
  pipelined; the question lives at address 0.
\<close>

definition conn_q :: conn where
  "conn_q =
     (NewConn 0 NullClient)
       \<lparr>questions := [Some 0],
        qheap := (\<lambda>_. no_question)(0 := no_question\<lparr>called := [[0]]\<rparr>),
        questionID := \<lparr>gen_i = 1, free = []\<rparr>\<rparr>"

text \<open>
  A connection in use: answer 4 is running (it has a cancel function), one capability
  is exported, question 0 is outstanding and its Finish is still in the send queue.
\<close>

definition conn_busy :: conn where
  "conn_busy =
     (NewConn 0 (LocalClient 9))
       \<lparr>questions := [Some 0],
        questionID := \<lparr>gen_i = 1, free = []\<rparr>,
        answers := [(4, \<lparr>ans_flags = {}, ans_cancel = True, ans_promise = True,
                         ans_msgReleaser = True, ans_err = None,
                         ans_results = \<lparr>r_content = Inr NullPtr, r_CapTable = []\<rparr>\<rparr>)],
        exports := [Some \<lparr>exp_client = LocalClient 5, wireRefs = 1\<rparr>],
        exportID := \<lparr>gen_i = 1, free = []\<rparr>,
        sendq := [\<lparr>as_send = SendMsg (Out_finish \<lparr>fin_questionId = 0, fin_releaseResultCaps = False\<rparr>),
                   as_onSent = Some (OnSent_finish 0 0), as_release = Some 0\<rparr>],
        allocs := 1\<rparr>"

text \<open>A call that asks for its results to be sent to the callee itself.\<close>

definition call_yourself :: Call where
  "call_yourself =
     \<lparr>call_questionId = 3, call_target = Inr (MT_importedCap 0), call_interfaceId = 1,
      call_methodId = 2, call_params = Inr NullPayload, call_sendResultsTo = SRT_yourself,
      call_Message_CapTable = None\<rparr>"

text \<open>The same connection after answer 4 has received its Finish.\<close>

definition conn_finished :: conn where
  "conn_finished =
     conn_busy\<lparr>answers := [(4, \<lparr>ans_flags = {finishReceived}, ans_cancel = True, ans_promise = True,
                         ans_msgReleaser = True, ans_err = None,
                         ans_results = \<lparr>r_content = Inr NullPtr, r_CapTable = []\<rparr>\<rparr>)]\<rparr>"

text \<open>
  A connection whose answer 2 has sent its Return: the results are a struct whose
  pointer field 0 is the capability at index 0 of the table, an import of this
  connection with id 11; pointer field 1 is the capability at index 1, a local server.
  \<open>disembargo_on f\<close> is a \<open>senderLoopback\<close> Disembargo with embargo id 77 that targets
  field \<open>f\<close> of that answer.
\<close>

definition conn_returned :: conn where
  "conn_returned =
     (NewConn 0 NullClient)
       \<lparr>answers := [(2, \<lparr>ans_flags = {returnSent, resultsReady}, ans_cancel = False,
                         ans_promise = False, ans_msgReleaser = True, ans_err = None,
                         ans_results =
                           \<lparr>r_content = Inr (StructPtr [InterfacePtr 0, InterfacePtr 1]),
                            r_CapTable = [ImportClient 0 11, LocalClient 5]\<rparr>\<rparr>)],
        c_imports := (\<lambda>_. None)(11 := Some \<lparr>imp_wireRefs = 1\<rparr>)\<rparr>"

definition disembargo_on :: "16 word \<Rightarrow> Disembargo" where
  "disembargo_on f =
     \<lparr>d_target = Inr (MT_promisedAnswer (Inr
         \<lparr>pa_questionId = 2, pa_transform = Inr [Op_getPointerField f]\<rparr>)),
      d_context = DC_senderLoopback 77\<rparr>"

text \<open>
  The connection with question 0 outstanding exports a local server under export id 0.
  The Return for the question carries a struct whose pointer fields 0 and 1 both are
  capability 0, that export coming back, and whose field 2 is capability 1, hosted by the
  sender.
\<close>

definition conn_exporting :: conn where
  "conn_exporting =
     conn_q\<lparr>exports := [Some \<lparr>exp_client = LocalClient 5, wireRefs = 1\<rparr>],
            exportID := \<lparr>gen_i = 1, free = []\<rparr>\<rparr>"

definition payload_echo :: Payload where
  "payload_echo =
     Payload (Inr (StructPtr [InterfacePtr 0, InterfacePtr 0, InterfacePtr 1]))
             (Inr [CD_receiverHosted 0, CD_senderHosted 4])"

definition ret_echo :: Return where
  "ret_echo =
     \<lparr>ret_answerId = 0, ret_which = Ret_results (Inr payload_echo), ret_Message_CapTable = None\<rparr>"

text \<open>
  The connection after question 0 has been canceled: the question is flagged as
  finished, and its Finish has not been flushed yet.  In \<open>conn_flushed\<close> the Finish has
  been sent.
\<close>

definition conn_canceled :: conn where
  "conn_canceled = conn_q\<lparr>qheap := (qheap conn_q)(0 := (qheap conn_q 0)\<lparr>q_flags := {finished}\<rparr>)\<rparr>"

definition conn_flushed :: conn where
  "conn_flushed =
     conn_q\<lparr>qheap := (qheap conn_q)
              (0 := (qheap conn_q 0)\<lparr>q_flags := {finished, finishSent}, finishMsgSend := True\<rparr>)\<rparr>"

text \<open>
  Two Returns for question 0 of the exporting connection whose payloads name export 7,
  which is not in the table: in the first the descriptor before it is export 0 coming
  back, in the second it is a capability hosted by the sender, which becomes an import
  of the connection.
\<close>

definition ret_missing :: Return where
  "ret_missing =
     \<lparr>ret_answerId = 0,
      ret_which = Ret_results (Inr (Payload (Inr NullPtr)
                    (Inr [CD_receiverHosted 0, CD_receiverHosted 7]))),
      ret_Message_CapTable = None\<rparr>"

definition ret_import_missing :: Return where
  "ret_import_missing =
     \<lparr>ret_answerId = 0,
      ret_which = Ret_results (Inr (Payload (Inr NullPtr)
                    (Inr [CD_senderHosted 3, CD_receiverHosted 7]))),
      ret_Message_CapTable = None\<rparr>"

section \<open>Properties of the method table\<close>

lemma Search_loop_cong:
  "(\<And>h. i \<le> h \<Longrightarrow> h < j \<Longrightarrow> f h = g h) \<Longrightarrow> Search_loop f i j = Search_loop g i j"
proof (induction f i j rule: Search_loop.induct)
  case (1 f i j)
  show ?case
  proof (cases "i < j")
    case False
    then show ?thesis by (simp add: Search_loop.simps)
  next
    case True
    define h where "h = (i + j) div 2"
    have hb: "i \<le> h" "h < j" using True by (auto simp: h_def)
    have fg: "f h = g h" using "1.prems" hb by blast
    show ?thesis
    proof (cases "f h")
      case fh: True
      have "Search_loop f i h = Search_loop g i h"
        using "1.IH"(2)[of h] True fh "1.prems" hb by (simp add: h_def)
      then show ?thesis using fh fg True
        by (subst Search_loop.simps, subst (2) Search_loop.simps) (simp add: h_def Let_def)
    next
      case nfh: False
      have "Search_loop f (h + 1) j = Search_loop g (h + 1) j"
        using "1.IH"(1)[of h] True nfh "1.prems" hb by (simp add: h_def)
      then show ?thesis using nfh fg True
        by (subst Search_loop.simps, subst (2) Search_loop.simps) (simp add: h_def Let_def)
    qed
  qed
qed

lemma Search_loop_spec:
  assumes "i \<le> j" "j \<le> n"
    and mono: "\<And>a b. a \<le> b \<Longrightarrow> b < n \<Longrightarrow> f a \<Longrightarrow> f b"
    and "\<forall>k<i. \<not> f k" "j < n \<longrightarrow> f j"
  shows "i \<le> Search_loop f i j \<and> Search_loop f i j \<le> j \<and>
         (\<forall>k<Search_loop f i j. \<not> f k) \<and> (Search_loop f i j < n \<longrightarrow> f (Search_loop f i j))"
  using assms
proof (induction f i j rule: Search_loop.induct)
  case (1 f i j)
  show ?case
  proof (cases "i < j")
    case False
    then have "Search_loop f i j = i" by (simp add: Search_loop.simps)
    moreover have "i = j" using False "1.prems"(1) by simp
    ultimately show ?thesis using "1.prems" by simp
  next
    case True
    define h where "h = (i + j) div 2"
    have hb: "i \<le> h" "h < j" "h < n" using True "1.prems"(2) by (auto simp: h_def)
    show ?thesis
    proof (cases "f h")
      case fh: True
      have eq: "Search_loop f i j = Search_loop f i h"
        using True fh by (subst Search_loop.simps) (simp add: h_def Let_def)
      have "i \<le> Search_loop f i h \<and> Search_loop f i h \<le> h \<and>
         (\<forall>k<Search_loop f i h. \<not> f k) \<and> (Search_loop f i h < n \<longrightarrow> f (Search_loop f i h))"
        using "1.IH"(2)[of h] True fh hb "1.prems" by (simp add: h_def)
      then show ?thesis using eq hb by auto
    next
      case nfh: False
      have eq: "Search_loop f i j = Search_loop f (h + 1) j"
        using True nfh by (subst Search_loop.simps) (simp add: h_def Let_def)
      have below: "\<forall>k<h + 1. \<not> f k"
      proof (intro allI impI)
        fix k assume "k < h + 1"
        then have "k \<le> h" by simp
        then show "\<not> f k" using "1.prems"(3)[of k h] hb nfh by blast
      qed
      have "h + 1 \<le> Search_loop f (h + 1) j \<and> Search_loop f (h + 1) j \<le> j \<and>
         (\<forall>k<Search_loop f (h + 1) j. \<not> f k) \<and>
         (Search_loop f (h + 1) j < n \<longrightarrow> f (Search_loop f (h + 1) j))"
        using "1.IH"(1)[of h] True nfh hb "1.prems" below by (simp add: h_def)
      then show ?thesis using eq hb by auto
    qed
  qed
qed

lemma Search_spec:
  assumes mono: "\<And>a b. a \<le> b \<Longrightarrow> b < n \<Longrightarrow> f a \<Longrightarrow> f b"
  shows "Search n f \<le> n \<and> (\<forall>k<Search n f. \<not> f k) \<and> (Search n f < n \<longrightarrow> f (Search n f))"
  using Search_loop_spec[of 0 n n f] mono unfolding Search_def by auto

lemma find_pred_mono:
  assumes "sorted_wrt (\<lambda>a b. \<not> Less b a) sm" "a \<le> b" "b < length sm" "find_pred sm mid a"
  shows "find_pred sm mid b"
proof (cases "a = b")
  case True then show ?thesis using assms by simp
next
  case False
  then have "a < b" using assms by simp
  then have "\<not> Less (sm ! b) (sm ! a)"
    using assms(1,3) by (simp add: sorted_wrt_iff_nth_less)
  then show ?thesis using assms(4)
    by (auto simp: find_pred_def Less_def Let_def split: if_splits)
qed

lemma find_None:
  assumes "sorted_wrt (\<lambda>a b. \<not> Less b a) sm" "sortedMethods_find sm mid = None" "m \<in> set sm"
  shows "\<not> (InterfaceID m = InterfaceID mid \<and> MethodID m = MethodID mid)"
proof
  assume eq: "InterfaceID m = InterfaceID mid \<and> MethodID m = MethodID mid"
  obtain k where k: "k < length sm" "sm ! k = m" using assms(3) by (auto simp: in_set_conv_nth)
  define r where "r = Search (length sm) (find_pred sm mid)"
  have spec: "r \<le> length sm" "\<forall>k<r. \<not> find_pred sm mid k" "r < length sm \<longrightarrow> find_pred sm mid r"
    using Search_spec[of "length sm" "find_pred sm mid"] find_pred_mono[OF assms(1)]
    unfolding r_def by blast+
  have pk: "find_pred sm mid k" using k eq by (simp add: find_pred_def)
  then have "r \<le> k" using spec(2) by (meson not_le)
  then have rl: "r < length sm" using k by simp
  then have pr: "find_pred sm mid r" using spec(3) by simp
  have "r = k \<or> r < k" using \<open>r \<le> k\<close> by auto
  moreover have "r < k \<Longrightarrow> \<not> Less (sm ! k) (sm ! r)"
    using assms(1) k(1) by (simp add: sorted_wrt_iff_nth_less)
  moreover have "\<not> Less (sm ! k) (sm ! k)" by (simp add: Less_def)
  ultimately have "\<not> Less (sm ! k) (sm ! r)" by blast
  then have "InterfaceID (sm ! r) = InterfaceID mid \<and> MethodID (sm ! r) = MethodID mid"
    using pr k eq by (auto simp: find_pred_def Less_def Let_def split: if_splits)
  then show False using assms(2) rl
    by (simp add: sortedMethods_find_def r_def[symmetric] Let_def)
qed

lemma Search_loop_le: "i \<le> j \<Longrightarrow> Search_loop f i j \<le> j"
proof (induction f i j rule: Search_loop.induct)
  case (1 f i j)
  show ?case
  proof (cases "i < j")
    case False
    then show ?thesis using "1.prems" by (simp add: Search_loop.simps)
  next
    case True
    define h where "h = (i + j) div 2"
    have hb: "i \<le> h" "h < j" using True by (auto simp: h_def)
    show ?thesis
    proof (cases "f h")
      case fh: True
      have "Search_loop f i j = Search_loop f i h"
        using True fh by (subst Search_loop.simps) (simp add: h_def Let_def)
      moreover have "Search_loop f i h \<le> h"
        using "1.IH"(2)[of h] True fh hb by (simp add: h_def)
      ultimately show ?thesis using hb by simp
    next
      case nfh: False
      have "Search_loop f i j = Search_loop f (h + 1) j"
        using True nfh by (subst Search_loop.simps) (simp add: h_def Let_def)
      moreover have "Search_loop f (h + 1) j \<le> j"
        using "1.IH"(1)[of h] True nfh hb by (simp add: h_def)
      ultimately show ?thesis by simp
    qed
  qed
qed

lemma find_Some:
  assumes "sortedMethods_find sm mid = Some m"
  shows "m \<in> set sm \<and> InterfaceID m = InterfaceID mid \<and> MethodID m = MethodID mid"
proof -
  define r where "r = Search (length sm) (find_pred sm mid)"
  have "r \<le> length sm" unfolding r_def Search_def by (rule Search_loop_le) simp
  then show ?thesis using assms
    by (auto simp: sortedMethods_find_def r_def[symmetric] Let_def split: if_splits)
qed


lemma Less_asym: "Less a b \<Longrightarrow> \<not> Less b a"
  by (auto simp: Less_def split: if_splits)

lemma not_Less_trans: "\<not> Less b a \<Longrightarrow> \<not> Less c b \<Longrightarrow> \<not> Less c a"
  by (auto simp: Less_def split: if_splits)

lemma set_insert_Less: "set (insert_Less x ys) = insert x (set ys)"
  by (induction ys) auto

lemma mset_insert_Less: "mset (insert_Less x ys) = add_mset x (mset ys)"
  by (induction ys) auto

lemma sorted_insert_Less:
  "sorted_wrt (\<lambda>a b. \<not> Less b a) ys \<Longrightarrow> sorted_wrt (\<lambda>a b. \<not> Less b a) (insert_Less x ys)"
proof (induction ys)
  case Nil
  then show ?case by simp
next
  case (Cons y ys)
  show ?case
  proof (cases "Less y x")
    case True
    then show ?thesis using Cons by (auto simp: set_insert_Less dest: Less_asym)
  next
    case False
    then have "\<forall>z\<in>set ys. \<not> Less z x"
      using Cons.prems not_Less_trans[OF False] by auto
    then show ?thesis using False Cons.prems by simp
  qed
qed

lemma Sorted_New: "Sorted methods (New methods)"
proof -
  have "mset (sort_Sort xs) = mset xs \<and> sorted_wrt (\<lambda>a b. \<not> Less b a) (sort_Sort xs)"
    for xs :: "'a Method list"
    by (induction xs) (simp_all add: mset_insert_Less sorted_insert_Less)
  then show ?thesis by (simp add: Sorted_def New_def)
qed

text \<open>
  C10.  Once the method list has been sorted as \<^verbatim>\<open>New\<close> sorts it (by interface id, then
  method id), \<^verbatim>\<open>find(id)\<close> returns a method of the list whose interface id and method id
  are both those of \<open>id\<close> whenever the list has such a method, and \<^verbatim>\<open>nil\<close> exactly when
  it has none.
\<close>

theorem sortedMethods_find_correct:
  assumes "Sorted methods sm"
  shows "case sortedMethods_find sm mid of
           Some m \<Rightarrow> m \<in> set methods \<and> InterfaceID m = InterfaceID mid \<and> MethodID m = MethodID mid
         | None \<Rightarrow> \<forall>m\<in>set methods. \<not> (InterfaceID m = InterfaceID mid \<and> MethodID m = MethodID mid)"
proof -
  have st: "set sm = set methods" and so: "sorted_wrt (\<lambda>a b. \<not> Less b a) sm"
    using assms by (auto simp: Sorted_def dest: mset_eq_setD)
  show ?thesis
  proof (cases "sortedMethods_find sm mid")
    case None
    then show ?thesis using find_None[OF so None] st by auto
  next
    case (Some m)
    then show ?thesis using find_Some[OF Some] st by simp
  qed
qed

theorem sortedMethods_find_correct_witness:
  "Sorted
     [\<lparr>InterfaceID = 9, MethodID = 1, Impl = ''c'', ResultsSize = 0\<rparr>,
      \<lparr>InterfaceID = 7, MethodID = 2, Impl = ''b'', ResultsSize = 0\<rparr>,
      \<lparr>InterfaceID = 7, MethodID = 0, Impl = ''a'', ResultsSize = 0\<rparr>]
     (New
     [\<lparr>InterfaceID = 9, MethodID = 1, Impl = ''c'', ResultsSize = 0\<rparr>,
      \<lparr>InterfaceID = 7, MethodID = 2, Impl = ''b'', ResultsSize = 0\<rparr>,
      \<lparr>InterfaceID = 7, MethodID = 0, Impl = ''a'', ResultsSize = 0\<rparr>])
   \<and> sortedMethods_find
     (New
     [\<lparr>InterfaceID = 9, MethodID = 1, Impl = ''c'', ResultsSize = 0\<rparr>,
      \<lparr>InterfaceID = 7, MethodID = 2, Impl = ''b'', ResultsSize = 0\<rparr>,
      \<lparr>InterfaceID = 7, MethodID = 0, Impl = ''a'', ResultsSize = 0\<rparr>])
     \<lparr>InterfaceID = 7, MethodID = 2\<rparr>
     = Some \<lparr>InterfaceID = 7, MethodID = 2, Impl = ''b'', ResultsSize = 0\<rparr>
   \<and> sortedMethods_find
     (New
     [\<lparr>InterfaceID = 9, MethodID = 1, Impl = ''c'', ResultsSize = 0\<rparr>,
      \<lparr>InterfaceID = 7, MethodID = 2, Impl = ''b'', ResultsSize = 0\<rparr>,
      \<lparr>InterfaceID = 7, MethodID = 0, Impl = ''a'', ResultsSize = 0\<rparr>])
     \<lparr>InterfaceID = 7, MethodID = 1\<rparr>
     = None"
proof -
  let ?ms = "[\<lparr>InterfaceID = 9, MethodID = 1, Impl = ''c'', ResultsSize = 0\<rparr>,
      \<lparr>InterfaceID = 7, MethodID = 2, Impl = ''b'', ResultsSize = 0\<rparr>,
      \<lparr>InterfaceID = 7, MethodID = 0, Impl = ''a'', ResultsSize = 0\<rparr>]"
  have s: "Sorted ?ms (New ?ms)" by (rule Sorted_New)
  have new: "New ?ms = [\<lparr>InterfaceID = 7, MethodID = 0, Impl = ''a'', ResultsSize = 0\<rparr>,
      \<lparr>InterfaceID = 7, MethodID = 2, Impl = ''b'', ResultsSize = 0\<rparr>,
      \<lparr>InterfaceID = 9, MethodID = 1, Impl = ''c'', ResultsSize = 0\<rparr>]"
    by (simp add: New_def Less_def)
  have a: "sortedMethods_find (New ?ms) \<lparr>InterfaceID = 7, MethodID = 2\<rparr>
     = Some \<lparr>InterfaceID = 7, MethodID = 2, Impl = ''b'', ResultsSize = 0\<rparr>"
    unfolding new
    by (simp add: sortedMethods_find_def Search_def Search_loop.simps find_pred_def Let_def)
  have b: "sortedMethods_find (New ?ms) \<lparr>InterfaceID = 7, MethodID = 1\<rparr> = None"
    unfolding new
    by (simp add: sortedMethods_find_def Search_def Search_loop.simps find_pred_def Let_def)
  from sortedMethods_find_correct[OF s, of "\<lparr>InterfaceID = 7, MethodID = 2\<rparr>"]
       sortedMethods_find_correct[OF s, of "\<lparr>InterfaceID = 7, MethodID = 1\<rparr>"]
  show ?thesis using s a b by simp
qed

section \<open>Properties of the connection core\<close>

subsection \<open>Classification of received capabilities\<close>

lemma isLocalClient_self: "self c = self c' \<Longrightarrow> isLocalClient c cl = isLocalClient c' cl"
  by (induction c cl rule: isLocalClient.induct) auto

lemma self_emit [simp]: "self (emit es c) = self c"
  by (simp add: emit_def)

lemma self_recvCap: "recvCap X c d = (cl, err, c') \<Longrightarrow> self c' = self c"
  by (auto simp: recvCap_def addImport_def split: CapDescriptor.splits option.splits sum.splits)

lemma recvCaps_Inr:
  "recvCaps X c ds mtab locals = Some (Inr (mtab', locals'), c') \<Longrightarrow>
     self c' = self c \<and> length mtab' = length mtab + length ds \<and> take (length mtab) mtab' = mtab \<and>
     locals' = locals \<union> {j. length mtab \<le> j \<and> j < length mtab' \<and> isLocalClient c (mtab' ! j)}"
proof (induction ds arbitrary: c mtab locals)
  case Nil
  then show ?case by auto
next
  case (Cons d ds)
  obtain cl err c1 where rc: "recvCap X c d = (cl, err, c1)" by (cases "recvCap X c d") auto
  have s1: "self c1 = self c" using self_recvCap[OF rc] .
  show ?case
  proof (cases err)
    case (Some e)
    then show ?thesis using Cons.prems rc by (simp split: if_splits)
  next
    case None
    let ?l = "if isLocalClient c1 cl then insert (length mtab) locals else locals"
    have step: "recvCaps X c1 ds (mtab @ [cl]) ?l = Some (Inr (mtab', locals'), c')"
      using Cons.prems rc None by simp
    from Cons.IH[OF step]
    have ih: "self c' = self c1" "length mtab' = length (mtab @ [cl]) + length ds"
      "take (length (mtab @ [cl])) mtab' = mtab @ [cl]"
      "locals' = ?l \<union> {j. length (mtab @ [cl]) \<le> j \<and> j < length mtab' \<and> isLocalClient c1 (mtab' ! j)}"
      by blast+
    have at: "mtab' ! length mtab = cl"
    proof -
      have "mtab' ! length mtab = take (length (mtab @ [cl])) mtab' ! length mtab" by simp
      also have "\<dots> = cl" unfolding ih(3) by simp
      finally show ?thesis .
    qed
    have tk: "take (length mtab) mtab' = mtab"
    proof -
      have "take (length mtab) mtab' = take (length mtab) (take (length (mtab @ [cl])) mtab')"
        by (simp add: min_def)
      also have "\<dots> = mtab" unfolding ih(3) by simp
      finally show ?thesis .
    qed
    have loc: "isLocalClient c1 = isLocalClient c"
      using isLocalClient_self[OF s1] by auto
    have "locals' = locals \<union> {j. length mtab \<le> j \<and> j < length mtab' \<and> isLocalClient c (mtab' ! j)}"
      unfolding ih(4) loc using at ih(2)
      by (auto simp: le_Suc_eq Suc_le_eq dest: le_neq_implies_less)
    then show ?thesis using ih s1 tk by simp
  qed
qed


lemma recvPayload_locals:
  assumes "recvPayload X c (Payload (Inr p) (Inr ds)) None = Some (p', locals, None, Some mtab, c')"
  shows "length mtab = length ds \<and> locals = {j. j < length mtab \<and> isLocalClient c (mtab ! j)}"
proof -
  from assms obtain r c1 where rc: "recvCaps X c ds [] {} = Some (r, c1)"
    by (cases "recvCaps X c ds [] {}") (auto simp: recvPayload_def)
  from assms rc have "r = Inr (mtab, locals)"
    by (auto simp: recvPayload_def split: sum.splits prod.splits)
  with rc have "recvCaps X c ds [] {} = Some (Inr (mtab, locals), c1)" by simp
  from recvCaps_Inr[OF this] show ?thesis by auto
qed

text \<open>
  The payload walk returns when every release returns: only the release of the clients
  made so far, which happens with \<^verbatim>\<open>c.lk\<close> held, can keep \<^verbatim>\<open>recvPayload\<close> from returning.
\<close>

lemma recvCaps_returns:
  assumes "\<forall>cl. Release_returns X (self c) cl"
  shows "\<exists>r c'. recvCaps X c ds mtab locals = Some (r, c')"
  using assms
proof (induction ds arbitrary: c mtab locals)
  case Nil
  then show ?case by simp
next
  case (Cons d ds)
  obtain cl err c1 where rc: "recvCap X c d = (cl, err, c1)" by (cases "recvCap X c d") auto
  have s1: "self c1 = self c" using self_recvCap[OF rc] .
  show ?case
  proof (cases err)
    case (Some e)
    then show ?thesis using rc s1 Cons.prems by (simp add: list_all_iff)
  next
    case None
    from Cons.prems s1 have "\<forall>cl. Release_returns X (self c1) cl" by simp
    from Cons.IH[OF this] show ?thesis using rc None by simp
  qed
qed

lemma recvPayload_returns:
  assumes "\<forall>cl. Release_returns X (self c) cl"
  shows "\<exists>r. recvPayload X c payload tab = Some r"
proof (cases payload)
  case NullPayload
  then show ?thesis by (simp add: recvPayload_def)
next
  case (Payload cont ptab)
  show ?thesis
  proof (cases ptab)
    case (Inl e)
    then show ?thesis using Payload by (simp add: recvPayload_def split: sum.splits)
  next
    case (Inr ds)
    from recvCaps_returns[OF assms] obtain r c' where "recvCaps X c ds [] {} = Some (r, c')"
      by blast
    then show ?thesis using Payload Inr
      by (simp add: recvPayload_def split: sum.splits prod.splits)
  qed
qed

text \<open>
  C2, as amended.  \<^verbatim>\<open>isLocalClient\<close> says local exactly when the client is not the zero
  client, not an import of this connection, not a pipeline client for a question of this
  connection and not an error client.  Imports and pipeline clients of another
  connection are local.  The set of local indices that \<^verbatim>\<open>recvPayload\<close> returns holds
  exactly the indices of the capability table at which \<^verbatim>\<open>isLocalClient\<close> says so.
\<close>

theorem isLocalClient_classification:
  "(isLocalClient c cl \<longleftrightarrow>
      cl \<noteq> NullClient \<and> \<not> is_import_of c cl \<and> \<not> is_pipeline_of c cl \<and> \<not> is_error_client cl)
   \<and> (k \<noteq> self c \<longrightarrow>
        isLocalClient c (ImportClient k i) \<and> isLocalClient c (PipelineClient (Some (k, q)) tr))
   \<and> (recvPayload X c (Payload (Inr p) (Inr ds)) None = Some (p', locals, None, Some mtab, c') \<longrightarrow>
        length mtab = length ds \<and>
        locals = {j. j < length mtab \<and> isLocalClient c (mtab ! j)})"
proof (intro conjI impI)
  show "isLocalClient c cl \<longleftrightarrow>
      cl \<noteq> NullClient \<and> \<not> is_import_of c cl \<and> \<not> is_pipeline_of c cl \<and> \<not> is_error_client cl"
    by (induction c cl rule: isLocalClient.induct) auto
next
  assume "k \<noteq> self c"
  then show "isLocalClient c (ImportClient k i)" by simp
next
  assume "k \<noteq> self c"
  then show "isLocalClient c (PipelineClient (Some (k, q)) tr)" by simp
next
  assume a: "recvPayload X c (Payload (Inr p) (Inr ds)) None = Some (p', locals, None, Some mtab, c')"
  from recvPayload_locals[OF a] show "length mtab = length ds" by simp
next
  assume a: "recvPayload X c (Payload (Inr p) (Inr ds)) None = Some (p', locals, None, Some mtab, c')"
  from recvPayload_locals[OF a]
  show "locals = {j. j < length mtab \<and> isLocalClient c (mtab ! j)}" by simp
qed


theorem isLocalClient_classification_witness:
  "(1::nat) \<noteq> self (NewConn 0 NullClient)
   \<and> isLocalClient (NewConn 0 NullClient) (ImportClient 1 3)
   \<and> isLocalClient (NewConn 0 NullClient) (PipelineClient (Some (1, 2)) [])
   \<and> recvPayload ext0
        ((NewConn 0 NullClient)\<lparr>exports := [Some \<lparr>exp_client = LocalClient 5, wireRefs = 1\<rparr>]\<rparr>)
        (Payload (Inr (InterfacePtr 1)) (Inr [CD_senderHosted 3, CD_receiverHosted 0, CD_none])) None
      = Some (InterfacePtr 1, {1}, None, Some [ImportClient 0 3, LocalClient 5, NullClient],
         (NewConn 0 NullClient)\<lparr>exports := [Some \<lparr>exp_client = LocalClient 5, wireRefs = 1\<rparr>],
            c_imports := (\<lambda>_. None)(3 := Some \<lparr>imp_wireRefs = 1\<rparr>)\<rparr>)
   \<and> {1} = {j. j < length [ImportClient 0 3, LocalClient 5, NullClient]
               \<and> isLocalClient
                    ((NewConn 0 NullClient)\<lparr>exports := [Some \<lparr>exp_client = LocalClient 5, wireRefs = 1\<rparr>]\<rparr>)
                    ([ImportClient 0 3, LocalClient 5, NullClient] ! j)}"
proof -
  let ?c = "(NewConn 0 NullClient)\<lparr>exports := [Some \<lparr>exp_client = LocalClient 5, wireRefs = 1\<rparr>]\<rparr>"
  have ne: "(1::nat) \<noteq> self (NewConn 0 NullClient)" by (simp add: NewConn_def)
  have ev: "recvPayload ext0 ?c
        (Payload (Inr (InterfacePtr 1)) (Inr [CD_senderHosted 3, CD_receiverHosted 0, CD_none])) None
      = Some (InterfacePtr 1, {1}, None, Some [ImportClient 0 3, LocalClient 5, NullClient],
         ?c\<lparr>c_imports := (\<lambda>_. None)(3 := Some \<lparr>imp_wireRefs = 1\<rparr>)\<rparr>)"
    by (simp add: recvPayload_def recvCap_def addImport_def findExport_def NewConn_def)
  from isLocalClient_classification[of "NewConn 0 NullClient" NullClient 1 3 2 "[]"] ne
  have a: "isLocalClient (NewConn 0 NullClient) (ImportClient 1 3)"
    and b: "isLocalClient (NewConn 0 NullClient) (PipelineClient (Some (1, 2)) [])"
    by blast+
  from isLocalClient_classification[of ?c NullClient 1 3 2 "[]" ext0 "InterfacePtr 1"
      "[CD_senderHosted 3, CD_receiverHosted 0, CD_none]" "InterfacePtr 1" "{1}"
      "[ImportClient 0 3, LocalClient 5, NullClient]"
      "?c\<lparr>c_imports := (\<lambda>_. None)(3 := Some \<lparr>imp_wireRefs = 1\<rparr>)\<rparr>"] ev
  have c: "{1} = {j. j < length [ImportClient 0 3, LocalClient 5, NullClient]
               \<and> isLocalClient ?c ([ImportClient 0 3, LocalClient 5, NullClient] ! j)}"
    by blast
  show ?thesis using ne a b ev c by simp
qed

text \<open>
  C2 as stated fails for the zero client, which a \<open>none\<close> descriptor puts into the
  capability table: it is none of the three kinds, and it is not classified as local.
\<close>

theorem isLocalClient_null_counterexample:
  "recvPayload ext0 (NewConn 0 NullClient) (Payload (Inr NullPtr) (Inr [CD_none])) None
     = Some (NullPtr, {}, None, Some [NullClient], NewConn 0 NullClient)
   \<and> \<not> is_import_of (NewConn 0 NullClient) NullClient
   \<and> \<not> is_pipeline_of (NewConn 0 NullClient) NullClient
   \<and> \<not> is_error_client NullClient
   \<and> \<not> isLocalClient (NewConn 0 NullClient) NullClient"
  by (simp add: recvPayload_def recvCap_def)

subsection \<open>Shutdown\<close>

lemma emit_Nil [simp]: "emit [] c = c"
  by (simp add: emit_def)

lemma run_onSent_frame:
  "closing (run_onSent c f e) = closing c \<and> bgcanceled (run_onSent c f e) = bgcanceled c
   \<and> closed (run_onSent c f e) = closed c \<and> transport_closed (run_onSent c f e) = transport_closed c
   \<and> allocs (run_onSent c f e) = allocs c \<and> answers (run_onSent c f e) = answers c
   \<and> exports (run_onSent c f e) = exports c \<and> embargoes (run_onSent c f e) = embargoes c
   \<and> questions (run_onSent c f e) = questions c \<and> c_imports (run_onSent c f e) = c_imports c
   \<and> bootstrap (run_onSent c f e) = bootstrap c
   \<and> (\<exists>es. trace (run_onSent c f e) = trace c @ es \<and> \<not> list_ex is_abort_sent es)"
  by (cases f) (auto simp: report_def emit_def Let_def split: option.splits)

lemma asyncSend_Abort_frame:
  "closing (asyncSend_Abort c as e) = closing c \<and> bgcanceled (asyncSend_Abort c as e) = bgcanceled c
   \<and> closed (asyncSend_Abort c as e) = closed c
   \<and> transport_closed (asyncSend_Abort c as e) = transport_closed c
   \<and> allocs (asyncSend_Abort c as e) = allocs c \<and> answers (asyncSend_Abort c as e) = answers c
   \<and> exports (asyncSend_Abort c as e) = exports c \<and> embargoes (asyncSend_Abort c as e) = embargoes c
   \<and> questions (asyncSend_Abort c as e) = questions c \<and> c_imports (asyncSend_Abort c as e) = c_imports c
   \<and> bootstrap (asyncSend_Abort c as e) = bootstrap c
   \<and> (\<exists>es. trace (asyncSend_Abort c as e) = trace c @ es \<and> \<not> list_ex is_abort_sent es)"
proof -
  show ?thesis
  proof (cases "as_onSent as")
    case None
    then show ?thesis
      by (cases "as_release as") (auto simp: asyncSend_Abort_def emit_def)
  next
    case (Some f)
    obtain es where es: "trace (run_onSent c f (Some (Exc Disconnected [] (Some e)))) = trace c @ es"
      "\<not> list_ex is_abort_sent es"
      using run_onSent_frame[of c f] by blast
    show ?thesis
      using Some run_onSent_frame[of c f "Some (Exc Disconnected [] (Some e))"] es
      by (cases "as_release as") (auto simp: asyncSend_Abort_def emit_def)
  qed
qed

lemma drainQueue_frame:
  "closing (drainQueue c) = closing c \<and> bgcanceled (drainQueue c) = bgcanceled c
   \<and> closed (drainQueue c) = closed c \<and> transport_closed (drainQueue c) = transport_closed c
   \<and> allocs (drainQueue c) = allocs c \<and> answers (drainQueue c) = answers c
   \<and> exports (drainQueue c) = exports c \<and> embargoes (drainQueue c) = embargoes c
   \<and> questions (drainQueue c) = questions c \<and> c_imports (drainQueue c) = c_imports c
   \<and> bootstrap (drainQueue c) = bootstrap c
   \<and> sendq (drainQueue c) = []
   \<and> (\<exists>es. trace (drainQueue c) = trace c @ es \<and> \<not> list_ex is_abort_sent es)"
proof (induction c rule: drainQueue.induct)
  case (1 c)
  show ?case
  proof (cases "sendq c")
    case Nil
    then show ?thesis by (subst (1 2 3 4 5 6 7 8 9 10 11 12 13) drainQueue.simps) simp
  next
    case (Cons p rest)
    let ?c1 = "asyncSend_Abort (c\<lparr>sendq := rest\<rparr>) p ErrConnClosed"
    have eq: "drainQueue c = drainQueue ?c1"
      using Cons by (subst drainQueue.simps) simp
    have ih: "closing (drainQueue ?c1) = closing ?c1 \<and> bgcanceled (drainQueue ?c1) = bgcanceled ?c1
   \<and> closed (drainQueue ?c1) = closed ?c1 \<and> transport_closed (drainQueue ?c1) = transport_closed ?c1
   \<and> allocs (drainQueue ?c1) = allocs ?c1 \<and> answers (drainQueue ?c1) = answers ?c1
   \<and> exports (drainQueue ?c1) = exports ?c1 \<and> embargoes (drainQueue ?c1) = embargoes ?c1
   \<and> questions (drainQueue ?c1) = questions ?c1 \<and> c_imports (drainQueue ?c1) = c_imports ?c1
   \<and> bootstrap (drainQueue ?c1) = bootstrap ?c1
   \<and> sendq (drainQueue ?c1) = []
   \<and> (\<exists>es. trace (drainQueue ?c1) = trace ?c1 @ es \<and> \<not> list_ex is_abort_sent es)"
      using "1.IH"[OF Cons] .
    then obtain es2 where es2: "trace (drainQueue ?c1) = trace ?c1 @ es2" "\<not> list_ex is_abort_sent es2"
      by blast
    obtain es1 where es1: "trace ?c1 = trace (c\<lparr>sendq := rest\<rparr>) @ es1" "\<not> list_ex is_abort_sent es1"
      using asyncSend_Abort_frame[of "c\<lparr>sendq := rest\<rparr>" p ErrConnClosed] by blast
    have tr: "trace (drainQueue c) = trace c @ (es1 @ es2) \<and> \<not> list_ex is_abort_sent (es1 @ es2)"
      using es1 es2 eq by simp
    show ?thesis
      using ih asyncSend_Abort_frame[of "c\<lparr>sendq := rest\<rparr>" p ErrConnClosed] tr
      unfolding eq by (simp del: list_ex_append)
  qed
qed


lemma no_abort_releases:
  "\<not> list_ex is_abort_sent (clearExportIDs xs)" "\<not> list_ex is_abort_sent (releaseExports xs)"
  "\<not> list_ex is_abort_sent (liftEmbargoes ys)" "\<not> list_ex is_abort_sent (releaseAnswers zs)"
  "\<not> list_ex is_abort_sent (releaseQuestions h qs)"
  by (auto simp: clearExportIDs_def releaseExports_def liftEmbargoes_def releaseAnswers_def
      releaseQuestions_def list_ex_iff Let_def split: option.splits if_splits)

lemma release_frame:
  "closing (release c) = closing c \<and> bgcanceled (release c) = bgcanceled c
   \<and> closed (release c) = closed c \<and> transport_closed (release c) = transport_closed c
   \<and> allocs (release c) = allocs c \<and> sendq (release c) = sendq c
   \<and> answers (release c) = [] \<and> exports (release c) = [] \<and> embargoes (release c) = []
   \<and> questions (release c) = [] \<and> c_imports (release c) = (\<lambda>_. None)
   \<and> (\<exists>es. trace (release c) = trace c @ es \<and> \<not> list_ex is_abort_sent es)"
  using no_abort_releases
  by (simp add: release_def Let_def emit_def)

lemma abort_frame:
  "closing (abort X c e) = closing c \<and> bgcanceled (abort X c e) = bgcanceled c
   \<and> closed (abort X c e) = closed c \<and> transport_closed (abort X c e) = transport_closed c
   \<and> sendq (abort X c e) = sendq c
   \<and> answers (abort X c e) = answers c \<and> exports (abort X c e) = exports c
   \<and> embargoes (abort X c e) = embargoes c
   \<and> questions (abort X c e) = questions c \<and> c_imports (abort X c e) = c_imports c
   \<and> (\<exists>es. trace (abort X c e) = trace c @ es \<and> length (filter is_abort_sent es) \<le> 1)"
  by (auto simp: abort_def Let_def emit_def split: option.splits)

lemma abort_sends:
  "NewMessage X (allocs c) = None \<Longrightarrow> BuildErr X (allocs c) = None \<Longrightarrow>
   trace (abort X c (Some e)) = trace c @ [TransportSend (Out_abort (exc_TypeOf e) e), ReleaseOutMsg (allocs c)]"
  by (simp add: abort_def Let_def emit_def)

lemma cancelTasks_frame:
  "closing (cancelTasks c) = closing c \<and> bgcanceled (cancelTasks c) = bgcanceled c
   \<and> closed (cancelTasks c) = closed c \<and> transport_closed (cancelTasks c) = transport_closed c
   \<and> allocs (cancelTasks c) = allocs c \<and> sendq (cancelTasks c) = sendq c
   \<and> answers (cancelTasks c) = answers c
   \<and> trace (cancelTasks c) =
       trace c @ map (\<lambda>(i, a). CancelAnswer i) (filter (\<lambda>(i, a). ans_cancel a) (answers c))"
  by (simp add: cancelTasks_def emit_def)

lemma closeTransport_frame:
  "closing (closeTransport c) = closing c \<and> bgcanceled (closeTransport c) = bgcanceled c
   \<and> closed (closeTransport c) \<and> transport_closed (closeTransport c)
   \<and> allocs (closeTransport c) = allocs c \<and> sendq (closeTransport c) = sendq c
   \<and> answers (closeTransport c) = answers c \<and> exports (closeTransport c) = exports c
   \<and> embargoes (closeTransport c) = embargoes c
   \<and> questions (closeTransport c) = questions c \<and> c_imports (closeTransport c) = c_imports c
   \<and> trace (closeTransport c) = trace c @ [TransportClose, CloseDone]"
  by (simp add: closeTransport_def emit_def)

lemma shutdown_closing:
  "closing c \<Longrightarrow> shutdown X c e = (if closed c then Some (None, c) else None)"
  by (simp add: shutdown_def)

lemma shutdown_first:
  assumes "\<not> closing c"
  shows "\<exists>e c1. shutdown X c abortErr = Some (e, c1)
     \<and> closing c1 \<and> bgcanceled c1 \<and> sendq c1 = []
     \<and> questions c1 = [] \<and> answers c1 = [] \<and> exports c1 = []
     \<and> c_imports c1 = (\<lambda>_. None) \<and> embargoes c1 = []
     \<and> transport_closed c1 \<and> closed c1
     \<and> (\<exists>es. trace c1 = trace c @ es \<and> length (filter is_abort_sent es) \<le> 1
          \<and> BgCancel \<in> set es \<and> TransportClose \<in> set es \<and> CloseDone \<in> set es
          \<and> CancelAnswer ` fst ` {x \<in> set (answers c). ans_cancel (snd x)} \<subseteq> set es
          \<and> (\<forall>a. abortErr = Some a \<and> NewMessage X (allocs c) = None \<and> BuildErr X (allocs c) = None
                \<longrightarrow> TransportSend (Out_abort (exc_TypeOf a) a) \<in> set es))"
proof -
  define c0 where "c0 = emit [BgCancel] (c\<lparr>closing := True, bgcanceled := True\<rparr>)"
  define c1 where "c1 = cancelTasks c0"
  define c2 where "c2 = (if abortTimedOut X then closeTransport c1 else c1)"
  define c3 where "c3 = drainQueue c2"
  define c4 where "c4 = release c3"
  define c5 where "c5 = abort X c4 abortErr"
  define c6 where "c6 = (if abortTimedOut X then c5 else closeTransport c5)"
  define ca where "ca = map (\<lambda>(i, a). CancelAnswer i) (filter (\<lambda>(i, a). ans_cancel a) (answers c))"
  have t1: "trace c1 = trace c @ BgCancel # ca" "closing c1" "bgcanceled c1" "closed c1 = closed c"
    "allocs c1 = allocs c"
    using cancelTasks_frame[of c0] by (simp_all add: c1_def c0_def emit_def ca_def)
  obtain es3 where es3: "trace c3 = trace c2 @ es3" "\<not> list_ex is_abort_sent es3"
    using drainQueue_frame[of c2] unfolding c3_def by blast
  obtain es4 where es4: "trace c4 = trace c3 @ es4" "\<not> list_ex is_abort_sent es4"
    using release_frame[of c3] unfolding c4_def by blast
  obtain es5 where es5: "trace c5 = trace c4 @ es5" "length (filter is_abort_sent es5) \<le> 1"
    using abort_frame[of X c4 abortErr] unfolding c5_def by blast
  have al: "allocs c4 = allocs c"
    using t1(5) closeTransport_frame[of c1] drainQueue_frame[of c2] release_frame[of c3]
    unfolding c4_def c3_def c2_def by (auto split: if_splits)
  have sent: "TransportSend (Out_abort (exc_TypeOf a) a) \<in> set es5"
    if "abortErr = Some a" "NewMessage X (allocs c) = None" "BuildErr X (allocs c) = None" for a
    using abort_sends[of X c4 a] that es5(1) al unfolding c5_def by auto
  have f3: "filter is_abort_sent es3 = []" "filter is_abort_sent es4 = []"
    using es3(2) es4(2) by (auto simp: list_ex_iff filter_empty_conv)
  have fca: "filter is_abort_sent ca = []"
    by (auto simp: ca_def filter_empty_conv)
  have cas: "CancelAnswer ` fst ` {x \<in> set (answers c). ans_cancel (snd x)} \<subseteq> set ca"
    by (force simp: ca_def)
  have flags: "closing c6" "bgcanceled c6" "sendq c6 = []" "questions c6 = []" "answers c6 = []"
    "exports c6 = []" "c_imports c6 = (\<lambda>_. None)" "embargoes c6 = []"
    "transport_closed c6" "closed c6"
    using t1(2,3) closeTransport_frame[of c1] closeTransport_frame[of c5]
      drainQueue_frame[of c2] release_frame[of c3] abort_frame[of X c4 abortErr]
    unfolding c6_def c5_def c4_def c3_def c2_def by (auto split: if_splits)
  define es where "es = (if abortTimedOut X
      then BgCancel # ca @ [TransportClose, CloseDone] @ es3 @ es4 @ es5
      else BgCancel # ca @ es3 @ es4 @ es5 @ [TransportClose, CloseDone])"
  have tr1: "trace c6 = trace c @ es"
    using t1(1) es3(1) es4(1) es5(1) closeTransport_frame[of c1] closeTransport_frame[of c5]
    by (simp add: c6_def c2_def es_def)
  have tr2: "length (filter is_abort_sent es) \<le> 1"
    using f3 fca es5(2) by (simp add: es_def)
  have tr3: "BgCancel \<in> set es" "TransportClose \<in> set es" "CloseDone \<in> set es"
    "CancelAnswer ` fst ` {x \<in> set (answers c). ans_cancel (snd x)} \<subseteq> set es"
    using cas by (auto simp: es_def)
  have tr4: "\<forall>a. abortErr = Some a \<and> NewMessage X (allocs c) = None \<and> BuildErr X (allocs c) = None
                \<longrightarrow> TransportSend (Out_abort (exc_TypeOf a) a) \<in> set es"
    using sent by (auto simp: es_def)
  have "shutdown X c abortErr =
          (if closed c6
           then Some (map_option (\<lambda>e. Failedf ''close transport: %w'' (Some e)) (Close_err X), c6)
           else None)"
    using assms
    by (simp add: shutdown_def Let_def c6_def c5_def c4_def c3_def c2_def c1_def c0_def)
  then have "shutdown X c abortErr =
          Some (map_option (\<lambda>e. Failedf ''close transport: %w'' (Some e)) (Close_err X), c6)"
    using flags(10) by simp
  then show ?thesis using flags tr1 tr2 tr3 tr4 by blast
qed

text \<open>
  C5.  On a connection that is not closing, \<^verbatim>\<open>Close\<close> returns with the closing flag set,
  the background context canceled, every answer that has a cancel function canceled,
  the send queue empty, the five tables empty, at most one abort handed to the
  transport, the transport closed and \<^verbatim>\<open>Done\<close> closed.  A \<^verbatim>\<open>Close\<close> after that returns nil
  and leaves the connection, its trace of effects included, exactly as it was.  Any
  \<^verbatim>\<open>Close\<close> that finds the closing flag set changes nothing and only waits for \<^verbatim>\<open>Done\<close>.
\<close>

theorem Close_idempotent:
  "(\<not> closing c \<longrightarrow>
      (\<exists>e c1. Close X c = Some (e, c1)
         \<and> closing c1 \<and> bgcanceled c1 \<and> sendq c1 = []
         \<and> questions c1 = [] \<and> answers c1 = [] \<and> exports c1 = []
         \<and> c_imports c1 = (\<lambda>_. None) \<and> embargoes c1 = []
         \<and> transport_closed c1 \<and> closed c1
         \<and> (\<exists>es. trace c1 = trace c @ es \<and> length (filter is_abort_sent es) \<le> 1
              \<and> BgCancel \<in> set es \<and> TransportClose \<in> set es \<and> CloseDone \<in> set es
              \<and> CancelAnswer ` fst ` {x \<in> set (answers c). ans_cancel (snd x)} \<subseteq> set es)
         \<and> Close X c1 = Some (None, c1)))
   \<and> (closing c \<longrightarrow> Close X c = (if closed c then Some (None, c) else None))"
proof (intro conjI impI)
  assume nc: "\<not> closing c"
  from shutdown_first[OF nc, of X "Some (Exc Failed '''' (Some ErrConnClosed))"]
  obtain e c1 where r: "shutdown X c (Some (Exc Failed '''' (Some ErrConnClosed))) = Some (e, c1)"
     "closing c1" "bgcanceled c1" "sendq c1 = []"
     "questions c1 = []" "answers c1 = []" "exports c1 = []"
     "c_imports c1 = (\<lambda>_. None)" "embargoes c1 = []"
     "transport_closed c1" "closed c1"
     "\<exists>es. trace c1 = trace c @ es \<and> length (filter is_abort_sent es) \<le> 1
          \<and> BgCancel \<in> set es \<and> TransportClose \<in> set es \<and> CloseDone \<in> set es
          \<and> CancelAnswer ` fst ` {x \<in> set (answers c). ans_cancel (snd x)} \<subseteq> set es"
    by blast
  have again: "Close X c1 = Some (None, c1)"
    using r(2) r(11) by (simp add: Close_def shutdown_closing)
  show "\<exists>e c1. Close X c = Some (e, c1)
         \<and> closing c1 \<and> bgcanceled c1 \<and> sendq c1 = []
         \<and> questions c1 = [] \<and> answers c1 = [] \<and> exports c1 = []
         \<and> c_imports c1 = (\<lambda>_. None) \<and> embargoes c1 = []
         \<and> transport_closed c1 \<and> closed c1
         \<and> (\<exists>es. trace c1 = trace c @ es \<and> length (filter is_abort_sent es) \<le> 1
              \<and> BgCancel \<in> set es \<and> TransportClose \<in> set es \<and> CloseDone \<in> set es
              \<and> CancelAnswer ` fst ` {x \<in> set (answers c). ans_cancel (snd x)} \<subseteq> set es)
         \<and> Close X c1 = Some (None, c1)"
    using r again unfolding Close_def by blast
next
  assume "closing c"
  then show "Close X c = (if closed c then Some (None, c) else None)"
    by (simp add: Close_def shutdown_closing)
qed

theorem Close_idempotent_witness:
  "\<not> closing conn_busy
   \<and> (case Close ext0 conn_busy of
        None \<Rightarrow> False
      | Some (e, c1) \<Rightarrow>
          closing c1 \<and> closed c1 \<and> transport_closed c1 \<and> answers c1 = [] \<and> sendq c1 = []
          \<and> CancelAnswer 4 \<in> set (trace c1) \<and> Close ext0 c1 = Some (None, c1))
   \<and> closing (conn_busy\<lparr>closing := True\<rparr>)
   \<and> Close ext0 (conn_busy\<lparr>closing := True\<rparr>) = None"
proof -
  have nc: "\<not> closing conn_busy" by (simp add: conn_busy_def NewConn_def)
  have ca: "CancelAnswer 4 \<in> CancelAnswer ` fst ` {x \<in> set (answers conn_busy). ans_cancel (snd x)}"
    by (force simp: conn_busy_def NewConn_def)
  from Close_idempotent[of conn_busy ext0] nc
  obtain e c1 es where r: "Close ext0 conn_busy = Some (e, c1)" "closing c1" "closed c1"
    "transport_closed c1" "answers c1 = []" "sendq c1 = []" "trace c1 = trace conn_busy @ es"
    "CancelAnswer ` fst ` {x \<in> set (answers conn_busy). ans_cancel (snd x)} \<subseteq> set es"
    "Close ext0 c1 = Some (None, c1)"
    by blast
  have "CancelAnswer 4 \<in> set (trace c1)" using r(7,8) ca by auto
  moreover have "Close ext0 (conn_busy\<lparr>closing := True\<rparr>) = None"
    using Close_idempotent[of "conn_busy\<lparr>closing := True\<rparr>" ext0]
    by (simp add: conn_busy_def NewConn_def)
  ultimately show ?thesis using nc r by simp
qed

subsection \<open>Incoming Call and Finish\<close>

lemma sendMessage_frame:
  "answers (sendMessage X c b f) = answers c \<and> closing (sendMessage X c b f) = closing c
   \<and> questions (sendMessage X c b f) = questions c
   \<and> allocs (sendMessage X c b f) = allocs c + 1
   \<and> trace (sendMessage X c b f) = trace c @ (if NewMessage X (allocs c) = None then fst b else [])
   \<and> sendq (sendMessage X c b f) = sendq c @
        [\<lparr>as_send = (case NewMessage X (allocs c) of
                       Some err \<Rightarrow> SendFail (Failedf ''create message: %w'' (Some err))
                     | None \<Rightarrow> (case BuildErr X (allocs c) of
                          Some err \<Rightarrow> SendFail (Failedf ''build message: %w'' (Some err))
                        | None \<Rightarrow> SendMsg (snd b))),
          as_onSent = f,
          as_release = (case NewMessage X (allocs c) of Some err \<Rightarrow> None | None \<Rightarrow> Some (allocs c))\<rparr>]"
  by (simp add: sendMessage_def Let_def emit_def split: option.splits)


text \<open>
  C7.  A Call whose results are not to go to the caller makes \<^verbatim>\<open>handleCall\<close> report the
  error, enqueue one job and return nil.  The answers table is unchanged.  When the
  transport has a message and building it does not fail, the job carries an
  \<open>unimplemented\<close> message that echoes the call, and running the job on a connection
  whose context is not canceled hands that message to the transport.  The receive loop
  goes on with the next message.
\<close>

theorem handleCall_results_not_to_caller:
  "call_sendResultsTo call \<noteq> SRT_caller \<longrightarrow>
     (\<exists>c' job. handleCall X c call rel = (None, c')
        \<and> answers c' = answers c
        \<and> sendq c' = sendq c @ [job]
        \<and> as_onSent job = Some OnSent_callUnimplemented
        \<and> (NewMessage X (allocs c) = None \<and> BuildErr X (allocs c) = None \<longrightarrow>
             as_send job = SendMsg (Out_unimplemented (M_call (Inr call)))
             \<and> (\<forall>s. \<not> bgcanceled s \<longrightarrow>
                   TransportSend (Out_unimplemented (M_call (Inr call)))
                     \<in> set (trace (asyncSend_Send X s job))))
        \<and> trace c' = trace c
             @ [ReportError (Errorf ''incoming call: results destination is not caller'' None)]
             @ (if NewMessage X (allocs c) = None then [ReleaseMsg rel] else [])
        \<and> receive X c (Incoming \<lparr>im_Message = M_call (Inr call), im_Release = rel, im_err = None\<rparr> # rest)
            = receive X c' rest)"
proof
  assume nc: "call_sendResultsTo call \<noteq> SRT_caller"
  define c0 where "c0 = emit [ReportError (Errorf ''incoming call: results destination is not caller'' None)] c"
  define b where "b = ([ReleaseMsg rel], Out_unimplemented (M_call (Inr call)))"
  define c' where "c' = sendMessage X c0 b (Some OnSent_callUnimplemented)"
  define job where "job = last (sendq c')"
  have h: "handleCall X c call rel = (None, c')"
    using nc by (simp add: handleCall_def c'_def c0_def b_def)
  have c0: "answers c0 = answers c" "allocs c0 = allocs c" "sendq c0 = sendq c"
    "trace c0 = trace c @ [ReportError (Errorf ''incoming call: results destination is not caller'' None)]"
    by (simp_all add: c0_def emit_def)
  note fr = sendMessage_frame[of X c0 b "Some OnSent_callUnimplemented", folded c'_def, unfolded c0]
  have an: "answers c' = answers c" using fr by simp
  have q: "sendq c' = sendq c @ [job]" unfolding job_def using fr by simp
  have j1: "as_onSent job = Some OnSent_callUnimplemented" unfolding job_def using fr by simp
  have j2: "as_send job = SendMsg (Out_unimplemented (M_call (Inr call)))"
    if "NewMessage X (allocs c) = None" "BuildErr X (allocs c) = None"
    unfolding job_def using fr that by (simp add: b_def)
  have j3: "TransportSend (Out_unimplemented (M_call (Inr call))) \<in> set (trace (asyncSend_Send X s job))"
    if "NewMessage X (allocs c) = None" "BuildErr X (allocs c) = None" "\<not> bgcanceled s" for s
    using j2[OF that(1,2)] j1 that(3)
    by (auto simp: asyncSend_Send_def Let_def emit_def report_def split: option.splits prod.splits)
  have tr: "trace c' = trace c
             @ [ReportError (Errorf ''incoming call: results destination is not caller'' None)]
             @ (if NewMessage X (allocs c) = None then [ReleaseMsg rel] else [])"
    using fr by (simp add: b_def)
  have rc: "receive X c (Incoming \<lparr>im_Message = M_call (Inr call), im_Release = rel, im_err = None\<rparr> # rest)
            = receive X c' rest"
    using h by (simp add: Let_def)
  show "\<exists>c' job. handleCall X c call rel = (None, c')
        \<and> answers c' = answers c
        \<and> sendq c' = sendq c @ [job]
        \<and> as_onSent job = Some OnSent_callUnimplemented
        \<and> (NewMessage X (allocs c) = None \<and> BuildErr X (allocs c) = None \<longrightarrow>
             as_send job = SendMsg (Out_unimplemented (M_call (Inr call)))
             \<and> (\<forall>s. \<not> bgcanceled s \<longrightarrow>
                   TransportSend (Out_unimplemented (M_call (Inr call)))
                     \<in> set (trace (asyncSend_Send X s job))))
        \<and> trace c' = trace c
             @ [ReportError (Errorf ''incoming call: results destination is not caller'' None)]
             @ (if NewMessage X (allocs c) = None then [ReleaseMsg rel] else [])
        \<and> receive X c (Incoming \<lparr>im_Message = M_call (Inr call), im_Release = rel, im_err = None\<rparr> # rest)
            = receive X c' rest"
    apply (rule exI[of _ c'])
    apply (rule exI[of _ job])
    using h an q j1 j2 j3 tr rc apply auto
    done
qed

theorem handleCall_results_not_to_caller_witness:
  "call_sendResultsTo call_yourself \<noteq> SRT_caller
   \<and> fst (handleCall ext0 conn_busy call_yourself 1) = None
   \<and> answers (snd (handleCall ext0 conn_busy call_yourself 1)) = answers conn_busy
   \<and> map as_send (sendq (snd (handleCall ext0 conn_busy call_yourself 1)))
       = map as_send (sendq conn_busy) @ [SendMsg (Out_unimplemented (M_call (Inr call_yourself)))]
   \<and> fst (receive ext0 conn_busy
        [Incoming \<lparr>im_Message = M_call (Inr call_yourself), im_Release = 1, im_err = None\<rparr>])
       = Waiting"
proof -
  have nc: "call_sendResultsTo call_yourself \<noteq> SRT_caller" by (simp add: call_yourself_def)
  have ok: "NewMessage ext0 (allocs conn_busy) = None" "BuildErr ext0 (allocs conn_busy) = None"
    by (simp_all add: ext0_def)
  from handleCall_results_not_to_caller[of call_yourself ext0 conn_busy 1 "[]"] nc ok
  obtain c' job where r: "handleCall ext0 conn_busy call_yourself 1 = (None, c')"
    "answers c' = answers conn_busy" "sendq c' = sendq conn_busy @ [job]"
    "as_send job = SendMsg (Out_unimplemented (M_call (Inr call_yourself)))"
    "receive ext0 conn_busy
        [Incoming \<lparr>im_Message = M_call (Inr call_yourself), im_Release = 1, im_err = None\<rparr>]
       = receive ext0 c' []"
    by blast
  show ?thesis using nc r by simp
qed

lemma monitor_first:
  assumes "\<not> closing c" "\<not> is_Canceled err"
  shows "\<exists>c'. monitor X c err = Some c' \<and> closing c' \<and> closed c' \<and> transport_closed c'
      \<and> questions c' = [] \<and> answers c' = [] \<and> exports c' = []
      \<and> c_imports c' = (\<lambda>_. None) \<and> embargoes c' = []
      \<and> ReportError err \<in> set (trace c')
      \<and> (NewMessage X (allocs c) = None \<and> BuildErr X (allocs c) = None
            \<longrightarrow> TransportSend (Out_abort (exc_TypeOf err) err) \<in> set (trace c'))"
proof -
  define c1 where "c1 = report (Some err) c"
  have c1: "\<not> closing c1" "allocs c1 = allocs c" "trace c1 = trace c @ [ReportError err]"
    using assms(1) by (simp_all add: c1_def report_def emit_def)
  from shutdown_first[OF c1(1), of X "Some err"]
  obtain e c2 es where r: "shutdown X c1 (Some err) = Some (e, c2)"
     "closing c2" "closed c2" "transport_closed c2"
     "questions c2 = []" "answers c2 = []" "exports c2 = []"
     "c_imports c2 = (\<lambda>_. None)" "embargoes c2 = []"
     "trace c2 = trace c1 @ es"
     "\<forall>a. Some err = Some a \<and> NewMessage X (allocs c1) = None \<and> BuildErr X (allocs c1) = None
                \<longrightarrow> TransportSend (Out_abort (exc_TypeOf a) a) \<in> set es"
    by blast
  have m: "monitor X c err = Some (report e c2)"
    using assms(2) r(1) by (simp add: monitor_def Let_def c1_def)
  have fl: "closing (report e c2)" "closed (report e c2)" "transport_closed (report e c2)"
    "questions (report e c2) = []" "answers (report e c2) = []" "exports (report e c2) = []"
    "c_imports (report e c2) = (\<lambda>_. None)" "embargoes (report e c2) = []"
    using r by (simp_all add: report_def emit_def split: option.splits)
  have tr: "\<exists>es'. trace (report e c2) = trace c @ [ReportError err] @ es @ es'"
    using r(10) c1(3) by (cases e) (simp_all add: report_def emit_def)
  then obtain es' where es': "trace (report e c2) = trace c @ [ReportError err] @ es @ es'" by blast
  have t1: "ReportError err \<in> set (trace (report e c2))" using es' by simp
  have t2: "TransportSend (Out_abort (exc_TypeOf err) err) \<in> set (trace (report e c2))"
    if "NewMessage X (allocs c) = None" "BuildErr X (allocs c) = None"
    using r(11) that c1(2) es' by simp
  show ?thesis
    apply (rule exI[of _ "report e c2"])
    using m fl t1 t2 apply simp
    done
qed

text \<open>
  C9.  A Finish for an answer id that is not in the answers table, or for an answer that
  has received a Finish already, makes \<^verbatim>\<open>handleFinish\<close> return an error and leaves the
  connection, its answers table included, as it was.  \<^verbatim>\<open>receive\<close> then returns that error
  without looking at later messages, and the goroutine of \<^verbatim>\<open>NewConn\<close> that waits for the
  background tasks reports it and shuts the connection down with it as the abort
  cause: the abort is handed to the transport when the transport has a message for it.
\<close>

theorem handleFinish_unknown_or_duplicate:
  "(map_of (answers c) i = None \<longrightarrow>
      handleFinish X c i r = (Some (Failedf ''incoming finish: unknown answer ID %d'' None), c))
   \<and> (map_of (answers c) i = Some ans \<and> finishReceived \<in> ans_flags ans \<longrightarrow>
      handleFinish X c i r =
        (Some (Failedf ''incoming finish: answer ID %d already received finish'' None), c))
   \<and> (map_of (answers c) i = None
        \<or> (map_of (answers c) i = Some ans \<and> finishReceived \<in> ans_flags ans) \<longrightarrow>
      (\<exists>err. fst (handleFinish X c i r) = Some err
         \<and> answers (snd (handleFinish X c i r)) = answers c
         \<and> receive X c
             (Incoming \<lparr>im_Message = M_finish (Inr \<lparr>fin_questionId = i, fin_releaseResultCaps = r\<rparr>),
                        im_Release = rel, im_err = None\<rparr> # rest)
            = (Returned (Some err), emit [ReleaseMsg rel] c)
         \<and> (\<not> closing c \<longrightarrow>
              (\<exists>c'. monitor X (emit [ReleaseMsg rel] c) (backgroundTask (Some err)) = Some c'
                 \<and> closing c' \<and> closed c' \<and> transport_closed c'
                 \<and> questions c' = [] \<and> answers c' = [] \<and> exports c' = []
                 \<and> c_imports c' = (\<lambda>_. None) \<and> embargoes c' = []
                 \<and> ReportError err \<in> set (trace c')
                 \<and> (NewMessage X (allocs c) = None \<and> BuildErr X (allocs c) = None
                      \<longrightarrow> TransportSend (Out_abort Failed err) \<in> set (trace c'))))))"
proof (intro conjI impI)
  assume "map_of (answers c) i = None"
  then show "handleFinish X c i r = (Some (Failedf ''incoming finish: unknown answer ID %d'' None), c)"
    by (simp add: handleFinish_def)
next
  assume "map_of (answers c) i = Some ans \<and> finishReceived \<in> ans_flags ans"
  then show "handleFinish X c i r =
        (Some (Failedf ''incoming finish: answer ID %d already received finish'' None), c)"
    by (simp add: handleFinish_def)
next
  assume a: "map_of (answers c) i = None
        \<or> (map_of (answers c) i = Some ans \<and> finishReceived \<in> ans_flags ans)"
  define err where "err = (if map_of (answers c) i = None
      then Failedf ''incoming finish: unknown answer ID %d'' None
      else Failedf ''incoming finish: answer ID %d already received finish'' None)"
  have hf: "handleFinish X c' i r = (Some err, c')" if "answers c' = answers c" for c'
    using a that by (auto simp: handleFinish_def err_def)
  have nc: "\<not> is_Canceled err" "exc_TypeOf err = Failed"
    by (simp_all add: err_def Failedf_def)
  have rc: "receive X c
             (Incoming \<lparr>im_Message = M_finish (Inr \<lparr>fin_questionId = i, fin_releaseResultCaps = r\<rparr>),
                        im_Release = rel, im_err = None\<rparr> # rest)
            = (Returned (Some err), emit [ReleaseMsg rel] c)"
    using hf[of "emit [ReleaseMsg rel] c"] by (simp add: Let_def emit_def)
  have mo: "\<exists>c'. monitor X (emit [ReleaseMsg rel] c) (backgroundTask (Some err)) = Some c'
                 \<and> closing c' \<and> closed c' \<and> transport_closed c'
                 \<and> questions c' = [] \<and> answers c' = [] \<and> exports c' = []
                 \<and> c_imports c' = (\<lambda>_. None) \<and> embargoes c' = []
                 \<and> ReportError err \<in> set (trace c')
                 \<and> (NewMessage X (allocs c) = None \<and> BuildErr X (allocs c) = None
                      \<longrightarrow> TransportSend (Out_abort Failed err) \<in> set (trace c'))"
    if "\<not> closing c"
    using monitor_first[of "emit [ReleaseMsg rel] c" err X] that nc
    by (simp add: backgroundTask_def emit_def)
  show "\<exists>err. fst (handleFinish X c i r) = Some err
         \<and> answers (snd (handleFinish X c i r)) = answers c
         \<and> receive X c
             (Incoming \<lparr>im_Message = M_finish (Inr \<lparr>fin_questionId = i, fin_releaseResultCaps = r\<rparr>),
                        im_Release = rel, im_err = None\<rparr> # rest)
            = (Returned (Some err), emit [ReleaseMsg rel] c)
         \<and> (\<not> closing c \<longrightarrow>
              (\<exists>c'. monitor X (emit [ReleaseMsg rel] c) (backgroundTask (Some err)) = Some c'
                 \<and> closing c' \<and> closed c' \<and> transport_closed c'
                 \<and> questions c' = [] \<and> answers c' = [] \<and> exports c' = []
                 \<and> c_imports c' = (\<lambda>_. None) \<and> embargoes c' = []
                 \<and> ReportError err \<in> set (trace c')
                 \<and> (NewMessage X (allocs c) = None \<and> BuildErr X (allocs c) = None
                      \<longrightarrow> TransportSend (Out_abort Failed err) \<in> set (trace c'))))"
    apply (rule exI[of _ err])
    using hf[of c] rc mo apply simp
    done
qed

theorem handleFinish_unknown_or_duplicate_witness:
  "map_of (answers conn_busy) 5 = None
   \<and> handleFinish ext0 conn_busy 5 False =
        (Some (Failedf ''incoming finish: unknown answer ID %d'' None), conn_busy)
   \<and> fst (receive ext0 conn_busy
        [Incoming \<lparr>im_Message = M_finish (Inr \<lparr>fin_questionId = 5, fin_releaseResultCaps = False\<rparr>),
                   im_Release = 1, im_err = None\<rparr>,
         Incoming \<lparr>im_Message = M_other 9, im_Release = 2, im_err = None\<rparr>])
       = Returned (Some (Failedf ''incoming finish: unknown answer ID %d'' None))
   \<and> \<not> closing conn_busy
   \<and> (case monitor ext0 (emit [ReleaseMsg 1] conn_busy)
              (backgroundTask (Some (Failedf ''incoming finish: unknown answer ID %d'' None))) of
        None \<Rightarrow> False
      | Some c' \<Rightarrow>
          closing c' \<and> closed c' \<and> answers c' = []
          \<and> TransportSend (Out_abort Failed (Failedf ''incoming finish: unknown answer ID %d'' None))
               \<in> set (trace c'))
   \<and> map_of (answers conn_finished) 4 =
        Some \<lparr>ans_flags = {finishReceived}, ans_cancel = True, ans_promise = True,
              ans_msgReleaser = True, ans_err = None,
              ans_results = \<lparr>r_content = Inr NullPtr, r_CapTable = []\<rparr>\<rparr>
   \<and> handleFinish ext0 conn_finished 4 True =
        (Some (Failedf ''incoming finish: answer ID %d already received finish'' None),
         conn_finished)"
proof -
  let ?e = "Failedf ''incoming finish: unknown answer ID %d'' None"
  let ?ans = "\<lparr>ans_flags = {finishReceived}, ans_cancel = True, ans_promise = True,
              ans_msgReleaser = True, ans_err = None,
              ans_results = \<lparr>r_content = Inr NullPtr, r_CapTable = []\<rparr>\<rparr>"
  have u: "map_of (answers conn_busy) 5 = None" and nc: "\<not> closing conn_busy"
    by (simp_all add: conn_busy_def NewConn_def)
  have ok: "NewMessage ext0 (allocs conn_busy) = None" "BuildErr ext0 (allocs conn_busy) = None"
    by (simp_all add: ext0_def)
  have d: "map_of (answers conn_finished) 4 = Some ?ans" "finishReceived \<in> ans_flags ?ans"
    by (simp_all add: conn_finished_def)
  note t = handleFinish_unknown_or_duplicate[of conn_busy 5 ext0 False ?ans 1
      "[Incoming \<lparr>im_Message = M_other 9, im_Release = 2, im_err = None\<rparr>]"]
  from t u have h: "handleFinish ext0 conn_busy 5 False = (Some ?e, conn_busy)" by blast
  from t u nc ok h obtain c' where r:
    "receive ext0 conn_busy
        [Incoming \<lparr>im_Message = M_finish (Inr \<lparr>fin_questionId = 5, fin_releaseResultCaps = False\<rparr>),
                   im_Release = 1, im_err = None\<rparr>,
         Incoming \<lparr>im_Message = M_other 9, im_Release = 2, im_err = None\<rparr>]
       = (Returned (Some ?e), emit [ReleaseMsg 1] conn_busy)"
    "monitor ext0 (emit [ReleaseMsg 1] conn_busy) (backgroundTask (Some ?e)) = Some c'"
    "closing c'" "closed c'" "answers c' = []"
    "TransportSend (Out_abort Failed ?e) \<in> set (trace c')"
    by auto
  from handleFinish_unknown_or_duplicate[of conn_finished 4 ext0 True ?ans] d
  have h2: "handleFinish ext0 conn_finished 4 True =
        (Some (Failedf ''incoming finish: answer ID %d already received finish'' None),
         conn_finished)"
    by blast
  show ?thesis using u nc h r d(1) h2 by simp
qed

subsection \<open>Incoming Disembargo\<close>

lemma parseMessageTarget_promisedAnswer:
  assumes "parseMessageTarget t = Inr tgt" "pt_which tgt = W_promisedAnswer"
  shows "\<exists>pa ops. t = MT_promisedAnswer (Inr pa) \<and> pa_transform pa = Inr ops
           \<and> parseTransform ops = Inr (pt_transform tgt)
           \<and> pt_promisedAnswer tgt = pa_questionId pa"
  using assms
  by (auto simp: parseMessageTarget_def split: MessageTarget.splits sum.splits)

lemma parseMessageTarget_of_promisedAnswer:
  assumes "pa_transform pa = Inr ops" "parseTransform ops = Inr tr"
  shows "parseMessageTarget (MT_promisedAnswer (Inr pa)) =
           Inr \<lparr>pt_which = W_promisedAnswer, pt_importedCap = 0,
                pt_promisedAnswer = pa_questionId pa, pt_transform = tr\<rparr>"
  using assms by (simp add: parseMessageTarget_def)

lemma senderLoopback_client_Inr:
  assumes "senderLoopback_client X c tgt = Inr cl"
  shows "\<exists>ans cont p k. pt_which tgt = W_promisedAnswer
           \<and> map_of (answers c) (pt_promisedAnswer tgt) = Some ans
           \<and> returnSent \<in> ans_flags ans \<and> ans_err ans = None
           \<and> r_content (ans_results ans) = Inr cont
           \<and> Transform X cont (pt_transform tgt) = (p, None) \<and> Interface p = Some k
           \<and> unat k < length (r_CapTable (ans_results ans))
           \<and> cl = r_CapTable (ans_results ans) ! unat k"
  using assms
  by (auto simp: senderLoopback_client_def Interface_Client_def
           split: if_splits option.splits sum.splits prod.splits)

lemma senderLoopback_client_ok:
  assumes "pt_which tgt = W_promisedAnswer"
    "map_of (answers c) (pt_promisedAnswer tgt) = Some ans"
    "returnSent \<in> ans_flags ans" "ans_err ans = None"
    "r_content (ans_results ans) = Inr cont"
    "Transform X cont (pt_transform tgt) = (p, None)" "Interface p = Some k"
    "unat k < length (r_CapTable (ans_results ans))"
  shows "senderLoopback_client X c tgt = Inr (r_CapTable (ans_results ans) ! unat k)"
  using assms by (simp add: senderLoopback_client_def Interface_Client_def)

lemma handleDisembargo_echo:
  assumes "d_context d = DC_senderLoopback i" "senderLoopback_echoes X c d imp"
  shows "handleDisembargo X c d rel =
           (None, sendMessage X c
              ([], Out_disembargo \<lparr>d_target = Inr (MT_importedCap imp),
                                   d_context = DC_receiverLoopback i\<rparr>)
              (Some (OnSent_receiverLoopback rel (ImportClient (self c) imp))))"
proof -
  from assms(2) obtain pa ops tr ans cont p k where e:
    "d_target d = Inr (MT_promisedAnswer (Inr pa))"
    "pa_transform pa = Inr ops" "parseTransform ops = Inr tr"
    "map_of (answers c) (pa_questionId pa) = Some ans"
    "returnSent \<in> ans_flags ans" "ans_err ans = None"
    "r_content (ans_results ans) = Inr cont"
    "Transform X cont tr = (p, None)" "Interface p = Some k"
    "unat k < length (r_CapTable (ans_results ans))"
    "r_CapTable (ans_results ans) ! unat k = ImportClient (self c) imp"
    unfolding senderLoopback_echoes_def by blast
  let ?tgt = "\<lparr>pt_which = W_promisedAnswer, pt_importedCap = 0,
                pt_promisedAnswer = pa_questionId pa, pt_transform = tr\<rparr>"
  have pm: "parseMessageTarget (MT_promisedAnswer (Inr pa)) = Inr ?tgt"
    using parseMessageTarget_of_promisedAnswer[OF e(2,3)] .
  have sc: "senderLoopback_client X c ?tgt = Inr (ImportClient (self c) imp)"
    using senderLoopback_client_ok[of ?tgt c ans cont X p k] e by simp
  show ?thesis using assms(1) e(1) pm sc by (simp add: handleDisembargo_def)
qed

lemma handleDisembargo_no_echo:
  assumes "d_context d = DC_senderLoopback i" "\<forall>imp. \<not> senderLoopback_echoes X c d imp"
  shows "(\<exists>err. fst (handleDisembargo X c d rel) = Some err)
         \<and> sendq (snd (handleDisembargo X c d rel)) = sendq c"
proof (cases "d_target d")
  case (Inl err)
  then show ?thesis by (simp add: handleDisembargo_def)
next
  case (Inr t)
  show ?thesis
  proof (cases "parseMessageTarget t")
    case (Inl err)
    then show ?thesis using Inr by (simp add: handleDisembargo_def)
  next
    case tg: (Inr tgt)
    show ?thesis
    proof (cases "senderLoopback_client X c tgt")
      case (Inl err)
      then show ?thesis using Inr tg assms(1) by (simp add: handleDisembargo_def)
    next
      case cl: (Inr cl)
      from senderLoopback_client_Inr[OF cl] obtain ans cont p k where s:
        "pt_which tgt = W_promisedAnswer"
        "map_of (answers c) (pt_promisedAnswer tgt) = Some ans"
        "returnSent \<in> ans_flags ans" "ans_err ans = None"
        "r_content (ans_results ans) = Inr cont"
        "Transform X cont (pt_transform tgt) = (p, None)" "Interface p = Some k"
        "unat k < length (r_CapTable (ans_results ans))"
        "cl = r_CapTable (ans_results ans) ! unat k"
        by blast
      from parseMessageTarget_promisedAnswer[OF tg s(1)] obtain pa ops where pm:
        "t = MT_promisedAnswer (Inr pa)" "pa_transform pa = Inr ops"
        "parseTransform ops = Inr (pt_transform tgt)" "pt_promisedAnswer tgt = pa_questionId pa"
        by blast
      have ni: "cl \<noteq> ImportClient (self c) imp" for imp
      proof
        assume "cl = ImportClient (self c) imp"
        then have "senderLoopback_echoes X c d imp"
          unfolding senderLoopback_echoes_def using Inr pm s by auto
        then show False using assms(2) by blast
      qed
      show ?thesis
        using Inr tg cl assms(1) ni
        by (cases cl) (auto simp: handleDisembargo_def)
    qed
  qed
qed

text \<open>
  C4.  On a Disembargo with \<open>senderLoopback\<close> context and embargo id \<open>i\<close>: if the
  target is a promisedAnswer, the answer is in the table with its Return sent and no
  error, the transform reaches an interface within the capability table of the results,
  and the client in that slot is an import of this connection with id \<open>imp\<close>, then
  \<^verbatim>\<open>handleDisembargo\<close> returns nil and enqueues one job, which carries a Disembargo with
  context \<open>receiverLoopback i\<close> and target \<open>importedCap imp\<close> whenever the transport has a
  message and building it does not fail.  If any of these conditions fails,
  \<^verbatim>\<open>handleDisembargo\<close> returns an error and enqueues nothing.
\<close>

theorem handleDisembargo_senderLoopback:
  "d_context d = DC_senderLoopback i \<longrightarrow>
     (\<forall>imp. senderLoopback_echoes X c d imp \<longrightarrow>
        fst (handleDisembargo X c d rel) = None
        \<and> (\<exists>job. sendq (snd (handleDisembargo X c d rel)) = sendq c @ [job]
             \<and> (NewMessage X (allocs c) = None \<and> BuildErr X (allocs c) = None \<longrightarrow>
                  as_send job =
                    SendMsg (Out_disembargo \<lparr>d_target = Inr (MT_importedCap imp),
                                              d_context = DC_receiverLoopback i\<rparr>)
                  \<and> (\<forall>s. \<not> bgcanceled s \<longrightarrow>
                        TransportSend (Out_disembargo \<lparr>d_target = Inr (MT_importedCap imp),
                                                        d_context = DC_receiverLoopback i\<rparr>)
                          \<in> set (trace (asyncSend_Send X s job))))))
     \<and> ((\<forall>imp. \<not> senderLoopback_echoes X c d imp) \<longrightarrow>
        (\<exists>err. fst (handleDisembargo X c d rel) = Some err)
        \<and> sendq (snd (handleDisembargo X c d rel)) = sendq c)"
proof (intro impI conjI allI)
  fix imp
  assume ctx: "d_context d = DC_senderLoopback i" and ech: "senderLoopback_echoes X c d imp"
  let ?m = "Out_disembargo \<lparr>d_target = Inr (MT_importedCap imp), d_context = DC_receiverLoopback i\<rparr>"
  let ?f = "Some (OnSent_receiverLoopback rel (ImportClient (self c) imp))"
  define c' where "c' = sendMessage X c ([], ?m) ?f"
  define job where "job = last (sendq c')"
  have h: "handleDisembargo X c d rel = (None, c')"
    using handleDisembargo_echo[OF ctx ech] by (simp add: c'_def)
  note fr = sendMessage_frame[of X c "([], ?m)" ?f, folded c'_def]
  have q: "sendq c' = sendq c @ [job]" unfolding job_def using fr by simp
  have j2: "as_send job = SendMsg ?m"
    if "NewMessage X (allocs c) = None" "BuildErr X (allocs c) = None"
    unfolding job_def using fr that by simp
  have j3: "TransportSend ?m \<in> set (trace (asyncSend_Send X s job))"
    if "NewMessage X (allocs c) = None" "BuildErr X (allocs c) = None" "\<not> bgcanceled s" for s
  proof -
    have "as_onSent job = ?f" unfolding job_def using fr by simp
    then show ?thesis using j2[OF that(1,2)] that(3)
      by (auto simp: asyncSend_Send_def Let_def emit_def report_def split: option.splits prod.splits)
  qed
  show "fst (handleDisembargo X c d rel) = None" using h by simp
  show "\<exists>job. sendq (snd (handleDisembargo X c d rel)) = sendq c @ [job]
             \<and> (NewMessage X (allocs c) = None \<and> BuildErr X (allocs c) = None \<longrightarrow>
                  as_send job = SendMsg ?m
                  \<and> (\<forall>s. \<not> bgcanceled s \<longrightarrow>
                        TransportSend ?m \<in> set (trace (asyncSend_Send X s job))))"
    apply (rule exI[of _ job])
    using h q j2 j3 apply auto
    done
next
  assume ctx: "d_context d = DC_senderLoopback i"
    and ne: "\<forall>imp. \<not> senderLoopback_echoes X c d imp"
  from handleDisembargo_no_echo[OF ctx ne, of rel]
  show "\<exists>err. fst (handleDisembargo X c d rel) = Some err"
    and "sendq (snd (handleDisembargo X c d rel)) = sendq c"
    by blast+
qed

lemma echoes_example: "senderLoopback_echoes ext0 conn_returned (disembargo_on 0) 11"
  unfolding senderLoopback_echoes_def
  apply (rule exI[of _ "\<lparr>pa_questionId = 2, pa_transform = Inr [Op_getPointerField 0]\<rparr>"])
  apply (rule exI[of _ "[Op_getPointerField 0]"])
  apply (rule exI[of _ "[0]"])
  apply (rule exI[of _ "\<lparr>ans_flags = {returnSent, resultsReady}, ans_cancel = False,
                         ans_promise = False, ans_msgReleaser = True, ans_err = None,
                         ans_results =
                           \<lparr>r_content = Inr (StructPtr [InterfacePtr 0, InterfacePtr 1]),
                            r_CapTable = [ImportClient 0 11, LocalClient 5]\<rparr>\<rparr>"])
  apply (rule exI[of _ "StructPtr [InterfacePtr 0, InterfacePtr 1]"])
  apply (rule exI[of _ "InterfacePtr 0"])
  apply (rule exI[of _ 0])
  apply (simp add: conn_returned_def disembargo_on_def NewConn_def ext0_def parseTransform_def)
  done

lemma no_echo_example: "\<not> senderLoopback_echoes ext0 conn_returned (disembargo_on 1) imp"
  by (auto simp: senderLoopback_echoes_def conn_returned_def disembargo_on_def NewConn_def
        ext0_def parseTransform_def)

theorem handleDisembargo_senderLoopback_witness:
  "d_context (disembargo_on 0) = DC_senderLoopback 77
   \<and> senderLoopback_echoes ext0 conn_returned (disembargo_on 0) 11
   \<and> fst (handleDisembargo ext0 conn_returned (disembargo_on 0) 1) = None
   \<and> map as_send (sendq (snd (handleDisembargo ext0 conn_returned (disembargo_on 0) 1)))
       = [SendMsg (Out_disembargo \<lparr>d_target = Inr (MT_importedCap 11),
                                   d_context = DC_receiverLoopback 77\<rparr>)]
   \<and> d_context (disembargo_on 1) = DC_senderLoopback 77
   \<and> fst (handleDisembargo ext0 conn_returned (disembargo_on 1) 1)
       = Some (Failedf ''incoming disembargo: sender loopback requested on a capability that is not an import'' None)
   \<and> sendq (snd (handleDisembargo ext0 conn_returned (disembargo_on 1) 1)) = []"
proof -
  have c0: "d_context (disembargo_on 0) = DC_senderLoopback 77"
    and c1: "d_context (disembargo_on 1) = DC_senderLoopback 77"
    by (simp_all add: disembargo_on_def)
  have ok: "NewMessage ext0 (allocs conn_returned) = None" "BuildErr ext0 (allocs conn_returned) = None"
    "sendq conn_returned = []"
    by (simp_all add: ext0_def conn_returned_def NewConn_def)
  from handleDisembargo_senderLoopback[of "disembargo_on 0" 77 ext0 conn_returned 1]
    c0 echoes_example ok
  obtain job where a: "fst (handleDisembargo ext0 conn_returned (disembargo_on 0) 1) = None"
    "sendq (snd (handleDisembargo ext0 conn_returned (disembargo_on 0) 1)) = [job]"
    "as_send job = SendMsg (Out_disembargo \<lparr>d_target = Inr (MT_importedCap 11),
                                   d_context = DC_receiverLoopback 77\<rparr>)"
    by auto
  from handleDisembargo_senderLoopback[of "disembargo_on 1" 77 ext0 conn_returned 1]
    c1 no_echo_example ok
  have b: "sendq (snd (handleDisembargo ext0 conn_returned (disembargo_on 1) 1)) = []"
    by auto
  have b': "fst (handleDisembargo ext0 conn_returned (disembargo_on 1) 1)
       = Some (Failedf ''incoming disembargo: sender loopback requested on a capability that is not an import'' None)"
    by (simp add: handleDisembargo_def disembargo_on_def parseMessageTarget_def parseTransform_def
        senderLoopback_client_def conn_returned_def NewConn_def ext0_def Interface_Client_def)
  show ?thesis using c0 c1 echoes_example a b b' by simp
qed

subsection \<open>Incoming Return\<close>

lemma loop_append:
  "parseReturn_loop X cont locals qid (xs @ ys) st =
     parseReturn_loop X cont locals qid ys (parseReturn_loop X cont locals qid xs st)"
proof (induction xs arbitrary: st)
  case Nil
  then show ?case by simp
next
  case (Cons x xs)
  obtain c mtab caps ds where st: "st = (c, mtab, caps, ds)" by (cases st) auto
  show ?case unfolding st
    by (simp add: Cons.IH Let_def split: option.splits prod.splits)
qed

lemma loop_skip:
  assumes "reaches X cont x = None \<or>
           (\<exists>i. reaches X cont x = Some i \<and>
                (unat i \<ge> length mtab \<or> unat i \<notin> locals \<or> unat i \<in> caps))"
  shows "parseReturn_loop X cont locals qid (x # xs) (c, mtab, caps, ds) =
         parseReturn_loop X cont locals qid xs (c, mtab, caps, ds)"
  using assms by (auto simp: reaches_def split: option.splits)

lemma loop_embargo:
  assumes "reaches X cont x = Some i" "unat i < length mtab" "unat i \<in> locals" "unat i \<notin> caps"
  shows "parseReturn_loop X cont locals qid (x # xs) (c, mtab, caps, ds) =
         parseReturn_loop X cont locals qid xs
           (snd (snd (embargo c (mtab ! unat i))),
            mtab[unat i := EmbargoClient (fst (embargo c (mtab ! unat i))) (mtab ! unat i)],
            insert (unat i) caps,
            ds @ [\<lparr>sl_id = fst (embargo c (mtab ! unat i)), sl_question = qid, sl_transform = x\<rparr>])"
  using assms by (simp add: reaches_def embargo_def Let_def split: prod.splits)

lemma loop_structure:
  assumes "parseReturn_loop X cont locals qid xs (c, mtab, caps, ds) = (c', mtab', caps', ds')"
  shows "length mtab' = length mtab
     \<and> (\<forall>j. j \<in> caps \<or> j \<notin> caps' \<longrightarrow> mtab' ! j = mtab ! j)
     \<and> (\<exists>new. ds' = ds @ new
          \<and> caps' = caps \<union> {unat i | i. Some i \<in> (\<lambda>d. reaches X cont (sl_transform d)) ` set new}
          \<and> (\<forall>d\<in>set new. sl_question d = qid \<and> sl_transform d \<in> set xs
               \<and> (\<exists>i. reaches X cont (sl_transform d) = Some i \<and> unat i \<notin> caps \<and> unat i \<in> locals
                     \<and> unat i < length mtab
                     \<and> mtab' ! unat i = EmbargoClient (sl_id d) (mtab ! unat i)))
          \<and> distinct (map (\<lambda>d. reaches X cont (sl_transform d)) new))"
  using assms
proof (induction xs arbitrary: c mtab caps ds)
  case Nil
  then show ?case by simp
next
  case (Cons x xs)
  show ?case
  proof (cases "reaches X cont x = None \<or>
           (\<exists>i. reaches X cont x = Some i \<and>
                (unat i \<ge> length mtab \<or> unat i \<notin> locals \<or> unat i \<in> caps))")
    case True
    have "parseReturn_loop X cont locals qid xs (c, mtab, caps, ds) = (c', mtab', caps', ds')"
      using Cons.prems loop_skip[OF True] by simp
    from Cons.IH[OF this] show ?thesis by auto
  next
    case False
    then obtain i where i: "reaches X cont x = Some i" "unat i < length mtab" "unat i \<in> locals"
      "unat i \<notin> caps"
      by (cases "reaches X cont x") auto
    define eid where "eid = fst (embargo c (mtab ! unat i))"
    define c1 where "c1 = snd (snd (embargo c (mtab ! unat i)))"
    define d0 where "d0 = \<lparr>sl_id = eid, sl_question = qid, sl_transform = x\<rparr>"
    define mtab1 where "mtab1 = mtab[unat i := EmbargoClient eid (mtab ! unat i)]"
    have step: "parseReturn_loop X cont locals qid xs (c1, mtab1, insert (unat i) caps, ds @ [d0])
                  = (c', mtab', caps', ds')"
      using Cons.prems loop_embargo[OF i] by (simp add: eid_def c1_def d0_def mtab1_def)
    from Cons.IH[OF step] obtain new where ih:
      "length mtab' = length mtab1"
      "\<forall>j. j \<in> insert (unat i) caps \<or> j \<notin> caps' \<longrightarrow> mtab' ! j = mtab1 ! j"
      "ds' = (ds @ [d0]) @ new"
      "caps' = insert (unat i) caps \<union> {unat i | i. Some i \<in> (\<lambda>d. reaches X cont (sl_transform d)) ` set new}"
      "\<forall>d\<in>set new. sl_question d = qid \<and> sl_transform d \<in> set xs
               \<and> (\<exists>k. reaches X cont (sl_transform d) = Some k \<and> unat k \<notin> insert (unat i) caps
                     \<and> unat k \<in> locals \<and> unat k < length mtab1
                     \<and> mtab' ! unat k = EmbargoClient (sl_id d) (mtab1 ! unat k))"
      "distinct (map (\<lambda>d. reaches X cont (sl_transform d)) new)"
      by blast
    have len: "length mtab' = length mtab" using ih(1) by (simp add: mtab1_def)
    have at_i: "mtab' ! unat i = EmbargoClient eid (mtab ! unat i)"
      using ih(2) i(2) by (simp add: mtab1_def)
    have keep: "\<forall>j. j \<in> caps \<or> j \<notin> caps' \<longrightarrow> mtab' ! j = mtab ! j"
    proof (intro allI impI)
      fix j assume j: "j \<in> caps \<or> j \<notin> caps'"
      then have "j \<noteq> unat i" using i(4) ih(4) by auto
      moreover have "mtab' ! j = mtab1 ! j" using j ih(2) ih(4) by auto
      ultimately show "mtab' ! j = mtab ! j" by (simp add: mtab1_def)
    qed
    have d0r: "reaches X cont (sl_transform d0) = Some i" by (simp add: d0_def i(1))
    have capseq: "caps' = caps \<union> {unat i | i. Some i \<in> (\<lambda>d. reaches X cont (sl_transform d)) ` set (d0 # new)}"
      unfolding ih(4) using d0r by auto
    have each: "\<forall>d\<in>set (d0 # new). sl_question d = qid \<and> sl_transform d \<in> set (x # xs)
               \<and> (\<exists>k. reaches X cont (sl_transform d) = Some k \<and> unat k \<notin> caps \<and> unat k \<in> locals
                     \<and> unat k < length mtab
                     \<and> mtab' ! unat k = EmbargoClient (sl_id d) (mtab ! unat k))"
    proof
      fix d assume "d \<in> set (d0 # new)"
      then consider "d = d0" | "d \<in> set new" by auto
      then show "sl_question d = qid \<and> sl_transform d \<in> set (x # xs)
               \<and> (\<exists>k. reaches X cont (sl_transform d) = Some k \<and> unat k \<notin> caps \<and> unat k \<in> locals
                     \<and> unat k < length mtab
                     \<and> mtab' ! unat k = EmbargoClient (sl_id d) (mtab ! unat k))"
      proof cases
        case 1
        then show ?thesis using i at_i by (auto simp: d0_def)
      next
        case 2
        with ih(5) obtain k where k: "sl_question d = qid" "sl_transform d \<in> set xs"
          "reaches X cont (sl_transform d) = Some k" "unat k \<notin> insert (unat i) caps"
          "unat k \<in> locals" "unat k < length mtab1"
          "mtab' ! unat k = EmbargoClient (sl_id d) (mtab1 ! unat k)"
          by blast
        have "mtab1 ! unat k = mtab ! unat k" using k(4) by (simp add: mtab1_def)
        then show ?thesis using k by (auto simp: mtab1_def)
      qed
    qed
    have dist: "distinct (map (\<lambda>d. reaches X cont (sl_transform d)) (d0 # new))"
    proof -
      have "Some i \<notin> (\<lambda>d. reaches X cont (sl_transform d)) ` set new"
      proof
        assume "Some i \<in> (\<lambda>d. reaches X cont (sl_transform d)) ` set new"
        then obtain d where d: "d \<in> set new" "reaches X cont (sl_transform d) = Some i" by auto
        with ih(5) show False by fastforce
      qed
      then show ?thesis using ih(6) d0r by simp
    qed
    show ?thesis
      apply (intro conjI)
        apply (rule len)
       apply (rule keep)
      apply (rule exI[of _ "d0 # new"])
      using ih(3) capseq each dist apply simp
      done
  qed
qed

lemma embargo_step:
  assumes ok: "idgen_ok (embargoID c) (embargoes c)" and len: "length (embargoes c) + 1 < 2 ^ 32"
  shows "(unat (fst (embargo c cl)) < length (embargoes c) \<longrightarrow>
            embargoes c ! unat (fst (embargo c cl)) = None)
     \<and> unat (fst (embargo c cl)) < length (embargoes (snd (snd (embargo c cl))))
     \<and> embargoes (snd (snd (embargo c cl))) ! unat (fst (embargo c cl)) = Some \<lparr>emb_client = cl\<rparr>
     \<and> (\<forall>j<length (embargoes c). j \<noteq> unat (fst (embargo c cl)) \<longrightarrow>
            embargoes (snd (snd (embargo c cl))) ! j = embargoes c ! j)
     \<and> length (embargoes c) \<le> length (embargoes (snd (snd (embargo c cl))))
     \<and> length (embargoes (snd (snd (embargo c cl)))) \<le> length (embargoes c) + 1
     \<and> idgen_ok (embargoID (snd (snd (embargo c cl)))) (embargoes (snd (snd (embargo c cl))))"
proof (cases "free (embargoID c) = []")
  case True
  have g: "unat (gen_i (embargoID c)) = length (embargoes c)"
    using ok by (simp add: idgen_ok_def)
  have "unat (gen_i (embargoID c) + 1) = unat (gen_i (embargoID c)) + unat (1 :: 32 word)"
    using len g by (subst unat_add_lem[THEN iffD1]) simp_all
  then have g1: "unat (gen_i (embargoID c) + 1) = length (embargoes c) + 1" using g by simp
  show ?thesis
    using True g g1
    by (simp add: embargo_def idgen_next_def idgen_ok_def Let_def nth_append)
next
  case False
  define i where "i = last (free (embargoID c))"
  have iin: "i \<in> set (free (embargoID c))" using False by (simp add: i_def)
  then have ir: "unat i < length (embargoes c)" "embargoes c ! unat i = None"
    using ok by (auto simp: idgen_ok_def)
  have d: "distinct (free (embargoID c))" using ok by (simp add: idgen_ok_def)
  have notin: "i \<notin> set (butlast (free (embargoID c)))"
  proof -
    have "free (embargoID c) = butlast (free (embargoID c)) @ [i]"
      using False by (simp add: i_def)
    then have "distinct (butlast (free (embargoID c)) @ [i])" using d by simp
    then show ?thesis by simp
  qed
  have rest: "\<forall>k\<in>set (butlast (free (embargoID c))).
      unat k < length (embargoes c) \<and> ((embargoes c)[unat i := Some \<lparr>emb_client = cl\<rparr>]) ! unat k = None"
  proof
    fix k assume k: "k \<in> set (butlast (free (embargoID c)))"
    then have kin: "k \<in> set (free (embargoID c))" by (rule in_set_butlastD)
    then have kr: "unat k < length (embargoes c)" "embargoes c ! unat k = None"
      using ok by (auto simp: idgen_ok_def)
    have "k \<noteq> i" using k notin by auto
    then have "unat k \<noteq> unat i" by (simp add: word_unat_eq_iff)
    then show "unat k < length (embargoes c) \<and>
        ((embargoes c)[unat i := Some \<lparr>emb_client = cl\<rparr>]) ! unat k = None"
      using kr by simp
  qed
  have g: "unat (gen_i (embargoID c)) = length (embargoes c)"
    using ok by (simp add: idgen_ok_def)
  show ?thesis
    using False ir rest g d
    by (simp add: embargo_def idgen_next_def idgen_ok_def Let_def i_def[symmetric] distinct_butlast)
qed

lemma loop_ids:
  assumes "parseReturn_loop X cont locals qid xs (c, mtab, caps, ds) = (c', mtab', caps', ds')"
    and "idgen_ok (embargoID c) (embargoes c)"
    and "length (embargoes c) + length xs < 2 ^ 32"
  shows "idgen_ok (embargoID c') (embargoes c')
     \<and> length (embargoes c) \<le> length (embargoes c')
     \<and> length (embargoes c') \<le> length (embargoes c) + length xs
     \<and> (\<forall>j<length (embargoes c). embargoes c ! j \<noteq> None \<longrightarrow> embargoes c' ! j = embargoes c ! j)
     \<and> (\<exists>new. ds' = ds @ new \<and> distinct (map sl_id new)
          \<and> (\<forall>d\<in>set new.
                (unat (sl_id d) < length (embargoes c) \<longrightarrow> embargoes c ! unat (sl_id d) = None)
                \<and> unat (sl_id d) < length (embargoes c')
                \<and> (\<forall>k. reaches X cont (sl_transform d) = Some k \<longrightarrow>
                      embargoes c' ! unat (sl_id d) = Some \<lparr>emb_client = mtab ! unat k\<rparr>)))"
  using assms
proof (induction xs arbitrary: c mtab caps ds)
  case Nil
  then show ?case by simp
next
  case (Cons x xs)
  show ?case
  proof (cases "reaches X cont x = None \<or>
           (\<exists>i. reaches X cont x = Some i \<and>
                (unat i \<ge> length mtab \<or> unat i \<notin> locals \<or> unat i \<in> caps))")
    case True
    have st: "parseReturn_loop X cont locals qid xs (c, mtab, caps, ds) = (c', mtab', caps', ds')"
      using Cons.prems(1) loop_skip[OF True] by simp
    have l0: "length (embargoes c) + length xs < 2 ^ 32" using Cons.prems(3) by simp
    note r = Cons.IH[OF st Cons.prems(2) l0]
    have "length (embargoes c') \<le> length (embargoes c) + length (x # xs)"
      using r[THEN conjunct2, THEN conjunct2, THEN conjunct1] by simp
    then show ?thesis
      using r[THEN conjunct1] r[THEN conjunct2, THEN conjunct1]
        r[THEN conjunct2, THEN conjunct2, THEN conjunct2]
      by (intro conjI) simp_all
  next
    case False
    then obtain i where i: "reaches X cont x = Some i" "unat i < length mtab" "unat i \<in> locals"
      "unat i \<notin> caps"
      by (cases "reaches X cont x") auto
    define eid where "eid = fst (embargo c (mtab ! unat i))"
    define c1 where "c1 = snd (snd (embargo c (mtab ! unat i)))"
    define d0 where "d0 = \<lparr>sl_id = eid, sl_question = qid, sl_transform = x\<rparr>"
    define mtab1 where "mtab1 = mtab[unat i := EmbargoClient eid (mtab ! unat i)]"
    have step: "parseReturn_loop X cont locals qid xs (c1, mtab1, insert (unat i) caps, ds @ [d0])
                  = (c', mtab', caps', ds')"
      using Cons.prems(1) loop_embargo[OF i] by (simp add: eid_def c1_def d0_def mtab1_def)
    have l1: "length (embargoes c) + 1 < 2 ^ 32" using Cons.prems(3) by simp
    note es = embargo_step[OF Cons.prems(2) l1, of "mtab ! unat i", folded eid_def c1_def]
    have e1: "unat eid < length (embargoes c) \<longrightarrow> embargoes c ! unat eid = None"
      and e2: "unat eid < length (embargoes c1)"
      and e3: "embargoes c1 ! unat eid = Some \<lparr>emb_client = mtab ! unat i\<rparr>"
      and e4: "\<forall>j<length (embargoes c). j \<noteq> unat eid \<longrightarrow> embargoes c1 ! j = embargoes c ! j"
      and e5: "length (embargoes c) \<le> length (embargoes c1)"
      and e6: "length (embargoes c1) \<le> length (embargoes c) + 1"
      and e7: "idgen_ok (embargoID c1) (embargoes c1)"
      using es by blast+
    have l2: "length (embargoes c1) + length xs < 2 ^ 32" using Cons.prems(3) e6 by simp
    note r = Cons.IH[OF step e7 l2]
    note r5 = r[THEN conjunct2, THEN conjunct2, THEN conjunct2, THEN conjunct2]
    from r5 obtain new where ih0:
      "ds' = (ds @ [d0]) @ new \<and> distinct (map sl_id new)
          \<and> (\<forall>d\<in>set new.
                (unat (sl_id d) < length (embargoes c1) \<longrightarrow> embargoes c1 ! unat (sl_id d) = None)
                \<and> unat (sl_id d) < length (embargoes c')
                \<and> (\<forall>k. reaches X cont (sl_transform d) = Some k \<longrightarrow>
                      embargoes c' ! unat (sl_id d) = Some \<lparr>emb_client = mtab1 ! unat k\<rparr>))"
      by (rule exE)
    have ih:
      "idgen_ok (embargoID c') (embargoes c')"
      "length (embargoes c1) \<le> length (embargoes c')"
      "length (embargoes c') \<le> length (embargoes c1) + length xs"
      "\<forall>j<length (embargoes c1). embargoes c1 ! j \<noteq> None \<longrightarrow> embargoes c' ! j = embargoes c1 ! j"
      "ds' = (ds @ [d0]) @ new" "distinct (map sl_id new)"
      "\<forall>d\<in>set new.
                (unat (sl_id d) < length (embargoes c1) \<longrightarrow> embargoes c1 ! unat (sl_id d) = None)
                \<and> unat (sl_id d) < length (embargoes c')
                \<and> (\<forall>k. reaches X cont (sl_transform d) = Some k \<longrightarrow>
                      embargoes c' ! unat (sl_id d) = Some \<lparr>emb_client = mtab1 ! unat k\<rparr>)"
      using r[THEN conjunct1] r[THEN conjunct2, THEN conjunct1]
        r[THEN conjunct2, THEN conjunct2, THEN conjunct1]
        r[THEN conjunct2, THEN conjunct2, THEN conjunct2, THEN conjunct1]
        ih0[THEN conjunct1] ih0[THEN conjunct2, THEN conjunct1]
        ih0[THEN conjunct2, THEN conjunct2]
      by - assumption+
    note s3 = loop_structure[OF step, THEN conjunct2, THEN conjunct2]
    from s3 obtain new' where ls0:
      "ds' = (ds @ [d0]) @ new'
          \<and> caps' = insert (unat i) caps \<union> {unat i | i. Some i \<in> (\<lambda>d. reaches X cont (sl_transform d)) ` set new'}
          \<and> (\<forall>d\<in>set new'. sl_question d = qid \<and> sl_transform d \<in> set xs
               \<and> (\<exists>k. reaches X cont (sl_transform d) = Some k \<and> unat k \<notin> insert (unat i) caps
                     \<and> unat k \<in> locals \<and> unat k < length mtab1
                     \<and> mtab' ! unat k = EmbargoClient (sl_id d) (mtab1 ! unat k)))
          \<and> distinct (map (\<lambda>d. reaches X cont (sl_transform d)) new')"
      by (rule exE)
    have same: "new' = new" using ls0[THEN conjunct1] ih(5) by simp
    have ls: "\<forall>d\<in>set new. \<exists>k. reaches X cont (sl_transform d) = Some k \<and> unat k \<notin> insert (unat i) caps"
    proof
      fix d assume "d \<in> set new"
      then have "d \<in> set new'" using same by simp
      with ls0[THEN conjunct2, THEN conjunct2, THEN conjunct1]
      have "\<exists>k. reaches X cont (sl_transform d) = Some k \<and> unat k \<notin> insert (unat i) caps
                     \<and> unat k \<in> locals \<and> unat k < length mtab1
                     \<and> mtab' ! unat k = EmbargoClient (sl_id d) (mtab1 ! unat k)"
        by blast
      then show "\<exists>k. reaches X cont (sl_transform d) = Some k \<and> unat k \<notin> insert (unat i) caps"
        by blast
    qed
    have live: "\<forall>j<length (embargoes c). embargoes c ! j \<noteq> None \<longrightarrow> embargoes c' ! j = embargoes c ! j"
    proof (intro allI impI)
      fix j assume j: "j < length (embargoes c)" "embargoes c ! j \<noteq> None"
      then have "j \<noteq> unat eid" using e1 by auto
      then have "embargoes c1 ! j = embargoes c ! j" using e4 j(1) by simp
      moreover have "j < length (embargoes c1)" using j(1) e5 by simp
      ultimately show "embargoes c' ! j = embargoes c ! j" using ih(4) j(2) by simp
    qed
    have d0ok: "(unat (sl_id d0) < length (embargoes c) \<longrightarrow> embargoes c ! unat (sl_id d0) = None)
                \<and> unat (sl_id d0) < length (embargoes c')
                \<and> (\<forall>k. reaches X cont (sl_transform d0) = Some k \<longrightarrow>
                      embargoes c' ! unat (sl_id d0) = Some \<lparr>emb_client = mtab ! unat k\<rparr>)"
      using e1 e2 e3 ih(2) ih(4) i(1) by (auto simp: d0_def)
    have restok: "\<forall>d\<in>set new.
                (unat (sl_id d) < length (embargoes c) \<longrightarrow> embargoes c ! unat (sl_id d) = None)
                \<and> unat (sl_id d) < length (embargoes c')
                \<and> (\<forall>k. reaches X cont (sl_transform d) = Some k \<longrightarrow>
                      embargoes c' ! unat (sl_id d) = Some \<lparr>emb_client = mtab ! unat k\<rparr>)
                \<and> sl_id d \<noteq> eid"
    proof
      fix d assume d: "d \<in> set new"
      from ih(7) d have a: "unat (sl_id d) < length (embargoes c1) \<longrightarrow> embargoes c1 ! unat (sl_id d) = None"
        and b: "unat (sl_id d) < length (embargoes c')"
        and cc: "\<forall>k. reaches X cont (sl_transform d) = Some k \<longrightarrow>
                      embargoes c' ! unat (sl_id d) = Some \<lparr>emb_client = mtab1 ! unat k\<rparr>"
        by blast+
      have ne: "sl_id d \<noteq> eid"
      proof
        assume "sl_id d = eid"
        then show False using a e2 e3 by simp
      qed
      then have neu: "unat (sl_id d) \<noteq> unat eid" by (simp add: word_unat_eq_iff)
      have fresh: "unat (sl_id d) < length (embargoes c) \<longrightarrow> embargoes c ! unat (sl_id d) = None"
      proof
        assume lt: "unat (sl_id d) < length (embargoes c)"
        then have "embargoes c1 ! unat (sl_id d) = embargoes c ! unat (sl_id d)"
          using e4 neu by simp
        moreover have "unat (sl_id d) < length (embargoes c1)" using lt e5 by simp
        ultimately show "embargoes c ! unat (sl_id d) = None" using a by simp
      qed
      from ls d obtain k0 where k0: "reaches X cont (sl_transform d) = Some k0"
        "unat k0 \<notin> insert (unat i) caps" by blast
      have cl: "\<forall>k. reaches X cont (sl_transform d) = Some k \<longrightarrow>
                      embargoes c' ! unat (sl_id d) = Some \<lparr>emb_client = mtab ! unat k\<rparr>"
      proof (intro allI impI)
        fix k assume k: "reaches X cont (sl_transform d) = Some k"
        then have "k = k0" using k0(1) by simp
        then have "unat k \<noteq> unat i" using k0(2) by auto
        then have "mtab1 ! unat k = mtab ! unat k" by (simp add: mtab1_def)
        then show "embargoes c' ! unat (sl_id d) = Some \<lparr>emb_client = mtab ! unat k\<rparr>"
          using cc k by simp
      qed
      show "(unat (sl_id d) < length (embargoes c) \<longrightarrow> embargoes c ! unat (sl_id d) = None)
                \<and> unat (sl_id d) < length (embargoes c')
                \<and> (\<forall>k. reaches X cont (sl_transform d) = Some k \<longrightarrow>
                      embargoes c' ! unat (sl_id d) = Some \<lparr>emb_client = mtab ! unat k\<rparr>)
                \<and> sl_id d \<noteq> eid"
        using fresh b cl ne by blast
    qed
    have dist: "distinct (map sl_id (d0 # new))"
      using ih(6) restok by (auto simp: d0_def)
    have all: "\<forall>d\<in>set (d0 # new).
                (unat (sl_id d) < length (embargoes c) \<longrightarrow> embargoes c ! unat (sl_id d) = None)
                \<and> unat (sl_id d) < length (embargoes c')
                \<and> (\<forall>k. reaches X cont (sl_transform d) = Some k \<longrightarrow>
                      embargoes c' ! unat (sl_id d) = Some \<lparr>emb_client = mtab ! unat k\<rparr>)"
      using d0ok restok by simp
    have lens: "length (embargoes c) \<le> length (embargoes c')"
      "length (embargoes c') \<le> length (embargoes c) + length (x # xs)"
      using e5 e6 ih(2,3) by simp_all
    show ?thesis
      apply (intro conjI)
          apply (rule ih(1))
         apply (rule lens(1))
        apply (rule lens(2))
       apply (rule live)
      apply (rule exI[of _ "d0 # new"])
      using ih(5) dist all apply simp
      done
  qed
qed

lemma recvCap_embargoes:
  "recvCap X c d = (cl, err, c') \<Longrightarrow> embargoes c' = embargoes c \<and> embargoID c' = embargoID c"
  by (auto simp: recvCap_def addImport_def split: CapDescriptor.splits option.splits sum.splits)

lemma recvCaps_embargoes:
  "recvCaps X c ds mtab locals = Some (r, c') \<Longrightarrow> embargoes c' = embargoes c \<and> embargoID c' = embargoID c"
proof (induction ds arbitrary: c mtab locals)
  case Nil
  then show ?case by simp
next
  case (Cons d ds)
  obtain cl err c1 where rc: "recvCap X c d = (cl, err, c1)" by (cases "recvCap X c d") auto
  note f = recvCap_embargoes[OF rc]
  show ?case
  proof (cases err)
    case (Some e)
    then show ?thesis using Cons.prems rc f by (auto simp: emit_def split: if_splits)
  next
    case None
    then have "recvCaps X c1 ds (mtab @ [cl])
        (if isLocalClient c1 cl then insert (length mtab) locals else locals) = Some (r, c')"
      using Cons.prems rc by simp
    from Cons.IH[OF this] f show ?thesis by simp
  qed
qed

lemma recvPayload_embargoes:
  assumes "recvPayload X c payload tab = Some (p, locals, err, tab', c')"
  shows "embargoes c' = embargoes c \<and> embargoID c' = embargoID c"
proof (cases payload)
  case NullPayload
  then show ?thesis using assms by (simp add: recvPayload_def)
next
  case (Payload cont ptab)
  show ?thesis
  proof (cases "tab \<noteq> None \<or> (\<exists>e. cont = Inl e) \<or> (\<exists>e. ptab = Inl e)")
    case True
    then show ?thesis using assms Payload
      by (auto simp: recvPayload_def emit_def split: sum.splits if_splits)
  next
    case False
    then obtain p0 ds where pd: "tab = None" "cont = Inr p0" "ptab = Inr ds"
      by (cases cont; cases ptab) auto
    from assms Payload pd obtain r c1 where rc: "recvCaps X c ds [] {} = Some (r, c1)"
      by (cases "recvCaps X c ds [] {}") (auto simp: recvPayload_def)
    have "c' = c1" using assms Payload pd rc
      by (auto simp: recvPayload_def split: sum.splits prod.splits)
    then show ?thesis using recvCaps_embargoes[OF rc] by simp
  qed
qed

lemma recvPayload_locals_bound:
  assumes "recvPayload X c payload tab = Some (p, locals, None, Some mtab0, c')"
  shows "\<forall>j\<in>locals. j < length mtab0"
proof (cases payload)
  case NullPayload
  then show ?thesis using assms by (simp add: recvPayload_def)
next
  case (Payload cont ptab)
  show ?thesis
  proof (cases "tab \<noteq> None \<or> (\<exists>e. cont = Inl e) \<or> (\<exists>e. ptab = Inl e)")
    case True
    then show ?thesis using assms Payload
      by (auto simp: recvPayload_def emit_def split: sum.splits if_splits)
  next
    case False
    then obtain p0 ds where pd: "tab = None" "cont = Inr p0" "ptab = Inr ds"
      by (cases cont; cases ptab) auto
    have "recvPayload X c (Payload (Inr p0) (Inr ds)) None = Some (p, locals, None, Some mtab0, c')"
      using assms Payload pd by simp
    from recvPayload_locals[OF this] show ?thesis by simp
  qed
qed

text \<open>
  \<^verbatim>\<open>parseReturn\<close> and \<^verbatim>\<open>handleReturn\<close> return when every release returns.
\<close>

lemma parseReturn_returns:
  assumes "\<forall>cl. Release_returns X (self c) cl"
  shows "parseReturn X c ret paths \<noteq> None"
proof (cases "\<exists>payload. ret_which ret = Ret_results (Inr payload)")
  case True
  then obtain payload where r: "ret_which ret = Ret_results (Inr payload)" by blast
  from recvPayload_returns[OF assms] obtain x
    where "recvPayload X c payload (ret_Message_CapTable ret) = Some x"
    by blast
  then show ?thesis using r
    by (cases x) (auto simp: parseReturn_def split: option.splits prod.splits)
next
  case False
  then show ?thesis
    by (auto simp: parseReturn_def split: Return_union.splits sum.splits)
qed

lemma handleReturn_returns:
  assumes "\<forall>cl. Release_returns X (self c) cl"
  shows "handleReturn X c ret rel \<noteq> None"
proof -
  have ne: "parseReturn X (c\<lparr>questions := qs, qheap := h\<rparr>) ret paths \<noteq> None" for qs h paths
    by (rule parseReturn_returns) (simp add: assms)
  show ?thesis
    by (simp add: handleReturn_def Let_def ne split: option.splits)
qed

lemma parseReturn_results:
  assumes "ret_which ret = Ret_results (Inr payload)"
    and "recvPayload X c payload (ret_Message_CapTable ret) = Some (cont, locals, None, Some mtab0, c1)"
    and "parseReturn X c ret paths = Some (pr, c2)"
  shows "\<exists>mtab caps. parseReturn_loop X cont locals (ret_answerId ret) paths (c1, mtab0, {}, [])
            = (c2, mtab, caps, pr_disembargoes pr)
          \<and> pr_CapTable pr = Some mtab \<and> pr_err pr = None \<and> pr_result pr = cont
          \<and> \<not> parseFailed pr"
proof -
  obtain c2' mtab caps ds where l:
    "parseReturn_loop X cont locals (ret_answerId ret) paths (c1, mtab0, {}, []) = (c2', mtab, caps, ds)"
    by (cases "parseReturn_loop X cont locals (ret_answerId ret) paths (c1, mtab0, {}, [])") auto
  have "pr = \<lparr>pr_result = cont, pr_CapTable = Some mtab, pr_disembargoes = ds, pr_err = None,
             parseFailed = False, pr_unimplemented = False\<rparr> \<and> c2 = c2'"
    using assms l by (simp add: parseReturn_def)
  then show ?thesis using l by simp
qed

lemma loop_first_path:
  assumes l: "parseReturn_loop X cont locals qid (pre @ x # post) (c, mtab0, {}, []) = (c', mtab, caps, ds)"
    and i: "reaches X cont x = Some i" "unat i \<in> locals" "unat i < length mtab0"
    and pre: "\<forall>y\<in>set pre. reaches X cont y \<noteq> Some i"
  shows "\<exists>d\<in>set ds. sl_transform d = x \<and> sl_question d = qid
           \<and> mtab ! unat i = EmbargoClient (sl_id d) (mtab0 ! unat i)"
proof -
  obtain ca ma capsa dsa where a:
    "parseReturn_loop X cont locals qid pre (c, mtab0, {}, []) = (ca, ma, capsa, dsa)"
    by (cases "parseReturn_loop X cont locals qid pre (c, mtab0, {}, [])") auto
  note sa = loop_structure[OF a]
  have lena: "length ma = length mtab0" using sa by blast
  from sa[THEN conjunct2, THEN conjunct2] obtain newa where na:
    "dsa = [] @ newa
          \<and> capsa = {} \<union> {unat i | i. Some i \<in> (\<lambda>d. reaches X cont (sl_transform d)) ` set newa}
          \<and> (\<forall>d\<in>set newa. sl_question d = qid \<and> sl_transform d \<in> set pre
               \<and> (\<exists>i. reaches X cont (sl_transform d) = Some i \<and> unat i \<notin> {} \<and> unat i \<in> locals
                     \<and> unat i < length mtab0
                     \<and> ma ! unat i = EmbargoClient (sl_id d) (mtab0 ! unat i)))
          \<and> distinct (map (\<lambda>d. reaches X cont (sl_transform d)) newa)"
    by (rule exE)
  have notin: "unat i \<notin> capsa"
  proof
    assume "unat i \<in> capsa"
    then obtain k where k: "unat i = unat k" "Some k \<in> (\<lambda>d. reaches X cont (sl_transform d)) ` set newa"
      using na[THEN conjunct2, THEN conjunct1] by auto
    then have "k = i" by (simp add: word_unat_eq_iff)
    then obtain d where d: "d \<in> set newa" "reaches X cont (sl_transform d) = Some i"
      using k(2) by auto
    then have "sl_transform d \<in> set pre" using na[THEN conjunct2, THEN conjunct2, THEN conjunct1] by blast
    then show False using pre d(2) by blast
  qed
  have keepa: "ma ! unat i = mtab0 ! unat i"
    using sa[THEN conjunct2, THEN conjunct1] notin by blast
  define eid where "eid = fst (embargo ca (ma ! unat i))"
  define cb where "cb = snd (snd (embargo ca (ma ! unat i)))"
  define d0 where "d0 = \<lparr>sl_id = eid, sl_question = qid, sl_transform = x\<rparr>"
  define mb where "mb = ma[unat i := EmbargoClient eid (ma ! unat i)]"
  have ib: "unat i < length ma" using i(3) lena by simp
  have b: "parseReturn_loop X cont locals qid post (cb, mb, insert (unat i) capsa, dsa @ [d0])
             = (c', mtab, caps, ds)"
    using l a loop_embargo[OF i(1) ib i(2) notin, of qid post ca dsa]
    by (simp add: loop_append eid_def cb_def d0_def mb_def)
  note sb = loop_structure[OF b]
  have "mtab ! unat i = mb ! unat i"
    using sb[THEN conjunct2, THEN conjunct1] by blast
  then have at: "mtab ! unat i = EmbargoClient eid (mtab0 ! unat i)"
    using ib keepa by (simp add: mb_def)
  from sb[THEN conjunct2, THEN conjunct2] obtain newb where "ds = (dsa @ [d0]) @ newb"
    by blast
  then have "d0 \<in> set ds" by simp
  moreover have "sl_transform d0 = x" "sl_question d0 = qid" "sl_id d0 = eid"
    by (simp_all add: d0_def)
  ultimately show ?thesis using at by blast
qed

text \<open>
  C1.  Let a Return carry results whose payload \<^verbatim>\<open>recvPayload\<close> accepts, with capability
  table \<open>mtab0\<close> and local indices \<open>locals\<close>.  Every path of \<open>called\<close> that reaches a
  valid interface with a local index which no earlier path has reached gets one
  \<^verbatim>\<open>senderLoopback\<close> in the result of \<^verbatim>\<open>parseReturn\<close>: it names that path and the question
  id of the Return, and the entry of the capability table at the index is the embargo
  wrapper, made with the id in that \<^verbatim>\<open>senderLoopback\<close>, around the client that was there.
  No two entries of the list reach the same index, so an index is embargoed at most
  once however many paths reach it; every entry comes from a path of \<open>called\<close> with a
  local index; the other entries of the table are left alone.  When the embargo id
  generator agrees with the embargo table, the ids are pairwise distinct, none of them
  named an embargo of the table before, and afterwards each names the embargo that holds
  the wrapped client.
\<close>

theorem parseReturn_embargoes:
  assumes res: "ret_which ret = Ret_results (Inr payload)"
    and rp: "recvPayload X c payload (ret_Message_CapTable ret) = Some (cont, locals, None, Some mtab0, c1)"
    and pr: "parseReturn X c ret paths = Some (pr, c2)"
  shows "pr_err pr = None \<and> pr_result pr = cont \<and> \<not> parseFailed pr
    \<and> (\<exists>mtab. pr_CapTable pr = Some mtab \<and> length mtab = length mtab0
        \<and> distinct (map (\<lambda>d. reaches X cont (sl_transform d)) (pr_disembargoes pr))
        \<and> (\<forall>d\<in>set (pr_disembargoes pr).
              sl_question d = ret_answerId ret \<and> sl_transform d \<in> set paths
              \<and> (\<exists>i. reaches X cont (sl_transform d) = Some i \<and> unat i \<in> locals
                    \<and> unat i < length mtab0
                    \<and> mtab ! unat i = EmbargoClient (sl_id d) (mtab0 ! unat i)))
        \<and> (\<forall>j. (\<forall>d\<in>set (pr_disembargoes pr). \<forall>i. reaches X cont (sl_transform d) = Some i
                     \<longrightarrow> j \<noteq> unat i)
               \<longrightarrow> mtab ! j = mtab0 ! j)
        \<and> (\<forall>pre xform post i.
              paths = pre @ xform # post \<and> reaches X cont xform = Some i \<and> unat i \<in> locals
              \<and> (\<forall>y\<in>set pre. reaches X cont y \<noteq> Some i) \<longrightarrow>
              (\<exists>d\<in>set (pr_disembargoes pr).
                  sl_transform d = xform \<and> sl_question d = ret_answerId ret
                  \<and> mtab ! unat i = EmbargoClient (sl_id d) (mtab0 ! unat i)
                  \<and> (\<forall>d'\<in>set (pr_disembargoes pr).
                        reaches X cont (sl_transform d') = Some i \<longrightarrow> d' = d)))
        \<and> (idgen_ok (embargoID c) (embargoes c) \<and> length (embargoes c) + length paths < 2 ^ 32 \<longrightarrow>
              distinct (map sl_id (pr_disembargoes pr))
              \<and> (\<forall>d\<in>set (pr_disembargoes pr).
                    (unat (sl_id d) < length (embargoes c) \<longrightarrow> embargoes c ! unat (sl_id d) = None)
                    \<and> unat (sl_id d) < length (embargoes c2)
                    \<and> (\<forall>k. reaches X cont (sl_transform d) = Some k \<longrightarrow>
                          embargoes c2 ! unat (sl_id d) = Some \<lparr>emb_client = mtab0 ! unat k\<rparr>))))"
proof -
  from parseReturn_results[OF res rp pr] obtain mtab caps where l:
    "parseReturn_loop X cont locals (ret_answerId ret) paths (c1, mtab0, {}, [])
       = (c2, mtab, caps, pr_disembargoes pr)"
    and basic: "pr_CapTable pr = Some mtab" "pr_err pr = None" "pr_result pr = cont" "\<not> parseFailed pr"
    by blast
  let ?ds = "pr_disembargoes pr"
  let ?r = "\<lambda>d. reaches X cont (sl_transform d)"
  note s = loop_structure[OF l]
  have len: "length mtab = length mtab0" using s by blast
  from s[THEN conjunct2, THEN conjunct2] obtain new where n0:
    "?ds = [] @ new
          \<and> caps = {} \<union> {unat i | i. Some i \<in> ?r ` set new}
          \<and> (\<forall>d\<in>set new. sl_question d = ret_answerId ret \<and> sl_transform d \<in> set paths
               \<and> (\<exists>i. reaches X cont (sl_transform d) = Some i \<and> unat i \<notin> {} \<and> unat i \<in> locals
                     \<and> unat i < length mtab0
                     \<and> mtab ! unat i = EmbargoClient (sl_id d) (mtab0 ! unat i)))
          \<and> distinct (map ?r new)"
    by (rule exE)
  have new: "new = ?ds" using n0 by simp
  have caps: "caps = {unat i | i. Some i \<in> ?r ` set ?ds}"
    using n0[THEN conjunct2, THEN conjunct1] new by simp
  have dist: "distinct (map ?r ?ds)"
    using n0[THEN conjunct2, THEN conjunct2, THEN conjunct2] new by simp
  have each: "\<forall>d\<in>set ?ds.
              sl_question d = ret_answerId ret \<and> sl_transform d \<in> set paths
              \<and> (\<exists>i. reaches X cont (sl_transform d) = Some i \<and> unat i \<in> locals
                    \<and> unat i < length mtab0
                    \<and> mtab ! unat i = EmbargoClient (sl_id d) (mtab0 ! unat i))"
    using n0[THEN conjunct2, THEN conjunct2, THEN conjunct1] new by simp
  have keep: "\<forall>j. (\<forall>d\<in>set ?ds. \<forall>i. reaches X cont (sl_transform d) = Some i \<longrightarrow> j \<noteq> unat i)
               \<longrightarrow> mtab ! j = mtab0 ! j"
  proof (intro allI impI)
    fix j assume j: "\<forall>d\<in>set ?ds. \<forall>i. reaches X cont (sl_transform d) = Some i \<longrightarrow> j \<noteq> unat i"
    have "j \<notin> caps"
    proof
      assume "j \<in> caps"
      then obtain i d where "j = unat i" "d \<in> set ?ds" "reaches X cont (sl_transform d) = Some i"
        unfolding caps by force
      then show False using j by blast
    qed
    then show "mtab ! j = mtab0 ! j" using s[THEN conjunct2, THEN conjunct1] by blast
  qed
  have first: "\<forall>pre xform post i.
              paths = pre @ xform # post \<and> reaches X cont xform = Some i \<and> unat i \<in> locals
              \<and> (\<forall>y\<in>set pre. reaches X cont y \<noteq> Some i) \<longrightarrow>
              (\<exists>d\<in>set ?ds.
                  sl_transform d = xform \<and> sl_question d = ret_answerId ret
                  \<and> mtab ! unat i = EmbargoClient (sl_id d) (mtab0 ! unat i)
                  \<and> (\<forall>d'\<in>set ?ds. reaches X cont (sl_transform d') = Some i \<longrightarrow> d' = d))"
  proof (intro allI impI)
    fix pre xform post i
    assume h: "paths = pre @ xform # post \<and> reaches X cont xform = Some i \<and> unat i \<in> locals
              \<and> (\<forall>y\<in>set pre. reaches X cont y \<noteq> Some i)"
    then have p: "paths = pre @ xform # post" and r: "reaches X cont xform = Some i"
      and lo: "unat i \<in> locals" and np: "\<forall>y\<in>set pre. reaches X cont y \<noteq> Some i"
      by blast+
    have bd: "unat i < length mtab0" using recvPayload_locals_bound[OF rp] lo by blast
    from loop_first_path[OF l[unfolded p] r lo bd np]
    obtain d where d: "d \<in> set ?ds" "sl_transform d = xform" "sl_question d = ret_answerId ret"
      "mtab ! unat i = EmbargoClient (sl_id d) (mtab0 ! unat i)"
      by blast
    have uniq: "\<forall>d'\<in>set ?ds. reaches X cont (sl_transform d') = Some i \<longrightarrow> d' = d"
    proof (intro ballI impI)
      fix d' assume d': "d' \<in> set ?ds" "reaches X cont (sl_transform d') = Some i"
      have "inj_on ?r (set ?ds)" using dist by (simp add: distinct_map)
      moreover have "?r d' = ?r d" using d' d(2) r by simp
      ultimately show "d' = d" using d' d(1) by (auto dest: inj_onD)
    qed
    show "\<exists>d\<in>set ?ds.
                  sl_transform d = xform \<and> sl_question d = ret_answerId ret
                  \<and> mtab ! unat i = EmbargoClient (sl_id d) (mtab0 ! unat i)
                  \<and> (\<forall>d'\<in>set ?ds. reaches X cont (sl_transform d') = Some i \<longrightarrow> d' = d)"
      using d uniq by blast
  qed
  have ids: "idgen_ok (embargoID c) (embargoes c) \<and> length (embargoes c) + length paths < 2 ^ 32 \<longrightarrow>
              distinct (map sl_id ?ds)
              \<and> (\<forall>d\<in>set ?ds.
                    (unat (sl_id d) < length (embargoes c) \<longrightarrow> embargoes c ! unat (sl_id d) = None)
                    \<and> unat (sl_id d) < length (embargoes c2)
                    \<and> (\<forall>k. reaches X cont (sl_transform d) = Some k \<longrightarrow>
                          embargoes c2 ! unat (sl_id d) = Some \<lparr>emb_client = mtab0 ! unat k\<rparr>))"
  proof
    assume ok: "idgen_ok (embargoID c) (embargoes c) \<and> length (embargoes c) + length paths < 2 ^ 32"
    have e: "embargoes c1 = embargoes c" "embargoID c1 = embargoID c"
      using recvPayload_embargoes[OF rp] by simp_all
    have ok1: "idgen_ok (embargoID c1) (embargoes c1)"
      "length (embargoes c1) + length paths < 2 ^ 32"
      using ok e by simp_all
    note li = loop_ids[OF l ok1]
    from li[THEN conjunct2, THEN conjunct2, THEN conjunct2, THEN conjunct2] obtain new2 where n2:
      "?ds = [] @ new2 \<and> distinct (map sl_id new2)
          \<and> (\<forall>d\<in>set new2.
                (unat (sl_id d) < length (embargoes c1) \<longrightarrow> embargoes c1 ! unat (sl_id d) = None)
                \<and> unat (sl_id d) < length (embargoes c2)
                \<and> (\<forall>k. reaches X cont (sl_transform d) = Some k \<longrightarrow>
                      embargoes c2 ! unat (sl_id d) = Some \<lparr>emb_client = mtab0 ! unat k\<rparr>))"
      by (rule exE)
    have new2: "new2 = ?ds" using n2 by simp
    show "distinct (map sl_id ?ds)
              \<and> (\<forall>d\<in>set ?ds.
                    (unat (sl_id d) < length (embargoes c) \<longrightarrow> embargoes c ! unat (sl_id d) = None)
                    \<and> unat (sl_id d) < length (embargoes c2)
                    \<and> (\<forall>k. reaches X cont (sl_transform d) = Some k \<longrightarrow>
                          embargoes c2 ! unat (sl_id d) = Some \<lparr>emb_client = mtab0 ! unat k\<rparr>))"
      using n2[THEN conjunct2] unfolding new2 e by simp
  qed
  show ?thesis
    apply (intro conjI)
       apply (rule basic(2))
      apply (rule basic(3))
     apply (rule basic(4))
    apply (rule exI[of _ mtab])
    apply (intro conjI)
          apply (rule basic(1))
         apply (rule len)
        apply (rule dist)
       apply (rule each)
      apply (rule keep)
     apply (rule first)
    apply (rule ids)
    done
qed

lemma recvPayload_echo:
  "recvPayload ext0 conn_exporting payload_echo (ret_Message_CapTable ret_echo)
     = Some (StructPtr [InterfacePtr 0, InterfacePtr 0, InterfacePtr 1], {0}, None,
        Some [LocalClient 5, ImportClient 0 4],
        conn_exporting\<lparr>c_imports := (\<lambda>_. None)(4 := Some \<lparr>imp_wireRefs = 1\<rparr>)\<rparr>)"
  by (simp add: recvPayload_def recvCap_def addImport_def findExport_def payload_echo_def
      ret_echo_def conn_exporting_def conn_q_def NewConn_def)

lemma parseReturn_echo:
  "parseReturn ext0 conn_exporting ret_echo [[0], [1], [2], [0]]
     = Some (\<lparr>pr_result = StructPtr [InterfacePtr 0, InterfacePtr 0, InterfacePtr 1],
         pr_CapTable = Some [EmbargoClient 0 (LocalClient 5), ImportClient 0 4],
         pr_disembargoes = [\<lparr>sl_id = 0, sl_question = 0, sl_transform = [0]\<rparr>],
         pr_err = None, parseFailed = False, pr_unimplemented = False\<rparr>,
        conn_exporting\<lparr>c_imports := (\<lambda>_. None)(4 := Some \<lparr>imp_wireRefs = 1\<rparr>),
                        embargoID := \<lparr>gen_i = 1, free = []\<rparr>,
                        embargoes := [Some \<lparr>emb_client = LocalClient 5\<rparr>]\<rparr>)"
proof -
  have r: "ret_which ret_echo = Ret_results (Inr payload_echo)" "ret_answerId ret_echo = 0"
    by (simp_all add: ret_echo_def)
  show ?thesis
    unfolding parseReturn_def r sum.case Return_union.case recvPayload_echo option.case
    by (simp add: embargo_def idgen_next_def ext0_def conn_exporting_def conn_q_def NewConn_def)
qed

theorem parseReturn_embargoes_witness:
  "ret_which ret_echo = Ret_results (Inr payload_echo)
   \<and> recvPayload ext0 conn_exporting payload_echo (ret_Message_CapTable ret_echo)
       = Some (StructPtr [InterfacePtr 0, InterfacePtr 0, InterfacePtr 1], {0}, None,
          Some [LocalClient 5, ImportClient 0 4],
          conn_exporting\<lparr>c_imports := (\<lambda>_. None)(4 := Some \<lparr>imp_wireRefs = 1\<rparr>)\<rparr>)
   \<and> map_option (pr_disembargoes \<circ> fst) (parseReturn ext0 conn_exporting ret_echo [[0], [1], [2], [0]])
       = Some [\<lparr>sl_id = 0, sl_question = 0, sl_transform = [0]\<rparr>]
   \<and> map_option (pr_CapTable \<circ> fst) (parseReturn ext0 conn_exporting ret_echo [[0], [1], [2], [0]])
       = Some (Some [EmbargoClient 0 (LocalClient 5), ImportClient 0 4])
   \<and> reaches ext0 (StructPtr [InterfacePtr 0, InterfacePtr 0, InterfacePtr 1]) [1] = Some 0
   \<and> idgen_ok (embargoID conn_exporting) (embargoes conn_exporting)
   \<and> length (embargoes conn_exporting) + length [[0], [1], [2], [0 :: 16 word]] < 2 ^ 32
   \<and> distinct (map sl_id
        (pr_disembargoes (fst (the (parseReturn ext0 conn_exporting ret_echo [[0], [1], [2], [0]])))))
   \<and> distinct (map (\<lambda>d. reaches ext0 (StructPtr [InterfacePtr 0, InterfacePtr 0, InterfacePtr 1])
                          (sl_transform d))
        (pr_disembargoes (fst (the (parseReturn ext0 conn_exporting ret_echo [[0], [1], [2], [0]])))))
   \<and> map_option (embargoes \<circ> snd) (parseReturn ext0 conn_exporting ret_echo [[0], [1], [2], [0]])
       = Some [Some \<lparr>emb_client = LocalClient 5\<rparr>]"
proof -
  let ?paths = "[[0], [1], [2], [0 :: 16 word]]"
  let ?cont = "StructPtr [InterfacePtr 0, InterfacePtr 0, InterfacePtr 1]"
  have res: "ret_which ret_echo = Ret_results (Inr payload_echo)" by (simp add: ret_echo_def)
  have ok: "idgen_ok (embargoID conn_exporting) (embargoes conn_exporting)"
    "length (embargoes conn_exporting) + length ?paths < 2 ^ 32"
    by (simp_all add: idgen_ok_def conn_exporting_def conn_q_def NewConn_def)
  have re: "reaches ext0 ?cont [1] = Some 0" by (simp add: reaches_def ext0_def)
  have pr: "parseReturn ext0 conn_exporting ret_echo ?paths
      = Some (fst (the (parseReturn ext0 conn_exporting ret_echo ?paths)),
              snd (the (parseReturn ext0 conn_exporting ret_echo ?paths)))"
    by (simp add: parseReturn_echo)
  note t = parseReturn_embargoes[OF res recvPayload_echo pr]
  from t have m: "distinct (map (\<lambda>d. reaches ext0 ?cont (sl_transform d))
        (pr_disembargoes (fst (the (parseReturn ext0 conn_exporting ret_echo ?paths)))))"
    by blast
  from t ok have d: "distinct (map sl_id
        (pr_disembargoes (fst (the (parseReturn ext0 conn_exporting ret_echo ?paths)))))"
    by blast
  show ?thesis
    using res recvPayload_echo re ok d m by (simp add: parseReturn_echo)
qed

text \<open>
  C3.  A Return for a question that is in the table and already flagged as finished
  makes \<^verbatim>\<open>handleReturn\<close> return nil, take the question out of the table and release the
  message; the promise of the question is not resolved and nothing is enqueued.  If
  \<^verbatim>\<open>finishMsgSend\<close> is closed at that moment, the id goes back to the allocator exactly
  when \<open>finishSent\<close> is set.  If not, the id stays with the question, and the goroutine
  that \<^verbatim>\<open>handleReturn\<close> starts cannot run while the channel is open; when the channel is
  closed it gives the id back exactly when \<open>finishSent\<close> is set.  The Finish callback of
  \<^verbatim>\<open>handleReturn\<close> closes the channel, and sets \<open>finishSent\<close> only for a send without
  error.
\<close>

theorem handleReturn_after_cancel:
  "(unat (ret_answerId ret) < length (questions c) mod 2 ^ 32
    \<and> questions c ! unat (ret_answerId ret) = Some a
    \<and> finished \<in> q_flags (qheap c a) \<longrightarrow>
     (\<exists>c'. handleReturn X c ret rel = Some (None, c')
        \<and> q_resolved (qheap c' a) = q_resolved (qheap c a)
        \<and> trace c' = trace c @ [ReleaseMsg rel]
        \<and> sendq c' = sendq c
        \<and> questions c' = (questions c)[unat (ret_answerId ret) := None]
        \<and> (finishMsgSend (qheap c a) \<longrightarrow>
             spawned c' = spawned c
             \<and> questionID c' =
                 (if finishSent \<in> q_flags (qheap c a)
                  then idgen_remove (questionID c) (ret_answerId ret) else questionID c))
        \<and> (\<not> finishMsgSend (qheap c a) \<longrightarrow>
             spawned c' = spawned c @ [AwaitFinish a (ret_answerId ret)]
             \<and> questionID c' = questionID c)))
   \<and> (\<not> finishMsgSend (qheap s a) \<longrightarrow> run_task X s (AwaitFinish a qid) = None)
   \<and> (finishMsgSend (qheap s a) \<longrightarrow>
        run_task X s (AwaitFinish a qid) =
          Some (if finishSent \<in> q_flags (qheap s a)
                then s\<lparr>questionID := idgen_remove (questionID s) qid\<rparr> else s))
   \<and> finishMsgSend (qheap (run_onSent s (OnSent_finish a qid) err) a)
   \<and> (finishSent \<in> q_flags (qheap (run_onSent s (OnSent_finish a qid) err) a)
        \<longleftrightarrow> err = None \<or> finishSent \<in> q_flags (qheap s a))"
proof (intro conjI)
  show "unat (ret_answerId ret) < length (questions c) mod 2 ^ 32
    \<and> questions c ! unat (ret_answerId ret) = Some a
    \<and> finished \<in> q_flags (qheap c a) \<longrightarrow>
     (\<exists>c'. handleReturn X c ret rel = Some (None, c')
        \<and> q_resolved (qheap c' a) = q_resolved (qheap c a)
        \<and> trace c' = trace c @ [ReleaseMsg rel]
        \<and> sendq c' = sendq c
        \<and> questions c' = (questions c)[unat (ret_answerId ret) := None]
        \<and> (finishMsgSend (qheap c a) \<longrightarrow>
             spawned c' = spawned c
             \<and> questionID c' =
                 (if finishSent \<in> q_flags (qheap c a)
                  then idgen_remove (questionID c) (ret_answerId ret) else questionID c))
        \<and> (\<not> finishMsgSend (qheap c a) \<longrightarrow>
             spawned c' = spawned c @ [AwaitFinish a (ret_answerId ret)]
             \<and> questionID c' = questionID c))"
    by (cases "finishMsgSend (qheap c a)") (simp_all add: handleReturn_def Let_def emit_def)
next
  show "\<not> finishMsgSend (qheap s a) \<longrightarrow> run_task X s (AwaitFinish a qid) = None"
    by simp
next
  show "finishMsgSend (qheap s a) \<longrightarrow>
        run_task X s (AwaitFinish a qid) =
          Some (if finishSent \<in> q_flags (qheap s a)
                then s\<lparr>questionID := idgen_remove (questionID s) qid\<rparr> else s)"
    by simp
next
  show "finishMsgSend (qheap (run_onSent s (OnSent_finish a qid) err) a)"
    by (cases err) (simp_all add: Let_def emit_def)
next
  show "finishSent \<in> q_flags (qheap (run_onSent s (OnSent_finish a qid) err) a)
        \<longleftrightarrow> err = None \<or> finishSent \<in> q_flags (qheap s a)"
    by (cases err) (simp_all add: Let_def emit_def)
qed

theorem handleReturn_after_cancel_witness:
  "unat (ret_answerId ret_echo) < length (questions conn_canceled) mod 2 ^ 32
   \<and> questions conn_canceled ! unat (ret_answerId ret_echo) = Some 0
   \<and> finished \<in> q_flags (qheap conn_canceled 0)
   \<and> \<not> finishMsgSend (qheap conn_canceled 0)
   \<and> map_option fst (handleReturn ext0 conn_canceled ret_echo 1) = Some None
   \<and> map_option (spawned \<circ> snd) (handleReturn ext0 conn_canceled ret_echo 1)
       = Some [AwaitFinish 0 0]
   \<and> map_option (questionID \<circ> snd) (handleReturn ext0 conn_canceled ret_echo 1)
       = Some \<lparr>gen_i = 1, free = []\<rparr>
   \<and> run_task ext0 (snd (the (handleReturn ext0 conn_canceled ret_echo 1))) (AwaitFinish 0 0) = None
   \<and> questions conn_flushed ! unat (ret_answerId ret_echo) = Some 0
   \<and> finishMsgSend (qheap conn_flushed 0)
   \<and> map_option (questionID \<circ> snd) (handleReturn ext0 conn_flushed ret_echo 1)
       = Some \<lparr>gen_i = 1, free = [0]\<rparr>
   \<and> map_option (trace \<circ> snd) (handleReturn ext0 conn_flushed ret_echo 1) = Some [ReleaseMsg 1]"
proof -
  have a: "unat (ret_answerId ret_echo) < length (questions conn_canceled) mod 2 ^ 32"
    "questions conn_canceled ! unat (ret_answerId ret_echo) = Some 0"
    "finished \<in> q_flags (qheap conn_canceled 0)" "\<not> finishMsgSend (qheap conn_canceled 0)"
    "spawned conn_canceled = []" "questionID conn_canceled = \<lparr>gen_i = 1, free = []\<rparr>"
    by (simp_all add: conn_canceled_def conn_q_def NewConn_def ret_echo_def no_question_def)
  have b: "unat (ret_answerId ret_echo) < length (questions conn_flushed) mod 2 ^ 32"
    "questions conn_flushed ! unat (ret_answerId ret_echo) = Some 0"
    "finished \<in> q_flags (qheap conn_flushed 0)" "finishMsgSend (qheap conn_flushed 0)"
    "finishSent \<in> q_flags (qheap conn_flushed 0)" "trace conn_flushed = []"
    "questionID conn_flushed = \<lparr>gen_i = 1, free = []\<rparr>" "ret_answerId ret_echo = 0"
    by (simp_all add: conn_flushed_def conn_q_def NewConn_def ret_echo_def no_question_def)
  let ?s = "snd (the (handleReturn ext0 conn_canceled ret_echo 1))"
  note t1 = handleReturn_after_cancel[of ret_echo conn_canceled 0 ext0 1 ?s 0 None]
  from t1 a(1-3) obtain c1 where h1: "handleReturn ext0 conn_canceled ret_echo 1 = Some (None, c1)"
    and s1: "spawned c1 = [AwaitFinish 0 0]" "questionID c1 = \<lparr>gen_i = 1, free = []\<rparr>"
    using a(4-6) b(8) by auto
  have nf: "\<not> finishMsgSend (qheap ?s 0)"
    using a by (simp add: handleReturn_def Let_def emit_def)
  have t1b: "run_task ext0 ?s (AwaitFinish 0 0) = None"
    using t1 nf by blast
  note t2 = handleReturn_after_cancel[of ret_echo conn_flushed 0 ext0 1 conn_flushed 0 None]
  from t2 b(1-3) obtain c2 where h2: "handleReturn ext0 conn_flushed ret_echo 1 = Some (None, c2)"
    and s2: "questionID c2 = \<lparr>gen_i = 1, free = [0]\<rparr>" "trace c2 = [ReleaseMsg 1]"
    using b(4-8) by (auto simp: idgen_remove_def)
  show ?thesis using a(1-4) b(2,4) h1 s1 t1b h2 s2 by simp
qed

subsection \<open>Messages that cannot be parsed\<close>

text \<open>
  C6, as amended.  When the body of a bootstrap, call, return, finish, release or
  disembargo message cannot be read, that is, when the accessor of the message union
  returns an error, \<^verbatim>\<open>receive\<close> releases the message, reports the error and goes on with
  the next message.  Not every message that cannot be parsed is skipped.  When the body
  of an abort message or the reason in it cannot be read, \<^verbatim>\<open>receive\<close> reports the error,
  releases the message and returns nil: the loop ends there, as it does for every abort
  message.
  When the body of a disembargo message can be read but its target cannot be read, or
  \<^verbatim>\<open>parseMessageTarget\<close> fails on it (as it does when the promised answer or its transform
  cannot be read), \<^verbatim>\<open>handleDisembargo\<close> releases the message and returns the error, and
  \<^verbatim>\<open>receive\<close> returns that error without reporting it and without looking at later
  messages.  An error that \<^verbatim>\<open>receive\<close> returns ends the connection: unless it wraps a
  cancellation, the goroutine of \<^verbatim>\<open>NewConn\<close> that waits for the background tasks reports
  it and shuts the connection down with it as the abort cause.
\<close>

theorem receive_skips_unparsable:
  "receive X c (Incoming \<lparr>im_Message = M_bootstrap (Inl e), im_Release = r, im_err = None\<rparr> # rest)
     = receive X (emit [ReleaseMsg r, ReportError (Errorf ''read bootstrap: %w'' (Some e))] c) rest
   \<and> receive X c (Incoming \<lparr>im_Message = M_call (Inl e), im_Release = r, im_err = None\<rparr> # rest)
     = receive X (emit [ReleaseMsg r, ReportError (Errorf ''read call: %w'' (Some e))] c) rest
   \<and> receive X c (Incoming \<lparr>im_Message = M_return (Inl e), im_Release = r, im_err = None\<rparr> # rest)
     = receive X (emit [ReleaseMsg r, ReportError (Errorf ''read return: %w'' (Some e))] c) rest
   \<and> receive X c (Incoming \<lparr>im_Message = M_finish (Inl e), im_Release = r, im_err = None\<rparr> # rest)
     = receive X (emit [ReleaseMsg r, ReportError (Errorf ''read finish: %w'' (Some e))] c) rest
   \<and> receive X c (Incoming \<lparr>im_Message = M_release (Inl e), im_Release = r, im_err = None\<rparr> # rest)
     = receive X (emit [ReleaseMsg r, ReportError (Errorf ''read release: %w'' (Some e))] c) rest
   \<and> receive X c (Incoming \<lparr>im_Message = M_disembargo (Inl e), im_Release = r, im_err = None\<rparr> # rest)
     = receive X (emit [ReleaseMsg r, ReportError (Errorf ''read disembargo: %w'' (Some e))] c) rest
   \<and> receive X c (Incoming \<lparr>im_Message = M_abort (Inl e), im_Release = r, im_err = None\<rparr> # rest)
     = (Returned None, emit [ReportError (Errorf ''read abort: %w'' (Some e)), ReleaseMsg r] c)
   \<and> receive X c
        (Incoming \<lparr>im_Message = M_abort (Inr \<lparr>exc_type = ty, exc_reason = Inl e\<rparr>),
                   im_Release = r, im_err = None\<rparr> # rest)
     = (Returned None, emit [ReportError (Errorf ''read abort: reason: %w'' (Some e)), ReleaseMsg r] c)
   \<and> receive X c
        (Incoming \<lparr>im_Message = M_disembargo (Inr \<lparr>d_target = Inl e, d_context = ctx\<rparr>),
                   im_Release = r, im_err = None\<rparr> # rest)
     = (Returned (Some (Failedf ''incoming disembargo: read target: %w'' (Some e))),
        emit [ReleaseMsg r] c)
   \<and> (parseMessageTarget t = Inl err \<longrightarrow>
        receive X c
          (Incoming \<lparr>im_Message = M_disembargo (Inr \<lparr>d_target = Inr t, d_context = ctx\<rparr>),
                     im_Release = r, im_err = None\<rparr> # rest)
        = (Returned (Some (Annotate err ''incoming disembargo'')), emit [ReleaseMsg r] c))
   \<and> parseMessageTarget (MT_promisedAnswer (Inl e))
        = Inl (Failedf ''read target answer: %w'' (Some e))
   \<and> parseMessageTarget (MT_promisedAnswer (Inr \<lparr>pa_questionId = q, pa_transform = Inl e\<rparr>))
        = Inl (Failedf ''read target transform: %w'' (Some e))
   \<and> (\<not> closing c \<and> \<not> is_Canceled err' \<longrightarrow>
        (\<exists>c'. monitor X (emit [ReleaseMsg r] c) (backgroundTask (Some err')) = Some c'
           \<and> closing c' \<and> closed c' \<and> transport_closed c'
           \<and> ReportError err' \<in> set (trace c')
           \<and> (NewMessage X (allocs c) = None \<and> BuildErr X (allocs c) = None
                \<longrightarrow> TransportSend (Out_abort (exc_TypeOf err') err') \<in> set (trace c'))))"
proof (intro conjI impI)
  assume p: "parseMessageTarget t = Inl err"
  show "receive X c
          (Incoming \<lparr>im_Message = M_disembargo (Inr \<lparr>d_target = Inr t, d_context = ctx\<rparr>),
                     im_Release = r, im_err = None\<rparr> # rest)
        = (Returned (Some (Annotate err ''incoming disembargo'')), emit [ReleaseMsg r] c)"
    using p by (simp add: Let_def handleDisembargo_def)
next
  assume a: "\<not> closing c \<and> \<not> is_Canceled err'"
  from monitor_first[of "emit [ReleaseMsg r] c" err' X] a
  show "\<exists>c'. monitor X (emit [ReleaseMsg r] c) (backgroundTask (Some err')) = Some c'
           \<and> closing c' \<and> closed c' \<and> transport_closed c'
           \<and> ReportError err' \<in> set (trace c')
           \<and> (NewMessage X (allocs c) = None \<and> BuildErr X (allocs c) = None
                \<longrightarrow> TransportSend (Out_abort (exc_TypeOf err') err') \<in> set (trace c'))"
    by (auto simp: backgroundTask_def emit_def)
qed (simp_all add: Let_def handleDisembargo_def parseMessageTarget_def)

theorem receive_skips_unparsable_witness:
  "parseMessageTarget (MT_promisedAnswer (Inl (External 1)))
     = Inl (Failedf ''read target answer: %w'' (Some (External 1)))
   \<and> receive ext0 (NewConn 0 NullClient)
       [Incoming \<lparr>im_Message = M_disembargo (Inr
                    \<lparr>d_target = Inr (MT_promisedAnswer (Inl (External 1))),
                     d_context = DC_senderLoopback 77\<rparr>),
                  im_Release = 1, im_err = None\<rparr>,
        Incoming \<lparr>im_Message = M_finish (Inl (External 2)), im_Release = 2, im_err = None\<rparr>]
     = (Returned (Some (Annotate (Failedf ''read target answer: %w'' (Some (External 1)))
                          ''incoming disembargo'')),
        emit [ReleaseMsg 1] (NewConn 0 NullClient))
   \<and> \<not> closing (NewConn 0 NullClient)
   \<and> \<not> is_Canceled (Annotate (Failedf ''read target answer: %w'' (Some (External 1)))
                        ''incoming disembargo'')
   \<and> (case monitor ext0 (emit [ReleaseMsg 1] (NewConn 0 NullClient))
              (backgroundTask (Some (Annotate (Failedf ''read target answer: %w'' (Some (External 1)))
                                       ''incoming disembargo''))) of
        None \<Rightarrow> False
      | Some c' \<Rightarrow>
          closing c' \<and> closed c'
          \<and> ReportError (Annotate (Failedf ''read target answer: %w'' (Some (External 1)))
                            ''incoming disembargo'') \<in> set (trace c')
          \<and> TransportSend
               (Out_abort Failed (Annotate (Failedf ''read target answer: %w'' (Some (External 1)))
                                    ''incoming disembargo'')) \<in> set (trace c'))"
proof -
  let ?t = "MT_promisedAnswer (Inl (External 1))"
  let ?e = "Failedf ''read target answer: %w'' (Some (External 1))"
  let ?a = "Annotate ?e ''incoming disembargo''"
  let ?rest = "[Incoming \<lparr>im_Message = M_finish (Inl (External 2)), im_Release = 2, im_err = None\<rparr>]"
  note t = receive_skips_unparsable[of ext0 "NewConn 0 NullClient" "External 1" 1 ?rest Failed
      "DC_senderLoopback 77" ?t ?e 0 ?a]
  have p: "parseMessageTarget ?t = Inl ?e" using t by blast
  have nc: "\<not> closing (NewConn 0 NullClient)" by (simp add: NewConn_def)
  have ni: "\<not> is_Canceled ?a" "exc_TypeOf ?a = Failed" by (simp_all add: Annotate_def Failedf_def)
  have ok: "NewMessage ext0 (allocs (NewConn 0 NullClient)) = None"
    "BuildErr ext0 (allocs (NewConn 0 NullClient)) = None"
    by (simp_all add: ext0_def)
  from t p have r: "receive ext0 (NewConn 0 NullClient)
       (Incoming \<lparr>im_Message = M_disembargo (Inr \<lparr>d_target = Inr ?t, d_context = DC_senderLoopback 77\<rparr>),
                  im_Release = 1, im_err = None\<rparr> # ?rest)
     = (Returned (Some ?a), emit [ReleaseMsg 1] (NewConn 0 NullClient))"
    by blast
  from t nc ni ok obtain c' where m:
    "monitor ext0 (emit [ReleaseMsg 1] (NewConn 0 NullClient)) (backgroundTask (Some ?a)) = Some c'"
    "closing c'" "closed c'" "ReportError ?a \<in> set (trace c')"
    "TransportSend (Out_abort Failed ?a) \<in> set (trace c')"
    by auto
  show ?thesis using p r nc ni(1) m by simp
qed

text \<open>
  C6 as stated fails for abort: after an abort message that cannot be read the loop has
  returned, and the message behind it is never looked at (had the loop gone on, it would
  have released and reported it, as the second equation shows).
\<close>

theorem receive_unparsable_abort_counterexample:
  "receive ext0 (NewConn 0 NullClient)
     [Incoming \<lparr>im_Message = M_abort (Inl (External 1)), im_Release = 1, im_err = None\<rparr>,
      Incoming \<lparr>im_Message = M_finish (Inl (External 2)), im_Release = 2, im_err = None\<rparr>]
     = (Returned None,
        emit [ReportError (Errorf ''read abort: %w'' (Some (External 1))), ReleaseMsg 1]
          (NewConn 0 NullClient))
   \<and> receive ext0
        (emit [ReportError (Errorf ''read abort: %w'' (Some (External 1))), ReleaseMsg 1]
           (NewConn 0 NullClient))
        [Incoming \<lparr>im_Message = M_finish (Inl (External 2)), im_Release = 2, im_err = None\<rparr>]
     = (Waiting,
        emit [ReportError (Errorf ''read abort: %w'' (Some (External 1))), ReleaseMsg 1,
              ReleaseMsg 2, ReportError (Errorf ''read finish: %w'' (Some (External 2)))]
          (NewConn 0 NullClient))"
  by (simp add: Let_def emit_def)

subsection \<open>Capabilities that cannot be received\<close>

lemma recvCap_keeps:
  "recvCap X c d = (cl, err, c') \<Longrightarrow>
     self c' = self c \<and> exports c' = exports c \<and> spawned c' = spawned c \<and> trace c' = trace c"
  by (auto simp: recvCap_def addImport_def split: CapDescriptor.splits option.splits sum.splits)

lemma recvCaps_keeps:
  "recvCaps X c ds mtab locals = Some (r, c') \<Longrightarrow>
     self c' = self c \<and> exports c' = exports c \<and> spawned c' = spawned c
     \<and> (\<forall>x. r = Inr x \<longrightarrow> trace c' = trace c)"
proof (induction ds arbitrary: c mtab locals)
  case Nil
  then show ?case by auto
next
  case (Cons d ds)
  obtain cl err c1 where rc: "recvCap X c d = (cl, err, c1)" by (cases "recvCap X c d") auto
  note f = recvCap_keeps[OF rc]
  show ?case
  proof (cases err)
    case (Some e)
    then show ?thesis using Cons.prems rc f by (auto simp: emit_def split: if_splits)
  next
    case None
    then have "recvCaps X c1 ds (mtab @ [cl])
        (if isLocalClient c1 cl then insert (length mtab) locals else locals) = Some (r, c')"
      using Cons.prems rc by simp
    from Cons.IH[OF this] f show ?thesis by simp
  qed
qed

lemma recvCaps_append:
  "recvCaps X c pre mtab0 locals0 = Some (Inr (mtab, locals), c1) \<Longrightarrow>
     recvCaps X c (pre @ rest) mtab0 locals0 = recvCaps X c1 rest mtab locals"
proof (induction pre arbitrary: c mtab0 locals0)
  case Nil
  then show ?case by simp
next
  case (Cons d pre)
  obtain cl err c' where rc: "recvCap X c d = (cl, err, c')" by (cases "recvCap X c d") auto
  show ?case
  proof (cases err)
    case (Some e)
    then show ?thesis using Cons.prems rc by (simp split: if_splits)
  next
    case None
    then have "recvCaps X c' pre (mtab0 @ [cl])
        (if isLocalClient c' cl then insert (length mtab0) locals0 else locals0)
          = Some (Inr (mtab, locals), c1)"
      using Cons.prems rc by simp
    from Cons.IH[OF this] show ?thesis using rc None by simp
  qed
qed

lemma recvCap_upd:
  "recvCap X (c\<lparr>questions := qs, qheap := h\<rparr>) d =
     (case recvCap X c d of (cl, e, c') \<Rightarrow> (cl, e, c'\<lparr>questions := qs, qheap := h\<rparr>))"
  by (simp add: recvCap_def addImport_def findExport_def
      split: CapDescriptor.splits option.splits sum.splits)

lemma recvCaps_upd:
  "recvCaps X (c\<lparr>questions := qs, qheap := h\<rparr>) ds mtab locals =
     map_option (\<lambda>(r, c'). (r, c'\<lparr>questions := qs, qheap := h\<rparr>)) (recvCaps X c ds mtab locals)"
proof (induction ds arbitrary: c mtab locals)
  case Nil
  show ?case by simp
next
  case (Cons d ds)
  obtain cl err c' where rc: "recvCap X c d = (cl, err, c')" by (cases "recvCap X c d") auto
  have rc': "recvCap X (c\<lparr>questions := qs, qheap := h\<rparr>) d = (cl, err, c'\<lparr>questions := qs, qheap := h\<rparr>)"
    by (simp add: recvCap_upd rc)
  have loc: "isLocalClient (c'\<lparr>questions := qs, qheap := h\<rparr>) cl = isLocalClient c' cl"
    by (rule isLocalClient_self) simp
  show ?case
    by (cases err) (simp_all add: rc rc' loc Cons.IH emit_def)
qed

lemma recvPayload_upd:
  "recvPayload X (c\<lparr>questions := qs, qheap := h\<rparr>) payload tab =
     map_option (\<lambda>(p, l, e, t, c'). (p, l, e, t, c'\<lparr>questions := qs, qheap := h\<rparr>))
       (recvPayload X c payload tab)"
  by (auto simp: recvPayload_def recvCaps_upd emit_def
      split: Payload.splits sum.splits option.splits prod.splits)

lemma recvPayload_keeps:
  assumes "recvPayload X c payload tab = Some (p, locals, err, tab', c')"
  shows "spawned c' = spawned c"
proof (cases payload)
  case NullPayload
  then show ?thesis using assms by (simp add: recvPayload_def)
next
  case (Payload cont ptab)
  show ?thesis
  proof (cases "tab \<noteq> None \<or> (\<exists>e. cont = Inl e) \<or> (\<exists>e. ptab = Inl e)")
    case True
    then show ?thesis using assms Payload
      by (auto simp: recvPayload_def emit_def split: sum.splits if_splits)
  next
    case False
    then obtain p0 ds where pd: "tab = None" "cont = Inr p0" "ptab = Inr ds"
      by (cases cont; cases ptab) auto
    from assms Payload pd obtain r c1 where rc: "recvCaps X c ds [] {} = Some (r, c1)"
      by (cases "recvCaps X c ds [] {}") (auto simp: recvPayload_def)
    have "c' = c1" using assms Payload pd rc
      by (auto simp: recvPayload_def split: sum.splits prod.splits)
    then show ?thesis using recvCaps_keeps[OF rc] by simp
  qed
qed

lemma recvPayload_missing_export:
  assumes f: "findExport c i = None"
    and pre: "recvCaps X c pre [] {} = Some (Inr (mtab, locals), c1)"
    and rel: "list_all (Release_returns X (self c)) mtab"
  shows "recvPayload X c (Payload (Inr p) (Inr (pre @ CD_receiverHosted i # ds))) None
        = Some (NullPtr, {},
                Some (Annotate (Failedf ''receive capability: invalid export %d'' None)
                        ''read payload: capability %d''),
                None, emit (map ClientRelease mtab) c1)"
proof -
  note k = recvCaps_keeps[OF pre]
  have f1: "findExport c1 i = None" using f k by (auto simp: findExport_def split: if_splits)
  have "recvCaps X c (pre @ CD_receiverHosted i # ds) [] {}
      = recvCaps X c1 (CD_receiverHosted i # ds) mtab locals"
    by (rule recvCaps_append[OF pre])
  also have "\<dots> = Some (Inl (Annotate (Failedf ''receive capability: invalid export %d'' None)
                              ''read payload: capability %d''),
                       emit (map ClientRelease mtab) c1)"
    using f1 rel k by (simp add: recvCap_def)
  finally show ?thesis by (simp add: recvPayload_def)
qed

lemma handleReturn_payload_error:
  assumes "unat (ret_answerId ret) < length (questions c) mod 2 ^ 32"
    and "questions c ! unat (ret_answerId ret) = Some a"
    and "finished \<notin> q_flags (qheap c a)"
    and "ret_which ret = Ret_results (Inr payload)"
    and "recvPayload X c payload (ret_Message_CapTable ret) = Some (cont, locals, Some err, tab, c1)"
  shows "handleReturn X c ret rel =
     Some (None,
       c1\<lparr>questions := (questions c)[unat (ret_answerId ret) := None],
          qheap := (qheap c)(a := (qheap c a)\<lparr>q_flags := insert finished (q_flags (qheap c a))\<rparr>),
          trace := trace c1 @
            [ReportError (Annotate (Failedf ''parse return: %w'' (Some err)) ''incoming return'')],
          spawned := spawned c1 @
            [ResolveReturn a (ret_answerId ret)
               (parseReturn_failed (Failedf ''parse return: %w'' (Some err)) False tab) rel]\<rparr>)"
proof -
  let ?qs = "(questions c)[unat (ret_answerId ret) := None]"
  let ?h = "(qheap c)(a := (qheap c a)\<lparr>q_flags := insert finished (q_flags (qheap c a))\<rparr>)"
  have pr: "parseReturn X (c\<lparr>questions := ?qs, qheap := ?h\<rparr>) ret (called (qheap c a))
      = Some (parseReturn_failed (Failedf ''parse return: %w'' (Some err)) False tab,
              c1\<lparr>questions := ?qs, qheap := ?h\<rparr>)"
    using assms(4,5) by (simp add: parseReturn_def recvPayload_upd)
  show ?thesis
    using assms(1,2,3) pr
    by (simp add: handleReturn_def Let_def parseReturn_failed_def report_def emit_def)
qed

lemma handleReturn_live_no_error:
  assumes "unat (ret_answerId ret) < length (questions c) mod 2 ^ 32"
    and "questions c ! unat (ret_answerId ret) = Some a"
  shows "handleReturn X c ret rel \<noteq> Some (Some e, c')"
  using assms by (auto simp: handleReturn_def Let_def split: option.splits prod.splits if_splits)

lemma run_task_parse_failed:
  "\<exists>s'. run_task X s (ResolveReturn a qid (parseReturn_failed err False tab) rel) = Some s'
      \<and> q_resolved (qheap s' a) = Some (NullPtr, tab, Some err)
      \<and> Resolve a NullPtr (Some err) \<in> set (trace s')
      \<and> ReleaseMsg rel \<in> set (trace s')"
  by (simp add: parseReturn_failed_def Let_def sendMessage_def emit_def split: option.splits)

lemma handleReturn_missing_export:
  assumes f: "findExport c i = None"
    and pre: "recvCaps X c pre [] {} = Some (Inr (mtab, locals), c1)"
    and rl: "list_all (Release_returns X (self c)) mtab"
    and q: "unat (ret_answerId ret) < length (questions c) mod 2 ^ 32"
      "questions c ! unat (ret_answerId ret) = Some a" "finished \<notin> q_flags (qheap c a)"
    and r: "ret_which ret = Ret_results (Inr (Payload (Inr p) (Inr (pre @ CD_receiverHosted i # ds))))"
      "ret_Message_CapTable ret = None"
  shows "\<exists>c'. handleReturn X c ret rel = Some (None, c')
          \<and> trace c' = trace c @ map ClientRelease mtab @
               [ReportError (Annotate (Failedf ''parse return: %w''
                  (Some (Annotate (Failedf ''receive capability: invalid export %d'' None)
                           ''read payload: capability %d''))) ''incoming return'')]
          \<and> spawned c' = spawned c @
               [ResolveReturn a (ret_answerId ret)
                  (parseReturn_failed (Failedf ''parse return: %w''
                     (Some (Annotate (Failedf ''receive capability: invalid export %d'' None)
                              ''read payload: capability %d''))) False None) rel]
          \<and> questions c' = (questions c)[unat (ret_answerId ret) := None]
          \<and> receive X c
               (Incoming \<lparr>im_Message = M_return (Inr ret), im_Release = rel, im_err = None\<rparr> # rest)
              = receive X c' rest"
proof -
  let ?ae = "Annotate (Failedf ''receive capability: invalid export %d'' None)
               ''read payload: capability %d''"
  let ?c2 = "emit (map ClientRelease mtab) c1"
  have rp: "recvPayload X c (Payload (Inr p) (Inr (pre @ CD_receiverHosted i # ds)))
              (ret_Message_CapTable ret)
      = Some (NullPtr, {}, Some ?ae, None, ?c2)"
    using recvPayload_missing_export[OF f pre rl] r(2) by simp
  define c' where "c' =
       ?c2\<lparr>questions := (questions c)[unat (ret_answerId ret) := None],
           qheap := (qheap c)(a := (qheap c a)\<lparr>q_flags := insert finished (q_flags (qheap c a))\<rparr>),
           trace := trace ?c2 @
             [ReportError (Annotate (Failedf ''parse return: %w'' (Some ?ae)) ''incoming return'')],
           spawned := spawned ?c2 @
             [ResolveReturn a (ret_answerId ret)
                (parseReturn_failed (Failedf ''parse return: %w'' (Some ?ae)) False None) rel]\<rparr>"
  have hr: "handleReturn X c ret rel = Some (None, c')"
    unfolding c'_def by (rule handleReturn_payload_error[OF q r(1) rp])
  have k: "spawned c1 = spawned c" "trace c1 = trace c"
    using recvCaps_keeps[OF pre] by simp_all
  have rc: "receive X c
               (Incoming \<lparr>im_Message = M_return (Inr ret), im_Release = rel, im_err = None\<rparr> # rest)
              = receive X c' rest"
    using hr by (simp add: Let_def)
  show ?thesis
    apply (rule exI[of _ c'])
    using hr rc k apply (simp add: c'_def emit_def)
    done
qed

text \<open>
  C8, as amended.  \<^verbatim>\<open>recvCap\<close> on a \<open>receiverHosted\<close> descriptor whose export is
  absent returns the zero client and an error.  The error stops the payload walk: when
  the release of each client made so far returns, the loop of \<^verbatim>\<open>recvPayload\<close> releases
  these clients and \<^verbatim>\<open>recvPayload\<close> returns the error, annotated.  The error does not
  fail the connection.  When the payload is that of a Return whose question is in the
  table and not finished, \<^verbatim>\<open>handleReturn\<close> reports the error, starts the goroutine that
  resolves the question with it, and returns nil, so that \<^verbatim>\<open>receive\<close> goes on with the
  next message.  The goroutine started for a Return that could not be parsed rejects the
  promise with the error and releases the message.  For a question that is in the table
  \<^verbatim>\<open>handleReturn\<close> returns no error at all, whatever the Return holds.  On a descriptor
  of unknown kind \<^verbatim>\<open>recvCap\<close> returns an error client and no error, and the walk goes on
  with the next descriptor.
\<close>

theorem recvCap_missing_export_and_unknown_kind:
  "(findExport c i = None \<longrightarrow>
      recvCap X c (CD_receiverHosted i) =
        (NullClient, Some (Failedf ''receive capability: invalid export %d'' None), c)
      \<and> (list_all (Release_returns X (self c)) mtab \<longrightarrow>
           recvCaps X c (CD_receiverHosted i # ds) mtab locals =
             Some (Inl (Annotate (Failedf ''receive capability: invalid export %d'' None)
                          ''read payload: capability %d''),
                   emit (map ClientRelease mtab) c))
      \<and> (recvCaps X c pre [] {} = Some (Inr (mtab, locals), c1)
           \<and> list_all (Release_returns X (self c)) mtab \<longrightarrow>
           recvPayload X c (Payload (Inr p) (Inr (pre @ CD_receiverHosted i # ds))) None =
             Some (NullPtr, {},
                   Some (Annotate (Failedf ''receive capability: invalid export %d'' None)
                           ''read payload: capability %d''),
                   None, emit (map ClientRelease mtab) c1)
           \<and> (unat (ret_answerId ret) < length (questions c) mod 2 ^ 32
               \<and> questions c ! unat (ret_answerId ret) = Some a
               \<and> finished \<notin> q_flags (qheap c a)
               \<and> ret_which ret =
                   Ret_results (Inr (Payload (Inr p) (Inr (pre @ CD_receiverHosted i # ds))))
               \<and> ret_Message_CapTable ret = None \<longrightarrow>
               (\<exists>c'. handleReturn X c ret rel = Some (None, c')
                  \<and> trace c' = trace c @ map ClientRelease mtab @
                       [ReportError (Annotate (Failedf ''parse return: %w''
                          (Some (Annotate (Failedf ''receive capability: invalid export %d'' None)
                                   ''read payload: capability %d''))) ''incoming return'')]
                  \<and> spawned c' = spawned c @
                       [ResolveReturn a (ret_answerId ret)
                          (parseReturn_failed (Failedf ''parse return: %w''
                             (Some (Annotate (Failedf ''receive capability: invalid export %d'' None)
                                      ''read payload: capability %d''))) False None) rel]
                  \<and> questions c' = (questions c)[unat (ret_answerId ret) := None]
                  \<and> receive X c
                       (Incoming \<lparr>im_Message = M_return (Inr ret), im_Release = rel,
                                  im_err = None\<rparr> # rest)
                      = receive X c' rest))))
   \<and> (\<exists>s'. run_task X s (ResolveReturn a qid (parseReturn_failed err False tab) rel) = Some s'
          \<and> q_resolved (qheap s' a) = Some (NullPtr, tab, Some err)
          \<and> Resolve a NullPtr (Some err) \<in> set (trace s')
          \<and> ReleaseMsg rel \<in> set (trace s'))
   \<and> (unat (ret_answerId ret) < length (questions c) mod 2 ^ 32
       \<and> questions c ! unat (ret_answerId ret) = Some a \<longrightarrow>
       (\<forall>e c'. handleReturn X c ret rel \<noteq> Some (Some e, c')))
   \<and> recvCap X c (CD_other w) =
        (ErrorClient (Failedf ''unknown CapDescriptor type %v'' None), None, c)
   \<and> recvCaps X c (CD_other w # ds) mtab locals =
        recvCaps X c ds (mtab @ [ErrorClient (Failedf ''unknown CapDescriptor type %v'' None)]) locals"
proof (intro conjI impI)
  assume f: "findExport c i = None"
  show rc: "recvCap X c (CD_receiverHosted i) =
        (NullClient, Some (Failedf ''receive capability: invalid export %d'' None), c)"
    using f by (simp add: recvCap_def)
  {
    assume "list_all (Release_returns X (self c)) mtab"
    then show "recvCaps X c (CD_receiverHosted i # ds) mtab locals =
             Some (Inl (Annotate (Failedf ''receive capability: invalid export %d'' None)
                          ''read payload: capability %d''),
                   emit (map ClientRelease mtab) c)"
      using rc by simp
  }
  {
    assume h: "recvCaps X c pre [] {} = Some (Inr (mtab, locals), c1)
           \<and> list_all (Release_returns X (self c)) mtab"
    then show "recvPayload X c (Payload (Inr p) (Inr (pre @ CD_receiverHosted i # ds))) None =
             Some (NullPtr, {},
                   Some (Annotate (Failedf ''receive capability: invalid export %d'' None)
                           ''read payload: capability %d''),
                   None, emit (map ClientRelease mtab) c1)"
      using recvPayload_missing_export[OF f] by blast
    assume q: "unat (ret_answerId ret) < length (questions c) mod 2 ^ 32
               \<and> questions c ! unat (ret_answerId ret) = Some a
               \<and> finished \<notin> q_flags (qheap c a)
               \<and> ret_which ret =
                   Ret_results (Inr (Payload (Inr p) (Inr (pre @ CD_receiverHosted i # ds))))
               \<and> ret_Message_CapTable ret = None"
    from h have pre: "recvCaps X c pre [] {} = Some (Inr (mtab, locals), c1)"
      and rl: "list_all (Release_returns X (self c)) mtab"
      by simp_all
    from q have q': "unat (ret_answerId ret) < length (questions c) mod 2 ^ 32"
      "questions c ! unat (ret_answerId ret) = Some a" "finished \<notin> q_flags (qheap c a)"
      "ret_which ret = Ret_results (Inr (Payload (Inr p) (Inr (pre @ CD_receiverHosted i # ds))))"
      "ret_Message_CapTable ret = None"
      by simp_all
    show "\<exists>c'. handleReturn X c ret rel = Some (None, c')
                  \<and> trace c' = trace c @ map ClientRelease mtab @
                       [ReportError (Annotate (Failedf ''parse return: %w''
                          (Some (Annotate (Failedf ''receive capability: invalid export %d'' None)
                                   ''read payload: capability %d''))) ''incoming return'')]
                  \<and> spawned c' = spawned c @
                       [ResolveReturn a (ret_answerId ret)
                          (parseReturn_failed (Failedf ''parse return: %w''
                             (Some (Annotate (Failedf ''receive capability: invalid export %d'' None)
                                      ''read payload: capability %d''))) False None) rel]
                  \<and> questions c' = (questions c)[unat (ret_answerId ret) := None]
                  \<and> receive X c
                       (Incoming \<lparr>im_Message = M_return (Inr ret), im_Release = rel,
                                  im_err = None\<rparr> # rest)
                      = receive X c' rest"
      by (rule handleReturn_missing_export[OF f pre rl q'])
  }
next
  show "\<exists>s'. run_task X s (ResolveReturn a qid (parseReturn_failed err False tab) rel) = Some s'
          \<and> q_resolved (qheap s' a) = Some (NullPtr, tab, Some err)
          \<and> Resolve a NullPtr (Some err) \<in> set (trace s')
          \<and> ReleaseMsg rel \<in> set (trace s')"
    by (rule run_task_parse_failed)
next
  assume "unat (ret_answerId ret) < length (questions c) mod 2 ^ 32
       \<and> questions c ! unat (ret_answerId ret) = Some a"
  then show "\<forall>e c'. handleReturn X c ret rel \<noteq> Some (Some e, c')"
    using handleReturn_live_no_error by blast
next
  show ro: "recvCap X c (CD_other w) =
        (ErrorClient (Failedf ''unknown CapDescriptor type %v'' None), None, c)"
    by (simp add: recvCap_def)
  show "recvCaps X c (CD_other w # ds) mtab locals =
        recvCaps X c ds (mtab @ [ErrorClient (Failedf ''unknown CapDescriptor type %v'' None)]) locals"
    using ro by simp
qed

theorem recvCap_missing_export_and_unknown_kind_witness:
  "findExport conn_exporting 7 = None
   \<and> recvCaps ext0 conn_exporting [CD_receiverHosted 0] [] {}
       = Some (Inr ([LocalClient 5], {0}), conn_exporting)
   \<and> list_all (Release_returns ext0 (self conn_exporting)) [LocalClient 5]
   \<and> recvPayload ext0 conn_exporting
        (Payload (Inr NullPtr) (Inr [CD_receiverHosted 0, CD_receiverHosted 7])) None
       = Some (NullPtr, {},
               Some (Annotate (Failedf ''receive capability: invalid export %d'' None)
                       ''read payload: capability %d''),
               None, emit [ClientRelease (LocalClient 5)] conn_exporting)
   \<and> unat (ret_answerId ret_missing) < length (questions conn_exporting) mod 2 ^ 32
   \<and> questions conn_exporting ! unat (ret_answerId ret_missing) = Some 0
   \<and> finished \<notin> q_flags (qheap conn_exporting 0)
   \<and> ret_which ret_missing
       = Ret_results (Inr (Payload (Inr NullPtr) (Inr [CD_receiverHosted 0, CD_receiverHosted 7])))
   \<and> ret_Message_CapTable ret_missing = None
   \<and> map_option fst (handleReturn ext0 conn_exporting ret_missing 1) = Some None
   \<and> map_option (trace \<circ> snd) (handleReturn ext0 conn_exporting ret_missing 1)
       = Some [ClientRelease (LocalClient 5),
               ReportError (Annotate (Failedf ''parse return: %w''
                  (Some (Annotate (Failedf ''receive capability: invalid export %d'' None)
                           ''read payload: capability %d''))) ''incoming return'')]
   \<and> map_option (spawned \<circ> snd) (handleReturn ext0 conn_exporting ret_missing 1)
       = Some [ResolveReturn 0 0
                 (parseReturn_failed (Failedf ''parse return: %w''
                    (Some (Annotate (Failedf ''receive capability: invalid export %d'' None)
                             ''read payload: capability %d''))) False None) 1]"
proof -
  let ?ae = "Annotate (Failedf ''receive capability: invalid export %d'' None)
               ''read payload: capability %d''"
  let ?pl = "Payload (Inr NullPtr) (Inr [CD_receiverHosted 0, CD_receiverHosted 7])"
  let ?c2 = "emit [ClientRelease (LocalClient 5)] conn_exporting"
  note t = recvCap_missing_export_and_unknown_kind[where c = conn_exporting and i = 7 and X = ext0
      and mtab = "[LocalClient 5]" and ds = "[]" and locals = "{0}" and pre = "[CD_receiverHosted 0]"
      and ?c1.0 = conn_exporting and p = NullPtr and ret = ret_missing and a = 0 and rel = 1
      and rest = "[]" and s = conn_exporting and qid = 0 and err = ?ae and tab = None and w = 0]
  have f: "findExport conn_exporting 7 = None"
    by (simp add: findExport_def conn_exporting_def)
  have pre: "recvCaps ext0 conn_exporting [CD_receiverHosted 0] [] {}
       = Some (Inr ([LocalClient 5], {0}), conn_exporting)"
    by (simp add: recvCap_def findExport_def conn_exporting_def)
  have rl: "list_all (Release_returns ext0 (self conn_exporting)) [LocalClient 5]"
    by (simp add: ext0_def)
  from t f pre rl have rp: "recvPayload ext0 conn_exporting ?pl None
       = Some (NullPtr, {}, Some ?ae, None, ?c2)"
    by simp
  have q: "unat (ret_answerId ret_missing) < length (questions conn_exporting) mod 2 ^ 32"
    "questions conn_exporting ! unat (ret_answerId ret_missing) = Some 0"
    "finished \<notin> q_flags (qheap conn_exporting 0)"
    "ret_which ret_missing = Ret_results (Inr (Payload (Inr NullPtr)
        (Inr ([CD_receiverHosted 0] @ CD_receiverHosted 7 # []))))"
    "ret_Message_CapTable ret_missing = None"
    and e: "ret_answerId ret_missing = 0" "trace conn_exporting = []" "spawned conn_exporting = []"
    by (simp_all add: ret_missing_def conn_exporting_def conn_q_def NewConn_def no_question_def)
  from t f pre rl q
  obtain c' where h: "handleReturn ext0 conn_exporting ret_missing 1 = Some (None, c')"
    and tr: "trace c' = trace conn_exporting @ map ClientRelease [LocalClient 5] @
               [ReportError (Annotate (Failedf ''parse return: %w'' (Some ?ae)) ''incoming return'')]"
    and sp: "spawned c' = spawned conn_exporting @
               [ResolveReturn 0 (ret_answerId ret_missing)
                  (parseReturn_failed (Failedf ''parse return: %w'' (Some ?ae)) False None) 1]"
    by blast
  show ?thesis
    using f pre rl rp q h tr sp e by simp
qed

text \<open>
  C8 as stated says that this error fails the connection.  It does not: a Return whose
  payload names an absent export leaves \<^verbatim>\<open>handleReturn\<close> without error, and the receive
  loop goes on to wait for the next message.
\<close>

theorem recvCap_error_keeps_connection_counterexample:
  "recvCap ext0 conn_q (CD_receiverHosted 7) =
       (NullClient, Some (Failedf ''receive capability: invalid export %d'' None), conn_q)
   \<and> map_option fst (handleReturn ext0 conn_q
          \<lparr>ret_answerId = 0,
           ret_which = Ret_results (Inr (Payload (Inr NullPtr) (Inr [CD_receiverHosted 7]))),
           ret_Message_CapTable = None\<rparr> 1) = Some None
   \<and> fst (receive ext0 conn_q
          [Incoming \<lparr>im_Message = M_return (Inr
              \<lparr>ret_answerId = 0,
               ret_which = Ret_results (Inr (Payload (Inr NullPtr) (Inr [CD_receiverHosted 7]))),
               ret_Message_CapTable = None\<rparr>), im_Release = 1, im_err = None\<rparr>]) = Waiting"
proof -
  let ?ret = "\<lparr>ret_answerId = 0,
               ret_which = Ret_results (Inr (Payload (Inr NullPtr) (Inr [CD_receiverHosted 7]))),
               ret_Message_CapTable = None\<rparr>"
  have f: "findExport conn_q 7 = None"
    by (simp add: findExport_def conn_q_def NewConn_def)
  have a: "recvCap ext0 conn_q (CD_receiverHosted 7) =
       (NullClient, Some (Failedf ''receive capability: invalid export %d'' None), conn_q)"
    using f by (simp add: recvCap_def)
  have rp: "recvPayload ext0 conn_q (Payload (Inr NullPtr) (Inr [CD_receiverHosted 7]))
        (ret_Message_CapTable ?ret)
      = Some (NullPtr, {},
              Some (Annotate (Failedf ''receive capability: invalid export %d'' None)
                      ''read payload: capability %d''),
              None, conn_q)"
    using recvPayload_missing_export[OF f, of ext0 "[]" "[]" "{}" conn_q NullPtr "[]"] by simp
  have q: "unat (ret_answerId ?ret) < length (questions conn_q) mod 2 ^ 32"
    "questions conn_q ! unat (ret_answerId ?ret) = Some 0"
    "finished \<notin> q_flags (qheap conn_q 0)"
    "ret_which ?ret = Ret_results (Inr (Payload (Inr NullPtr) (Inr [CD_receiverHosted 7])))"
    by (simp_all add: conn_q_def NewConn_def no_question_def)
  note h = handleReturn_payload_error[OF q rp, of 1]
  have b: "map_option fst (handleReturn ext0 conn_q ?ret 1) = Some None"
    using h by simp
  have "fst (receive ext0 conn_q
          [Incoming \<lparr>im_Message = M_return (Inr ?ret), im_Release = 1, im_err = None\<rparr>]) = Waiting"
    using h by (simp add: Let_def)
  with a b show ?thesis by simp
qed

text \<open>
  The loop of \<^verbatim>\<open>recvPayload\<close> releases the clients made so far while \<^verbatim>\<open>c.lk\<close> is held; the
  source asks in a comment whether that is safe.  In the environment of the examples,
  where the release of an import of the connection takes that mutex, a Return whose
  payload has a capability hosted by the sender before the absent export leaves
  \<^verbatim>\<open>recvPayload\<close>, \<^verbatim>\<open>handleReturn\<close> and with them the receive loop blocked.
\<close>

lemma recvPayload_release_blocks_example:
  "recvPayload ext0 conn_exporting
       (Payload (Inr NullPtr) (Inr [CD_senderHosted 3, CD_receiverHosted 7])) None = None
   \<and> handleReturn ext0 conn_exporting ret_import_missing 1 = None
   \<and> receive ext0 conn_exporting
        [Incoming \<lparr>im_Message = M_return (Inr ret_import_missing), im_Release = 1, im_err = None\<rparr>]
       = (Blocked, conn_exporting)"
proof -
  have rp: "recvPayload ext0 c
       (Payload (Inr NullPtr) (Inr [CD_senderHosted 3, CD_receiverHosted 7])) None = None"
    if "self c = 0" "exports c = exports conn_exporting" for c
    using that
    by (simp add: recvPayload_def recvCap_def addImport_def findExport_def ext0_def
        conn_exporting_def conn_q_def NewConn_def)
  have h: "handleReturn ext0 conn_exporting ret_import_missing 1 = None"
    by (simp add: handleReturn_def Let_def parseReturn_def rp ret_import_missing_def
        conn_exporting_def conn_q_def NewConn_def no_question_def)
  show ?thesis
    using rp[of conn_exporting] h by (simp add: Let_def conn_exporting_def conn_q_def NewConn_def)
qed

end
